(* ===== verification/Go_Base.thy ===== *)
theory Go_Base
  imports Main "HOL-Library.Word" "HOL-Library.Char_ord" "HOL-Library.List_Lexorder"
begin

text \<open>
  The prelude of the development: Go values and errors, the HTTP responses of the three
  \<open>httpx\<close> packages, SQL tables as lists of rows, and \<^emph>\<open>calls\<close>, the way every model reaches
  the shared state (PostgreSQL, Redis, a customer's web server).

  A call is one round trip. Before it takes effect the other processes of the deployment may
  change the shared state in any way, and the call itself may fail, before or after taking
  effect. A \<^emph>\<open>turn\<close> records what happens to one call, and a world carries the turns still to
  come, so that every definition is a function and a theorem over all worlds speaks of every
  interleaving and every failure.
\<close>

section \<open>Collections of rules\<close>

named_theorems table_simps \<open>rows of a table after a statement\<close>
named_theorems stmt_defs \<open>definitions of the atomic statements\<close>
named_theorems step_intros \<open>introduction rules of the step relation, one per statement\<close>
named_theorems handler_steps \<open>a handler's effect as a run of atomic statements\<close>

section \<open>Go values\<close>

type_synonym uuid = "128 word"
type_synonym byte = "8 word"
type_synonym json = string        \<comment> \<open>the text of a JSON value\<close>
type_synonym gotime = int         \<comment> \<open>nanoseconds since the Unix epoch\<close>

text \<open>
  A string that is used as the id of a row, as far as the services can tell ids apart: the empty
  string, a text that is no UUID (the database driver refuses to encode it), or the text of a
  UUID.
\<close>

datatype idtext = EmptyText | BadText | UuidText uuid

text \<open>Go's \<open>int\<close> and \<open>int64\<close> are 64 bits wide; PostgreSQL's \<open>INT\<close> is 32 bits wide.\<close>

definition int64_min :: int where "int64_min = - (2 ^ 63)"
definition int64_max :: int where "int64_max = 2 ^ 63 - 1"

definition wrap64 :: "int \<Rightarrow> int" where
  "wrap64 x = (x + 2 ^ 63) mod 2 ^ 64 - 2 ^ 63"

definition int4_ok :: "int \<Rightarrow> bool" where
  "int4_ok n \<longleftrightarrow> - (2 ^ 31) \<le> n \<and> n < 2 ^ 31"

lemma wrap64_id: "int64_min \<le> x \<Longrightarrow> x \<le> int64_max \<Longrightarrow> wrap64 x = x"
  by (simp add: wrap64_def int64_min_def int64_max_def)

lemma wrap64_range: "int64_min \<le> wrap64 x \<and> wrap64 x \<le> int64_max"
proof -
  have "(x + 2 ^ 63) mod 2 ^ 64 < 2 ^ 64" by simp
  moreover have "0 \<le> (x + 2 ^ 63) mod 2 ^ 64" by simp
  ultimately show ?thesis
    unfolding wrap64_def int64_min_def int64_max_def by simp
qed

definition digit_of :: "char \<Rightarrow> int option" where
  "digit_of c =
     (if 48 \<le> (of_char c :: int) \<and> (of_char c :: int) \<le> 57 then Some (of_char c - 48) else None)"

fun digits_value :: "int \<Rightarrow> string \<Rightarrow> int option" where
  "digits_value acc [] = Some acc"
| "digits_value acc (c # cs) =
     (case digit_of c of None \<Rightarrow> None | Some d \<Rightarrow> digits_value (10 * acc + d) cs)"

definition unsigned_value :: "string \<Rightarrow> int option" where
  "unsigned_value cs = (if cs = [] then None else digits_value 0 cs)"

text \<open>
  \<open>strconv.Atoi\<close> with its error discarded: 0 on a syntax error, the nearest bound of \<open>int\<close> when the
  number is out of range. \<open>ParseUint\<close>, on which it rests, stops at the digit with which the value
  leaves 64 bits, so that what follows is not looked at.
\<close>

fun parse_uint :: "int \<Rightarrow> string \<Rightarrow> int option" where
  "parse_uint acc [] = Some acc"
| "parse_uint acc (c # cs) =
     (case digit_of c of
        None \<Rightarrow> None
      | Some d \<Rightarrow> if 2 ^ 64 \<le> 10 * acc + d then Some (2 ^ 64 - 1) else parse_uint (10 * acc + d) cs)"

definition clamp64 :: "int \<Rightarrow> int" where
  "clamp64 x = max int64_min (min int64_max x)"

definition parse_int :: "int \<Rightarrow> string \<Rightarrow> int" where
  "parse_int sign cs =
     (if cs = [] then 0
      else (case parse_uint 0 cs of None \<Rightarrow> 0 | Some n \<Rightarrow> clamp64 (sign * n)))"

definition atoi :: "string \<Rightarrow> int" where
  "atoi cs =
     (case cs of
        [] \<Rightarrow> 0
      | c # ds \<Rightarrow>
          if c = CHR ''-'' then parse_int (- 1) ds
          else if c = CHR ''+'' then parse_int 1 ds else parse_int 1 cs)"

text \<open>What a text of digits is read as: its value, as near as an \<open>int\<close> comes to it.\<close>

lemma digit_of_nonneg: "digit_of c = Some d \<Longrightarrow> 0 \<le> d"
  by (auto simp: digit_of_def split: if_splits)

lemma digits_value_mono: "digits_value acc cs = Some n \<Longrightarrow> 0 \<le> acc \<Longrightarrow> acc \<le> n"
proof (induction cs arbitrary: acc)
  case (Cons c cs)
  then obtain d where d: "digit_of c = Some d" "digits_value (10 * acc + d) cs = Some n"
    by (auto split: option.splits)
  with Cons.IH [OF d(2)] Cons.prems(2) digit_of_nonneg [OF d(1)] show ?case by simp
qed simp

lemma parse_uint_value:
  "digits_value acc cs = Some n \<Longrightarrow> 0 \<le> acc \<Longrightarrow> acc < 2 ^ 64 \<Longrightarrow>
     parse_uint acc cs = Some (min n (2 ^ 64 - 1))"
proof (induction cs arbitrary: acc)
  case (Cons c cs)
  then obtain d where d: "digit_of c = Some d" "digits_value (10 * acc + d) cs = Some n"
    by (auto split: option.splits)
  have "10 * acc + d \<le> n"
    using digits_value_mono [OF d(2)] digit_of_nonneg [OF d(1)] Cons.prems(2) by simp
  then show ?case
    using Cons.IH [OF d(2)] digit_of_nonneg [OF d(1)] Cons.prems(2) d(1) by simp
qed simp

lemma parse_int_value: "unsigned_value cs = Some n \<Longrightarrow> parse_int 1 cs = clamp64 n"
  using parse_uint_value [of 0 cs n]
  by (simp add: parse_int_def unsigned_value_def clamp64_def int64_max_def split: if_splits)

text \<open>The decimal text of an integer, and that reading it gives the integer back.\<close>

fun digits :: "nat \<Rightarrow> string" where
  "digits n = (if n < 10 then [char_of (48 + n)] else digits (n div 10) @ [char_of (48 + n mod 10)])"

declare digits.simps [simp del]

definition decimal :: "int \<Rightarrow> string" where
  "decimal n = (if n < 0 then CHR ''-'' # digits (nat (- n)) else digits (nat n))"

lemma digit_of_char:
  assumes "n < 10"
  shows "digit_of (char_of (48 + n)) = Some (int n)"
proof -
  have "n \<in> {0, 1, 2, 3, 4, 5, 6, 7, 8, 9}" using assms by auto
  then show ?thesis by (auto simp: digit_of_def char_of_def bit_0)
qed

lemma digits_value_append:
  "digits_value acc (s @ [c]) =
     (case digits_value acc s of None \<Rightarrow> None | Some v \<Rightarrow> map_option (\<lambda>d. 10 * v + d) (digit_of c))"
  by (induction s arbitrary: acc) (auto split: option.splits)

lemma digits_value_digits: "digits_value 0 (digits n) = Some (int n)"
proof (induction n rule: digits.induct)
  case (1 n)
  show ?case
  proof (cases "n < 10")
    case True
    then show ?thesis by (simp add: digits.simps [of n] digit_of_char)
  next
    case False
    moreover have "10 * int (n div 10) + int (n mod 10) = int n" by presburger
    ultimately show ?thesis
      using 1 by (simp add: digits.simps [of n] digits_value_append digit_of_char)
  qed
qed

lemma digits_nonempty: "digits n \<noteq> []"
  by (simp add: digits.simps [of n])

lemma unsigned_value_digits: "unsigned_value (digits n) = Some (int n)"
  by (simp add: unsigned_value_def digits_nonempty digits_value_digits)

text \<open>An ASCII letter in lower case.\<close>

definition lower_char :: "char \<Rightarrow> char" where
  "lower_char c =
     (let n = of_char c :: nat in if 65 \<le> n \<and> n \<le> 90 then char_of (n + 32) else c)"

section \<open>Errors\<close>

text \<open>
  The errors the services tell apart: \<open>pgx.ErrNoRows\<close>, an error PostgreSQL reports (with its
  SQLSTATE), an argument the driver cannot encode, a call that did not complete (network, context,
  server down), a request body that does not decode, the repositories' own errors, and an error
  wrapped by \<open>fmt.Errorf\<close> with \<open>%w\<close>.
\<close>

datatype goerr =
    NoRows
  | PgError string
  | BadArg
  | Unavailable
  | DecodeError
  | ErrNotFound
  | Msg string
  | Wrap string goerr

fun is_NoRows :: "goerr \<Rightarrow> bool" where   \<comment> \<open>\<open>errors.Is(err, pgx.ErrNoRows)\<close>\<close>
  "is_NoRows NoRows = True"
| "is_NoRows (Wrap _ e) = is_NoRows e"
| "is_NoRows _ = False"

fun pg_code :: "goerr \<Rightarrow> string option" where   \<comment> \<open>\<open>errors.As(err, &pgErr)\<close>, then \<open>pgErr.Code\<close>\<close>
  "pg_code (PgError c) = Some c"
| "pg_code (Wrap _ e) = pg_code e"
| "pg_code _ = None"

definition unique_violation :: string where "unique_violation = ''23505''"
definition foreign_key_violation :: string where "foreign_key_violation = ''23503''"
definition not_null_violation :: string where "not_null_violation = ''23502''"
definition invalid_text :: string where "invalid_text = ''22P02''"
definition bad_limit :: string where "bad_limit = ''2201W''"
definition bad_offset :: string where "bad_offset = ''2201X''"

section \<open>HTTP responses\<close>

datatype detail = Detail string | ErrorText goerr   \<comment> \<open>\<open>ErrorText e\<close> is \<open>e.Error()\<close>\<close>

record problem =
  p_Type :: string
  p_Title :: string
  p_Status :: int
  p_Detail :: detail
  p_RequestID :: string

datatype 'b body = NoBody | ProblemBody problem | JSON 'b

record 'b response =
  r_status :: int
  r_body :: "'b body"

definition WriteHeader :: "int \<Rightarrow> 'b response" where
  "WriteHeader code = \<lparr>r_status = code, r_body = NoBody\<rparr>"

definition WriteJSON :: "int \<Rightarrow> 'b \<Rightarrow> 'b response" where
  "WriteJSON code v = \<lparr>r_status = code, r_body = JSON v\<rparr>"

definition WriteError :: "int \<Rightarrow> string \<Rightarrow> detail \<Rightarrow> string \<Rightarrow> 'b response" where
  "WriteError code title det rid =
     \<lparr>r_status = code,
      r_body = ProblemBody \<lparr>p_Type = ''about:blank'', p_Title = title, p_Status = code,
                            p_Detail = det, p_RequestID = rid\<rparr>\<rparr>"

lemmas response_defs = WriteHeader_def WriteJSON_def WriteError_def

lemma WriteJSON_eq [simp]: "WriteJSON c v = WriteJSON c' v' \<longleftrightarrow> c = c' \<and> v = v'"
  by (simp add: WriteJSON_def)

lemma WriteError_neq [simp]:
  "WriteError c t d rid \<noteq> WriteJSON c' v" "WriteJSON c' v \<noteq> WriteError c t d rid"
  "WriteError c t d rid \<noteq> WriteHeader c'" "WriteHeader c' \<noteq> WriteError c t d rid"
  "WriteHeader c' \<noteq> WriteJSON c v" "WriteJSON c v \<noteq> WriteHeader c'"
  by (simp_all add: response_defs)

lemma response_status [simp]:
  "r_status (WriteJSON c v) = c" "r_status (WriteError c t d rid) = c" "r_status (WriteHeader c) = c"
  by (simp_all add: response_defs)

text \<open>
  A request as a handler sees it: the headers and the URL and query parameters it reads, and the
  result of decoding its body (\<open>None\<close> when \<open>json.NewDecoder(r.Body).Decode\<close> returns an error).
\<close>

record 'q request =
  h_tenant :: idtext      \<comment> \<open>header \<open>X-Tenant-ID\<close>\<close>
  h_reqid :: string       \<comment> \<open>header \<open>X-Request-ID\<close>\<close>
  h_idem :: string        \<comment> \<open>header \<open>Idempotency-Key\<close>\<close>
  h_quota :: string       \<comment> \<open>header \<open>X-Monthly-Quota\<close>\<close>
  url_id :: idtext        \<comment> \<open>the path parameter\<close>
  q_status :: string
  q_limit :: string
  q_offset :: string
  decoded :: "'q option"

section \<open>Calls\<close>

datatype outcome =
    Done         \<comment> \<open>the call took effect and its reply arrived\<close>
  | Refused      \<comment> \<open>the call had no effect and returned an error\<close>
  | LostReply    \<comment> \<open>the call took effect, but its reply was lost: the caller sees an error\<close>

record 's turn =
  others :: "'s \<Rightarrow> 's"          \<comment> \<open>what the rest of the deployment does before this call\<close>
  outcome :: outcome
  fresh :: uuid                \<comment> \<open>the value of \<open>gen_random_uuid()\<close> during this call\<close>
  entropy :: "nat \<Rightarrow> byte"      \<comment> \<open>the bytes \<open>rand.Read\<close> delivers\<close>
  reply :: "int option"        \<comment> \<open>the status a customer's server answers; \<open>None\<close>: no answer\<close>

record 's world =
  store :: 's
  tape :: "nat \<Rightarrow> 's turn"
  pos :: nat

definition call ::
    "(uuid \<Rightarrow> 's \<Rightarrow> (goerr + 'a) \<times> 's) \<Rightarrow> 's world \<Rightarrow> (goerr + 'a) \<times> 's world" where
  "call f w =
     (let t = tape w (pos w); s = others t (store w); w' = w\<lparr>pos := Suc (pos w)\<rparr> in
      case f (fresh t) s of (r, s') \<Rightarrow>
        (case outcome t of
           Done \<Rightarrow> (r, w'\<lparr>store := s'\<rparr>)
         | Refused \<Rightarrow> (Inl Unavailable, w'\<lparr>store := s\<rparr>)
         | LostReply \<Rightarrow> (Inl Unavailable, w'\<lparr>store := s'\<rparr>)))"

text \<open>\<open>rand.Read\<close> on a buffer of \<open>n\<close> bytes: all of them, or an error.\<close>

definition rand_read :: "nat \<Rightarrow> 's world \<Rightarrow> (goerr + byte list) \<times> 's world" where
  "rand_read n w =
     (let t = tape w (pos w); w' = w\<lparr>pos := Suc (pos w)\<rparr> in
      (if outcome t = Done then Inr (map (entropy t) [0..<n]) else Inl Unavailable, w'))"

text \<open>An HTTP request to a customer's server: the other processes move on, then it answers.\<close>

definition http_do :: "'s world \<Rightarrow> int option \<times> 's world" where
  "http_do w =
     (let t = tape w (pos w) in
      (reply t, w\<lparr>pos := Suc (pos w), store := others t (store w)\<rparr>))"

text \<open>A world whose calls all succeed and that nobody else touches.\<close>

definition quiet :: "'s world \<Rightarrow> bool" where
  "quiet w \<longleftrightarrow> (\<forall>n. others (tape w n) = id \<and> outcome (tape w n) = Done)"

lemma quiet_pos [simp]: "quiet (w\<lparr>pos := n\<rparr>) = quiet w"
  and quiet_store [simp]: "quiet (w\<lparr>store := s\<rparr>) = quiet w"
  by (simp_all add: quiet_def)

lemma call_quiet:
  assumes "quiet w"
  shows "call f w =
    (fst (f (fresh (tape w (pos w))) (store w)),
     w\<lparr>pos := Suc (pos w), store := snd (f (fresh (tape w (pos w))) (store w))\<rparr>)"
  using assms by (simp add: quiet_def call_def Let_def case_prod_beta)

lemma http_do_quiet:
  assumes "quiet w"
  shows "http_do w = (reply (tape w (pos w)), w\<lparr>pos := Suc (pos w)\<rparr>)"
  using assms by (simp add: quiet_def http_do_def Let_def)

lemma rand_read_quiet:
  assumes "quiet w"
  shows "rand_read n w =
    (Inr (map (entropy (tape w (pos w))) [0..<n]), w\<lparr>pos := Suc (pos w)\<rparr>)"
  using assms by (simp add: quiet_def rand_read_def Let_def)

lemmas quiet_simps = call_quiet http_do_quiet rand_read_quiet

text \<open>The same for a single call: undisturbed and answered, or undisturbed and refused.\<close>

definition calm :: "'s world \<Rightarrow> nat \<Rightarrow> bool" where
  "calm w n \<longleftrightarrow> others (tape w n) = id \<and> outcome (tape w n) = Done"

definition refused :: "'s world \<Rightarrow> nat \<Rightarrow> bool" where
  "refused w n \<longleftrightarrow> others (tape w n) = id \<and> outcome (tape w n) = Refused"

lemma calm_update [simp]:
  "calm (w\<lparr>pos := k\<rparr>) n = calm w n" "calm (w\<lparr>store := s\<rparr>) n = calm w n"
  "refused (w\<lparr>pos := k\<rparr>) n = refused w n" "refused (w\<lparr>store := s\<rparr>) n = refused w n"
  by (simp_all add: calm_def refused_def)

lemma quiet_iff: "quiet w \<longleftrightarrow> (\<forall>n. calm w n)"
  by (simp add: quiet_def calm_def)

lemma call_calm:
  assumes "calm w (pos w)"
  shows "call f w =
    (fst (f (fresh (tape w (pos w))) (store w)),
     w\<lparr>pos := Suc (pos w), store := snd (f (fresh (tape w (pos w))) (store w))\<rparr>)"
  using assms by (simp add: calm_def call_def Let_def case_prod_beta)

lemma call_refused:
  assumes "refused w (pos w)"
  shows "call f w = (Inl Unavailable, w\<lparr>pos := Suc (pos w)\<rparr>)"
  using assms by (simp add: refused_def call_def Let_def case_prod_beta)

subsection \<open>Runs\<close>

text \<open>
  \<open>moves S w w'\<close>: the shared state of \<open>w'\<close> comes from that of \<open>w\<close> by finitely many steps of
  \<open>S\<close>, and \<open>w'\<close> is a later point of the same turns. \<open>tame S w\<close>: whatever the others do during a call is such
  a run too.
\<close>

definition tame :: "('s \<Rightarrow> 's \<Rightarrow> bool) \<Rightarrow> 's world \<Rightarrow> bool" where
  "tame S w \<longleftrightarrow> (\<forall>n s. S\<^sup>*\<^sup>* s (others (tape w n) s))"

definition moves :: "('s \<Rightarrow> 's \<Rightarrow> bool) \<Rightarrow> 's world \<Rightarrow> 's world \<Rightarrow> bool" where
  "moves S w w' \<longleftrightarrow>
     tape w' = tape w \<and> pos w \<le> pos w' \<and> S\<^sup>*\<^sup>* (store w) (store w')"

lemma moves_refl [simp, intro]: "moves S w w"
  by (simp add: moves_def)

lemma moves_trans [trans]: "moves S w w' \<Longrightarrow> moves S w' w'' \<Longrightarrow> moves S w w''"
  by (auto simp: moves_def)

lemma moves_tame: "moves S w w' \<Longrightarrow> tame S w \<Longrightarrow> tame S w'"
  by (simp add: moves_def tame_def)

lemma moves_quiet: "moves S w w' \<Longrightarrow> quiet w \<Longrightarrow> quiet w'"
  by (simp add: moves_def quiet_def)

lemma quiet_tame: "quiet w \<Longrightarrow> tame S w"
  by (simp add: quiet_def tame_def)

lemma call_moves:
  assumes "tame S w" and "\<And>u s. S\<^sup>*\<^sup>* s (snd (f u s))"
  shows "moves S w (snd (call f w))"
proof -
  let ?t = "tape w (pos w)"
  have a: "S\<^sup>*\<^sup>* (store w) (others ?t (store w))"
    using assms(1) by (simp add: tame_def)
  have b: "S\<^sup>*\<^sup>* (store w) (snd (f (fresh ?t) (others ?t (store w))))"
    using a assms(2) by (rule rtranclp_trans)
  show ?thesis
    using a b by (auto simp: moves_def call_def Let_def split: prod.splits outcome.splits)
qed

text \<open>A call whose result is no outage ran its statement on some state the others led to.\<close>

lemma call_result:
  assumes "tame S w" and "call f w = (r, w1)" and "r \<noteq> Inl Unavailable"
  obtains u p where "S\<^sup>*\<^sup>* (store w) p" and "f u p = (r, store w1)" and "tape w1 = tape w"
proof -
  let ?t = "tape w (pos w)"
  have "S\<^sup>*\<^sup>* (store w) (others ?t (store w))" using assms(1) by (simp add: tame_def)
  moreover have "f (fresh ?t) (others ?t (store w)) = (r, store w1)" and "tape w1 = tape w"
    using assms(2,3) by (auto simp: call_def Let_def split: prod.splits outcome.splits)
  ultimately show ?thesis by (rule that)
qed

lemma http_do_moves: "tame S w \<Longrightarrow> moves S w (snd (http_do w))"
  by (simp add: moves_def tame_def http_do_def Let_def)

lemma rand_read_moves: "moves S w (snd (rand_read n w))"
  by (simp add: moves_def rand_read_def Let_def)

section \<open>Tables\<close>

text \<open>
  A table is the list of its rows in the heap's order, which SQL leaves open; the theorems hold
  for every such order.
\<close>

definition upd_where :: "('r \<Rightarrow> bool) \<Rightarrow> ('r \<Rightarrow> 'r) \<Rightarrow> 'r list \<Rightarrow> 'r list" where
  "upd_where p f rs = map (\<lambda>r. if p r then f r else r) rs"

text \<open>\<open>pool.QueryRow(...).Scan\<close>: the first row of the result, or \<open>pgx.ErrNoRows\<close>.\<close>

definition first_row :: "('r \<Rightarrow> bool) \<Rightarrow> 'r list \<Rightarrow> goerr + 'r" where
  "first_row p rs = (case find p rs of None \<Rightarrow> Inl NoRows | Some r \<Rightarrow> Inr r)"

text \<open>\<open>ORDER BY k DESC\<close> and \<open>LIMIT l OFFSET o\<close>.\<close>

definition order_desc :: "('r \<Rightarrow> int) \<Rightarrow> 'r list \<Rightarrow> 'r list" where
  "order_desc k rs = sort_key (\<lambda>r. - k r) rs"

definition limit_offset :: "int \<Rightarrow> int \<Rightarrow> 'r list \<Rightarrow> 'r list" where
  "limit_offset l off rs = take (nat l) (drop (nat off) rs)"

lemma upd_where_Nil [simp]: "upd_where p f [] = []"
  and upd_where_Cons [simp]:
    "upd_where p f (r # rs) = (if p r then f r else r) # upd_where p f rs"
  and upd_where_append [simp]: "upd_where p f (rs @ ss) = upd_where p f rs @ upd_where p f ss"
  and length_upd_where [simp]: "length (upd_where p f rs) = length rs"
  by (simp_all add: upd_where_def)

lemma set_upd_where: "set (upd_where p f rs) = (\<lambda>r. if p r then f r else r) ` set rs"
  by (simp add: upd_where_def)

lemma upd_where_map_key:
  assumes "\<And>r. p r \<Longrightarrow> k (f r) = k r"
  shows "map k (upd_where p f rs) = map k rs"
  using assms by (induction rs) auto

lemma upd_where_none: "(\<And>r. r \<in> set rs \<Longrightarrow> \<not> p r) \<Longrightarrow> upd_where p f rs = rs"
  by (induction rs) auto

lemma upd_where_id: "(\<And>r. r \<in> set rs \<Longrightarrow> p r \<Longrightarrow> f r = r) \<Longrightarrow> upd_where p f rs = rs"
  by (induction rs) auto

lemma filter_upd_where:
  "(\<And>r. p r \<Longrightarrow> q (f r) = q r) \<Longrightarrow> filter q (upd_where p f rs) = upd_where p f (filter q rs)"
  by (induction rs) auto

lemma filter_upd_where_other:
  "(\<And>r. p r \<Longrightarrow> \<not> q r \<and> \<not> q (f r)) \<Longrightarrow> filter q (upd_where p f rs) = filter q rs"
  by (induction rs) auto

lemma first_row_Inr:
  "first_row p rs = Inr r \<Longrightarrow> r \<in> set rs \<and> p r"
  by (auto simp: first_row_def find_Some_iff split: option.splits)

lemma first_row_Inl: "first_row p rs = Inl e \<longleftrightarrow> e = NoRows \<and> (\<forall>r\<in>set rs. \<not> p r)"
  unfolding first_row_def by (induction rs) (auto split: if_splits)

lemma first_row_last: "\<forall>r\<in>set rs. \<not> P r \<Longrightarrow> P x \<Longrightarrow> first_row P (rs @ [x]) = Inr x"
  unfolding first_row_def by (induction rs) auto

lemma first_row_filter: "first_row (\<lambda>r. q r \<and> p r) rs = first_row p (filter q rs)"
  unfolding first_row_def by (induction rs) auto

lemma first_row_unique:
  assumes "distinct (map k rs)" and "r \<in> set rs" and "p r" and "\<And>r'. p r' \<Longrightarrow> k r' = k r"
  shows "first_row p rs = Inr r"
proof (cases "first_row p rs")
  case (Inl e)
  then show ?thesis using assms(2,3) by (auto simp: first_row_Inl)
next
  case (Inr r')
  then have r': "r' \<in> set rs" "p r'" by (auto dest: first_row_Inr)
  have "inj_on k (set rs)" using assms(1) by (simp add: distinct_map)
  then have "r' = r" using r'(1) assms(2) assms(4) [OF r'(2)] by (auto dest: inj_onD)
  with Inr show ?thesis by simp
qed

lemma set_order_desc [simp]: "set (order_desc k rs) = set rs"
  and length_order_desc [simp]: "length (order_desc k rs) = length rs"
  by (simp_all add: order_desc_def)

lemma sorted_order_desc: "sorted_wrt (\<lambda>a b. k b \<le> k a) (order_desc k rs)"
proof -
  have "sorted (map (\<lambda>r. - k r) (order_desc k rs))"
    by (simp add: order_desc_def)
  then have "sorted_wrt (\<lambda>a b. - k a \<le> - k b) (order_desc k rs)"
    by (simp add: sorted_wrt_map)
  then show ?thesis by simp
qed

lemma set_limit_offset: "set (limit_offset l off rs) \<subseteq> set rs"
  unfolding limit_offset_def by (meson order_trans set_drop_subset set_take_subset)

lemma length_limit_offset: "length (limit_offset l off rs) \<le> nat l"
  by (simp add: limit_offset_def)

lemma sorted_limit_offset: "sorted_wrt P rs \<Longrightarrow> sorted_wrt P (limit_offset l off rs)"
  by (simp add: limit_offset_def sorted_wrt_drop sorted_wrt_take)

text \<open>
  The contract of an \<open>UPDATE ... WHERE\<close> statement that leaves a table's key alone: the keys stay
  as they were, and only rows the condition selects change.
\<close>

locale keyed_update =
  fixes key :: "'r \<Rightarrow> 'k"
    and cond :: "'a \<Rightarrow> 'r \<Rightarrow> bool"
    and set_row :: "'a \<Rightarrow> 'r \<Rightarrow> 'r"
  assumes key_kept: "cond a r \<Longrightarrow> key (set_row a r) = key r"
begin

lemma keys: "map key (upd_where (cond a) (set_row a) rs) = map key rs"
  by (rule upd_where_map_key) (rule key_kept)

lemma distinct_keys:
  "distinct (map key (upd_where (cond a) (set_row a) rs)) = distinct (map key rs)"
  by (simp add: keys)

lemma key_set: "key ` set (upd_where (cond a) (set_row a) rs) = key ` set rs"
  by (metis keys set_map)

lemma old_row:
  assumes "r' \<in> set (upd_where (cond a) (set_row a) rs)"
  obtains r where "r \<in> set rs" and "key r' = key r"
    and "r' = r \<or> cond a r \<and> r' = set_row a r"
  using assms by (auto simp: set_upd_where key_kept split: if_splits)

lemma untouched:
  "r \<in> set rs \<Longrightarrow> \<not> cond a r \<Longrightarrow> r \<in> set (upd_where (cond a) (set_row a) rs)"
  by (force simp: set_upd_where)

lemma touched:
  "r \<in> set rs \<Longrightarrow> cond a r \<Longrightarrow> set_row a r \<in> set (upd_where (cond a) (set_row a) rs)"
  by (force simp: set_upd_where)

end

end
