(* ===== verification/Schema.thy ===== *)
theory Schema
  imports Go_Base
begin

text \<open>
  The shared state of the deployment: the Redis keys the services use and the seven PostgreSQL
  tables of \<open>db/migrations/001_init.sql\<close>, whose rows are the structs of the services' \<open>model\<close>
  packages. A struct that leaves a column out (the secret of a webhook, the hash of a key, the
  payload of a delivery) is a record that the table's row extends by that column.
\<close>

section \<open>Redis\<close>

text \<open>
  A list (its head is the left end), a sorted set and a counter per tenant. The entries of a
  sorted set are ordered by score and, for equal scores, by member; the order is an instance of
  the library's class, so \<open>sort\<close> is the order in which Redis returns them.
\<close>

datatype zentry = ZEntry (z_score: int) (z_member: string)

instantiation zentry :: linorder
begin

definition less_eq_zentry :: "zentry \<Rightarrow> zentry \<Rightarrow> bool" where
  "less_eq_zentry a b \<longleftrightarrow>
     z_score a < z_score b \<or> z_score a = z_score b \<and> z_member a \<le> z_member b"

definition less_zentry :: "zentry \<Rightarrow> zentry \<Rightarrow> bool" where
  "less_zentry a b \<longleftrightarrow>
     z_score a < z_score b \<or> z_score a = z_score b \<and> z_member a < z_member b"

instance
  by standard
    (auto simp: less_eq_zentry_def less_zentry_def intro: zentry.expand)

end

record redis =
  main_queue :: "string list"
  delayed :: "zentry list"
  concurrency :: "uuid \<Rightarrow> int option"

definition redis_lpush :: "string \<Rightarrow> redis \<Rightarrow> redis" where
  "redis_lpush m r = r\<lparr>main_queue := m # main_queue r\<rparr>"

definition redis_brpop :: "redis \<Rightarrow> string option \<times> redis" where
  "redis_brpop r =
     (if main_queue r = [] then (None, r)
      else (Some (last (main_queue r)), r\<lparr>main_queue := butlast (main_queue r)\<rparr>))"

definition redis_zrem :: "string \<Rightarrow> redis \<Rightarrow> redis" where
  "redis_zrem m r = r\<lparr>delayed := filter (\<lambda>e. z_member e \<noteq> m) (delayed r)\<rparr>"

definition redis_zadd :: "int \<Rightarrow> string \<Rightarrow> redis \<Rightarrow> redis" where
  "redis_zadd score m r =
     r\<lparr>delayed := ZEntry score m # filter (\<lambda>e. z_member e \<noteq> m) (delayed r)\<rparr>"

definition redis_zrangebyscore :: "int \<Rightarrow> int \<Rightarrow> redis \<Rightarrow> string list" where
  "redis_zrangebyscore lo hi r =
     map z_member (sort (filter (\<lambda>e. lo \<le> z_score e \<and> z_score e \<le> hi) (delayed r)))"

definition counter :: "uuid \<Rightarrow> redis \<Rightarrow> int" where
  "counter t r = (case concurrency r t of None \<Rightarrow> 0 | Some n \<Rightarrow> n)"

definition set_counter :: "uuid \<Rightarrow> int \<Rightarrow> redis \<Rightarrow> redis" where
  "set_counter t n r = r\<lparr>concurrency := (concurrency r)(t \<mapsto> n)\<rparr>"

lemma counter_set_counter [simp]: "counter t (set_counter t' n r) = (if t = t' then n else counter t r)"
  by (simp add: counter_def set_counter_def)

lemma set_counter_fields [simp]:
  "main_queue (set_counter t n r) = main_queue r"
  "delayed (set_counter t n r) = delayed r"
  by (simp_all add: set_counter_def)

section \<open>Rows\<close>

record tenant =
  tn_ID :: uuid
  tn_Name :: string
  tn_Tier :: string
  tn_RateLimitRPM :: int
  tn_MonthlyQuota :: int
  tn_MaxConcurrentOps :: int
  tn_CreatedAt :: gotime

record api_key =
  ak_ID :: uuid
  ak_TenantID :: uuid
  ak_KeyPrefix :: string
  ak_Status :: string
  ak_CreatedAt :: gotime
  ak_RevokedAt :: "gotime option"

record api_key_row = api_key +
  ak_KeyHash :: string

record operation =
  op_ID :: uuid
  op_TenantID :: uuid
  op_IdempotencyKey :: "string option"
  op_OpType :: string
  op_Status :: string
  op_Input :: json
  op_Output :: "json option"
  op_ErrorMessage :: "string option"
  op_AttemptCount :: int
  op_MaxRetries :: int
  op_CreatedAt :: gotime
  op_StartedAt :: "gotime option"
  op_CompletedAt :: "gotime option"

record attempt =
  at_ID :: uuid
  at_OperationID :: uuid
  at_AttemptNumber :: int
  at_WorkerID :: "string option"
  at_ProviderUsed :: "string option"
  at_StartedAt :: gotime
  at_FinishedAt :: "gotime option"
  at_Success :: "bool option"
  at_ErrorCategory :: "string option"
  at_ErrorDetail :: "string option"
  at_LatencyMs :: "int option"

record usage_event =
  us_ID :: uuid
  us_TenantID :: uuid
  us_OperationID :: uuid
  us_Units :: int
  us_RecordedAt :: gotime

record webhook_endpoint =
  we_ID :: uuid
  we_TenantID :: uuid
  we_URL :: string
  we_IsActive :: bool
  we_CreatedAt :: gotime

record endpoint_with_secret = webhook_endpoint +
  we_Secret :: string

record webhook_delivery =
  wd_ID :: uuid
  wd_WebhookID :: uuid
  wd_OperationID :: uuid
  wd_EventType :: string
  wd_Status :: string
  wd_AttemptCount :: int
  wd_LastAttemptAt :: "gotime option"
  wd_CreatedAt :: gotime

record delivery_row = webhook_delivery +
  wd_Payload :: json
  wd_NextAttemptAt :: "gotime option"

section \<open>The shared state\<close>

record platform =
  tenants :: "tenant list"
  api_keys :: "api_key_row list"
  operations :: "operation list"
  operation_attempts :: "attempt list"
  usage_events :: "usage_event list"
  webhook_endpoints :: "endpoint_with_secret list"
  webhook_deliveries :: "delivery_row list"
  redis_state :: redis
  clock :: gotime

text \<open>
  \<open>timestamptz\<close> counts microseconds: PostgreSQL's \<open>now()\<close> and the driver's encoding of a Go
  \<open>time.Time\<close> both drop the nanoseconds below. The services and the database read one clock.
\<close>

definition pg_time :: "gotime \<Rightarrow> gotime" where
  "pg_time t = t div 1000 * 1000"

definition pg_now :: "platform \<Rightarrow> gotime" where
  "pg_now p = pg_time (clock p)"

type_synonym 'a stmt = "uuid \<Rightarrow> platform \<Rightarrow> (goerr + 'a) \<times> platform"

definition reading :: "(platform \<Rightarrow> goerr + 'a) \<Rightarrow> 'a stmt" where
  "reading f = (\<lambda>u p. (f p, p))"

definition redis_cmd :: "(redis \<Rightarrow> 'a \<times> redis) \<Rightarrow> 'a stmt" where
  "redis_cmd f = (\<lambda>u p. case f (redis_state p) of (x, r) \<Rightarrow> (Inr x, p\<lparr>redis_state := r\<rparr>))"

text \<open>An id argument of a statement: the driver refuses a text that is no UUID.\<close>

definition with_uuid :: "idtext \<Rightarrow> (uuid \<Rightarrow> 'a stmt) \<Rightarrow> 'a stmt" where
  "with_uuid i f = (\<lambda>u p. case i of UuidText x \<Rightarrow> f x u p | _ \<Rightarrow> (Inl BadArg, p))"

lemma with_uuid_UuidText [simp]: "with_uuid (UuidText x) f = f x"
  by (simp add: with_uuid_def)

lemma with_uuid_cases:
  "with_uuid i f u p = (r, p') \<Longrightarrow>
     (\<exists>x. i = UuidText x \<and> f x u p = (r, p')) \<or> (\<forall>x. i \<noteq> UuidText x) \<and> r = Inl BadArg \<and> p' = p"
  by (cases i) (auto simp: with_uuid_def)

lemma reading_unchanged [simp]: "snd (reading f u p) = p"
  and fst_reading [simp]: "fst (reading f u p) = f p"
  by (simp_all add: reading_def)

definition no_tenant :: "uuid \<Rightarrow> platform \<Rightarrow> bool" where
  "no_tenant t p \<longleftrightarrow> t \<notin> tn_ID ` set (tenants p)"

definition no_operation :: "uuid \<Rightarrow> platform \<Rightarrow> bool" where
  "no_operation i p \<longleftrightarrow> i \<notin> op_ID ` set (operations p)"

section \<open>The constraints of the schema\<close>

text \<open>The rows of a partial unique index: the key of a row, or \<open>None\<close> when the row is left out.\<close>

definition partial_unique :: "('r \<Rightarrow> 'k option) \<Rightarrow> 'r list \<Rightarrow> bool" where
  "partial_unique k rs \<longleftrightarrow> distinct (map k (filter (\<lambda>r. k r \<noteq> None) rs))"

definition idem_index :: "operation \<Rightarrow> (uuid \<times> string) option" where
  "idem_index r = (case op_IdempotencyKey r of None \<Rightarrow> None | Some k \<Rightarrow> Some (op_TenantID r, k))"

definition primary_keys :: "platform \<Rightarrow> bool" where
  "primary_keys p \<longleftrightarrow>
     distinct (map tn_ID (tenants p)) \<and> distinct (map ak_ID (api_keys p)) \<and>
     distinct (map op_ID (operations p)) \<and> distinct (map at_ID (operation_attempts p)) \<and>
     distinct (map us_ID (usage_events p)) \<and> distinct (map we_ID (webhook_endpoints p)) \<and>
     distinct (map wd_ID (webhook_deliveries p))"

definition unique_indexes :: "platform \<Rightarrow> bool" where
  "unique_indexes p \<longleftrightarrow>
     distinct (map ak_KeyHash (api_keys p)) \<and>
     partial_unique idem_index (operations p) \<and>
     distinct (map us_OperationID (usage_events p))"

definition foreign_keys :: "platform \<Rightarrow> bool" where
  "foreign_keys p \<longleftrightarrow>
     ak_TenantID ` set (api_keys p) \<subseteq> tn_ID ` set (tenants p) \<and>
     op_TenantID ` set (operations p) \<subseteq> tn_ID ` set (tenants p) \<and>
     at_OperationID ` set (operation_attempts p) \<subseteq> op_ID ` set (operations p) \<and>
     us_TenantID ` set (usage_events p) \<subseteq> tn_ID ` set (tenants p) \<and>
     us_OperationID ` set (usage_events p) \<subseteq> op_ID ` set (operations p) \<and>
     we_TenantID ` set (webhook_endpoints p) \<subseteq> tn_ID ` set (tenants p) \<and>
     wd_WebhookID ` set (webhook_deliveries p) \<subseteq> we_ID ` set (webhook_endpoints p) \<and>
     wd_OperationID ` set (webhook_deliveries p) \<subseteq> op_ID ` set (operations p)"

definition schema_ok :: "platform \<Rightarrow> bool" where
  "schema_ok p \<longleftrightarrow> primary_keys p \<and> unique_indexes p \<and> foreign_keys p"

lemma partial_unique_Nil [simp]: "partial_unique k []"
  by (simp add: partial_unique_def)

lemma partial_unique_snoc:
  "partial_unique k (rs @ [r]) \<longleftrightarrow>
     partial_unique k rs \<and> (k r = None \<or> (\<forall>r'\<in>set rs. k r' \<noteq> k r))"
proof -
  have "Some y \<in> k ` {x \<in> set rs. \<exists>y. k x = Some y} \<longleftrightarrow> (\<exists>r'\<in>set rs. k r' = Some y)" for y
    by (force simp: image_iff)
  then show ?thesis by (auto simp: partial_unique_def)
qed

lemma partial_unique_upd:
  assumes "\<And>r. c r \<Longrightarrow> k (f r) = k r"
  shows "partial_unique k (upd_where c f rs) = partial_unique k rs"
proof -
  have "map k (filter (\<lambda>r. k r \<noteq> None) (upd_where c f rs)) = map k (filter (\<lambda>r. k r \<noteq> None) rs)"
    using assms by (induction rs) auto
  then show ?thesis by (simp add: partial_unique_def)
qed

lemma partial_unique_same:
  assumes "partial_unique k rs" and "r \<in> set rs" and "r' \<in> set rs"
    and "k r = Some x" and "k r' = Some x"
  shows "r = r'"
  using assms by (auto simp: partial_unique_def distinct_map inj_on_def)

text \<open>An empty deployment.\<close>

definition empty_redis :: redis where
  "empty_redis = \<lparr>main_queue = [], delayed = [], concurrency = Map.empty\<rparr>"

definition empty_platform :: platform where
  "empty_platform =
     \<lparr>tenants = [], api_keys = [], operations = [], operation_attempts = [], usage_events = [],
      webhook_endpoints = [], webhook_deliveries = [], redis_state = empty_redis, clock = 0\<rparr>"

lemma schema_ok_empty: "schema_ok empty_platform"
  by (simp add: schema_ok_def primary_keys_def unique_indexes_def foreign_keys_def
      empty_platform_def)

end
