(* ===== verification/Operations_Repo.thy ===== *)
theory Operations_Repo
  imports Schema
begin

text \<open>
  The operations service's model and repository (\<open>services/operations/internal/model\<close> and
  \<open>internal/repository\<close>): the statuses of an operation, one definition per SQL statement as an
  atomic change of the tables, and one definition per repository method as the calls it makes.
  The guards of the UPDATE statements meet the contract \<open>guarded_update\<close>, from which the
  immutability of terminal operations follows for each of them.
\<close>

section \<open>Statuses\<close>

definition StatusPending :: string where "StatusPending = ''PENDING''"
definition StatusQueued :: string where "StatusQueued = ''QUEUED''"
definition StatusRunning :: string where "StatusRunning = ''RUNNING''"
definition StatusRetrying :: string where "StatusRetrying = ''RETRYING''"
definition StatusSucceeded :: string where "StatusSucceeded = ''SUCCEEDED''"
definition StatusFailed :: string where "StatusFailed = ''FAILED''"
definition StatusDeadLettered :: string where "StatusDeadLettered = ''DEAD_LETTERED''"
definition StatusCancelled :: string where "StatusCancelled = ''CANCELLED''"

lemmas status_defs =
  StatusPending_def StatusQueued_def StatusRunning_def StatusRetrying_def
  StatusSucceeded_def StatusFailed_def StatusDeadLettered_def StatusCancelled_def

lemma statuses_distinct:
  "distinct [StatusPending, StatusQueued, StatusRunning, StatusRetrying,
             StatusSucceeded, StatusFailed, StatusDeadLettered, StatusCancelled]"
  "distinct [StatusCancelled, StatusDeadLettered, StatusFailed, StatusSucceeded,
             StatusRetrying, StatusRunning, StatusQueued, StatusPending]"
  by (simp_all add: status_defs)

lemmas status_neq [simp] = statuses_distinct [simplified]

definition terminalStatuses :: "string \<Rightarrow> bool option" where
  "terminalStatuses =
     [StatusSucceeded \<mapsto> True, StatusFailed \<mapsto> True,
      StatusDeadLettered \<mapsto> True, StatusCancelled \<mapsto> True]"

definition IsTerminal :: "string \<Rightarrow> bool" where
  "IsTerminal status = (case terminalStatuses status of None \<Rightarrow> False | Some b \<Rightarrow> b)"

lemma IsTerminal_iff:
  "IsTerminal s \<longleftrightarrow> s = StatusSucceeded \<or> s = StatusFailed \<or> s = StatusDeadLettered \<or> s = StatusCancelled"
  by (simp add: IsTerminal_def terminalStatuses_def)

lemma IsTerminal_simps [simp]:
  "IsTerminal StatusSucceeded" "IsTerminal StatusFailed"
  "IsTerminal StatusDeadLettered" "IsTerminal StatusCancelled"
  "\<not> IsTerminal StatusPending" "\<not> IsTerminal StatusQueued"
  "\<not> IsTerminal StatusRunning" "\<not> IsTerminal StatusRetrying"
  by (simp_all add: IsTerminal_iff)

section \<open>Statements\<close>

subsection \<open>INSERT INTO operations\<close>

text \<open>
  \<open>jb\<close> stands for PostgreSQL's \<open>jsonb\<close>: the text a column gives back for the text stored in it,
  or \<open>None\<close> when it refuses the text. A missing \<open>input\<close> is a nil slice, which the driver sends
  as NULL.
\<close>

definition idem_taken :: "uuid \<Rightarrow> string option \<Rightarrow> platform \<Rightarrow> bool" where
  "idem_taken t idem p \<longleftrightarrow>
     idem \<noteq> None \<and>
     (\<exists>r\<in>set (operations p). op_TenantID r = t \<and> op_IdempotencyKey r = idem)"

definition insert_operation ::
    "(json \<Rightarrow> json option) \<Rightarrow> idtext \<Rightarrow> string option \<Rightarrow> string \<Rightarrow> json option \<Rightarrow> int \<Rightarrow>
     operation stmt" where
  [stmt_defs]: "insert_operation jb tenantID idem opType input maxRetries =
     with_uuid tenantID (\<lambda>t u p.
       if \<not> int4_ok maxRetries then (Inl BadArg, p) else
       (case input of
          None \<Rightarrow> (Inl (PgError not_null_violation), p)
        | Some j \<Rightarrow>
            (case jb j of
               None \<Rightarrow> (Inl (PgError invalid_text), p)
             | Some j' \<Rightarrow>
                 if u \<in> op_ID ` set (operations p) \<or> idem_taken t idem p
                 then (Inl (PgError unique_violation), p)
                 else if no_tenant t p then (Inl (PgError foreign_key_violation), p)
                 else
                   (let row = \<lparr>op_ID = u, op_TenantID = t, op_IdempotencyKey = idem,
                               op_OpType = opType, op_Status = StatusPending, op_Input = j',
                               op_Output = None, op_ErrorMessage = None, op_AttemptCount = 0,
                               op_MaxRetries = maxRetries, op_CreatedAt = pg_now p,
                               op_StartedAt = None, op_CompletedAt = None\<rparr>
                    in (Inr row, p\<lparr>operations := operations p @ [row]\<rparr>)))))"

subsection \<open>SELECT\<close>

definition select_by_idem :: "idtext \<Rightarrow> string \<Rightarrow> operation stmt" where
  "select_by_idem tenantID k =
     with_uuid tenantID (\<lambda>t. reading (\<lambda>p.
       first_row (\<lambda>r. op_TenantID r = t \<and> op_IdempotencyKey r = Some k) (operations p)))"

definition select_operation :: "idtext \<Rightarrow> idtext \<Rightarrow> operation stmt" where
  "select_operation tenantID oid =
     with_uuid oid (\<lambda>i. with_uuid tenantID (\<lambda>t. reading (\<lambda>p.
       first_row (\<lambda>r. op_ID r = i \<and> op_TenantID r = t) (operations p))))"

definition select_operation_any :: "idtext \<Rightarrow> operation stmt" where
  "select_operation_any oid =
     with_uuid oid (\<lambda>i. reading (\<lambda>p. first_row (\<lambda>r. op_ID r = i) (operations p)))"

text \<open>\<open>ORDER BY created_at DESC LIMIT l OFFSET o\<close>; a negative bound is an error.\<close>

definition page :: "int \<Rightarrow> int \<Rightarrow> operation list \<Rightarrow> goerr + operation list" where
  "page lim off rs =
     (if off < 0 then Inl (PgError bad_offset)
      else if lim < 0 then Inl (PgError bad_limit)
      else Inr (limit_offset lim off (order_desc op_CreatedAt rs)))"

subsection \<open>UPDATE operations\<close>

text \<open>The condition and the assignment of each UPDATE, with the values bound to its arguments.\<close>

definition queued_cond :: "uuid \<Rightarrow> operation \<Rightarrow> bool" where
  "queued_cond i r \<longleftrightarrow> op_ID r = i \<and> op_Status r = StatusPending"

definition queued_row :: "uuid \<Rightarrow> operation \<Rightarrow> operation" where
  "queued_row i r = r\<lparr>op_Status := StatusQueued\<rparr>"

definition start_cond :: "uuid \<times> int \<times> gotime \<Rightarrow> operation \<Rightarrow> bool" where
  "start_cond = (\<lambda>(i, n, now) r. op_ID r = i)"

definition start_row :: "uuid \<times> int \<times> gotime \<Rightarrow> operation \<Rightarrow> operation" where
  "start_row = (\<lambda>(i, n, now) r.
     r\<lparr>op_Status := StatusRunning, op_AttemptCount := n,
       op_StartedAt := Some (case op_StartedAt r of None \<Rightarrow> now | Some t \<Rightarrow> t)\<rparr>)"

definition succeed_cond :: "uuid \<times> json option \<times> gotime \<Rightarrow> operation \<Rightarrow> bool" where
  "succeed_cond = (\<lambda>(i, out, now) r. op_ID r = i \<and> op_Status r = StatusRunning)"

definition succeed_row :: "uuid \<times> json option \<times> gotime \<Rightarrow> operation \<Rightarrow> operation" where
  "succeed_row = (\<lambda>(i, out, now) r.
     r\<lparr>op_Status := StatusSucceeded, op_Output := out, op_CompletedAt := Some now,
       op_ErrorMessage := None\<rparr>)"

definition fail_cond :: "uuid \<times> string \<times> string \<times> gotime \<Rightarrow> operation \<Rightarrow> bool" where
  "fail_cond = (\<lambda>(i, next, det, now) r. op_ID r = i \<and> op_Status r = StatusRunning)"

definition fail_row :: "uuid \<times> string \<times> string \<times> gotime \<Rightarrow> operation \<Rightarrow> operation" where
  "fail_row = (\<lambda>(i, next, det, now) r.
     r\<lparr>op_Status := next, op_ErrorMessage := Some det,
       op_CompletedAt :=
         (if next \<in> {''FAILED'', ''DEAD_LETTERED''} then Some now else op_CompletedAt r)\<rparr>)"

definition cancel_cond :: "uuid \<times> uuid \<times> gotime \<Rightarrow> operation \<Rightarrow> bool" where
  "cancel_cond = (\<lambda>(i, t, now) r.
     op_ID r = i \<and> op_TenantID r = t \<and>
     op_Status r \<notin> {StatusSucceeded, StatusFailed, StatusDeadLettered, StatusCancelled})"

definition cancel_row :: "uuid \<times> uuid \<times> gotime \<Rightarrow> operation \<Rightarrow> operation" where
  "cancel_row = (\<lambda>(i, t, now) r. r\<lparr>op_Status := StatusCancelled, op_CompletedAt := Some now\<rparr>)"

lemmas op_update_defs =
  queued_cond_def queued_row_def start_cond_def start_row_def succeed_cond_def succeed_row_def
  fail_cond_def fail_row_def cancel_cond_def cancel_row_def

definition queued_stmt :: "idtext \<Rightarrow> unit stmt" where
  [stmt_defs]: "queued_stmt oid = with_uuid oid (\<lambda>i u p.
     (Inr (), p\<lparr>operations := upd_where (queued_cond i) (queued_row i) (operations p)\<rparr>))"

definition cancel_stmt :: "idtext \<Rightarrow> idtext \<Rightarrow> nat stmt" where
  [stmt_defs]: "cancel_stmt tenantID oid = with_uuid oid (\<lambda>i. with_uuid tenantID (\<lambda>t u p.
     let a = (i, t, pg_now p) in
     (Inr (length (filter (cancel_cond a) (operations p))),
      p\<lparr>operations := upd_where (cancel_cond a) (cancel_row a) (operations p)\<rparr>)))"

subsection \<open>The transactions of an attempt\<close>

definition finish_cond :: "uuid \<Rightarrow> attempt \<Rightarrow> bool" where
  "finish_cond a r \<longleftrightarrow> at_ID r = a"

definition attempt_succeeded :: "string \<Rightarrow> int \<Rightarrow> gotime \<Rightarrow> uuid \<Rightarrow> attempt \<Rightarrow> attempt" where
  "attempt_succeeded provider latency now a r =
     r\<lparr>at_FinishedAt := Some now, at_Success := Some True, at_ProviderUsed := Some provider,
       at_LatencyMs := Some latency\<rparr>"

definition attempt_failed :: "string \<Rightarrow> string \<Rightarrow> gotime \<Rightarrow> uuid \<Rightarrow> attempt \<Rightarrow> attempt" where
  "attempt_failed category det now a r =
     r\<lparr>at_FinishedAt := Some now, at_Success := Some False, at_ErrorCategory := Some category,
       at_ErrorDetail := Some det\<rparr>"

text \<open>
  Each transaction is one atomic statement: an error in it, or in its commit, rolls all of it
  back. The UPDATE of \<open>StartAttempt\<close> selects the operation by its id alone.
\<close>

definition start_attempt_tx :: "idtext \<Rightarrow> string \<Rightarrow> int \<Rightarrow> uuid stmt" where
  [stmt_defs]: "start_attempt_tx operationID workerID attemptNumber =
     with_uuid operationID (\<lambda>i u p.
       if \<not> int4_ok attemptNumber then (Inl BadArg, p)
       else if u \<in> at_ID ` set (operation_attempts p) then (Inl (PgError unique_violation), p)
       else if no_operation i p then (Inl (PgError foreign_key_violation), p)
       else
         (let a = (i, attemptNumber, pg_now p);
              row = \<lparr>at_ID = u, at_OperationID = i, at_AttemptNumber = attemptNumber,
                     at_WorkerID = Some workerID, at_ProviderUsed = None, at_StartedAt = pg_now p,
                     at_FinishedAt = None, at_Success = None, at_ErrorCategory = None,
                     at_ErrorDetail = None, at_LatencyMs = None\<rparr>
          in (Inr u,
              p\<lparr>operations := upd_where (start_cond a) (start_row a) (operations p),
                operation_attempts := operation_attempts p @ [row]\<rparr>)))"

definition success_tx ::
    "(json \<Rightarrow> json option) \<Rightarrow> idtext \<Rightarrow> idtext \<Rightarrow> json option \<Rightarrow> string \<Rightarrow> int \<Rightarrow> unit stmt" where
  [stmt_defs]: "success_tx jb operationID attemptID output provider latencyMs =
     with_uuid attemptID (\<lambda>a. with_uuid operationID (\<lambda>i u p.
       if \<not> int4_ok latencyMs then (Inl BadArg, p)
       else if output \<noteq> None \<and> jb (the output) = None then (Inl (PgError invalid_text), p)
       else
         (let c = (i, Option.bind output jb, pg_now p) in
          (Inr (),
           p\<lparr>operation_attempts :=
               upd_where (finish_cond a) (attempt_succeeded provider latencyMs (pg_now p) a)
                 (operation_attempts p),
             operations := upd_where (succeed_cond c) (succeed_row c) (operations p)\<rparr>))))"

definition next_status :: "string \<Rightarrow> bool \<Rightarrow> string" where
  "next_status errCategory willRetry =
     (if willRetry then StatusRetrying
      else if errCategory = ''permanent'' then StatusFailed
      else StatusDeadLettered)"

definition failure_tx ::
    "idtext \<Rightarrow> idtext \<Rightarrow> string \<Rightarrow> string \<Rightarrow> bool \<Rightarrow> string stmt" where
  [stmt_defs]: "failure_tx operationID attemptID errCategory errDetail willRetry =
     with_uuid attemptID (\<lambda>a. with_uuid operationID (\<lambda>i u p.
       let next = next_status errCategory willRetry;
           c = (i, next, errDetail, pg_now p)
       in (Inr next,
           p\<lparr>operation_attempts :=
               upd_where (finish_cond a) (attempt_failed errCategory errDetail (pg_now p) a)
                 (operation_attempts p),
             operations := upd_where (fail_cond c) (fail_row c) (operations p)\<rparr>)))"

section \<open>Contracts of the updates\<close>

text \<open>
  Every UPDATE keeps the primary key and what identifies an operation. Those whose condition
  tests the status never select a terminal row.
\<close>

definition op_identity ::
    "operation \<Rightarrow> uuid \<times> uuid \<times> string option \<times> string \<times> json \<times> int \<times> gotime" where
  "op_identity r =
     (op_ID r, op_TenantID r, op_IdempotencyKey r, op_OpType r, op_Input r, op_MaxRetries r,
      op_CreatedAt r)"

locale guarded_update = keyed_update op_identity cond set_row
  for cond :: "'a \<Rightarrow> operation \<Rightarrow> bool" and set_row :: "'a \<Rightarrow> operation \<Rightarrow> operation" +
  assumes guard: "cond a r \<Longrightarrow> \<not> IsTerminal (op_Status r)"
begin

lemma terminal_kept:
  "r \<in> set rs \<Longrightarrow> IsTerminal (op_Status r) \<Longrightarrow> r \<in> set (upd_where (cond a) (set_row a) rs)"
  using guard untouched by blast

lemma terminal_position:
  assumes "n < length rs" and "IsTerminal (op_Status (rs ! n))"
  shows "upd_where (cond a) (set_row a) rs ! n = rs ! n"
  using assms guard by (auto simp: upd_where_def)

end

interpretation queued: guarded_update queued_cond queued_row
  by unfold_locales (auto simp: op_update_defs op_identity_def)

interpretation succeed: guarded_update succeed_cond succeed_row
  by unfold_locales (auto simp: op_update_defs op_identity_def)

interpretation failing: guarded_update fail_cond fail_row
  by unfold_locales (auto simp: op_update_defs op_identity_def)

interpretation cancel: guarded_update cancel_cond cancel_row
  by unfold_locales (auto simp: op_update_defs op_identity_def IsTerminal_iff)

interpretation start: keyed_update op_identity start_cond start_row
  by unfold_locales (auto simp: op_update_defs op_identity_def)

definition attempt_identity :: "attempt \<Rightarrow> uuid \<times> uuid \<times> int \<times> string option \<times> gotime" where
  "attempt_identity r =
     (at_ID r, at_OperationID r, at_AttemptNumber r, at_WorkerID r, at_StartedAt r)"

interpretation attempt_ok:
  keyed_update attempt_identity finish_cond "attempt_succeeded provider latency now"
  by unfold_locales (auto simp: attempt_succeeded_def attempt_identity_def)

interpretation attempt_bad:
  keyed_update attempt_identity finish_cond "attempt_failed category det now"
  by unfold_locales (auto simp: attempt_failed_def attempt_identity_def)

section \<open>Repository methods\<close>

definition getByIdempotencyKey ::
    "idtext \<Rightarrow> string \<Rightarrow> platform world \<Rightarrow> (goerr + operation) \<times> platform world" where
  "getByIdempotencyKey tenantID key w = call (select_by_idem tenantID key) w"

definition CreateOperation ::
    "(json \<Rightarrow> json option) \<Rightarrow> idtext \<Rightarrow> string \<Rightarrow> json option \<Rightarrow> string option \<Rightarrow> int \<Rightarrow>
     platform world \<Rightarrow> (goerr + operation \<times> bool) \<times> platform world" where
  "CreateOperation jb tenantID opType input idempotencyKey maxRetries w =
     (let insert = (\<lambda>w.
        (case call (insert_operation jb tenantID idempotencyKey opType input maxRetries) w of
           (Inr op, w1) \<Rightarrow> (Inr (op, False), w1)
         | (Inl err, w1) \<Rightarrow>
             (case idempotencyKey of
                Some key \<Rightarrow>
                  if pg_code err = Some unique_violation
                  then (case getByIdempotencyKey tenantID key w1 of
                          (Inr existing, w2) \<Rightarrow> (Inr (existing, True), w2)
                        | (Inl existErr, w2) \<Rightarrow> (Inl (Wrap ''insert operation: '' err), w2))
                  else (Inl (Wrap ''insert operation: '' err), w1)
              | None \<Rightarrow> (Inl (Wrap ''insert operation: '' err), w1))))
      in
      (case idempotencyKey of
         None \<Rightarrow> insert w
       | Some key \<Rightarrow>
           (case getByIdempotencyKey tenantID key w of
              (Inr existing, w1) \<Rightarrow> (Inr (existing, True), w1)
            | (Inl err, w1) \<Rightarrow> if is_NoRows err then insert w1 else (Inl err, w1))))"

definition not_found :: "goerr + 'a \<Rightarrow> goerr + 'a" where
  "not_found r = (case r of Inl e \<Rightarrow> Inl (if is_NoRows e then ErrNotFound else e) | Inr x \<Rightarrow> Inr x)"

definition GetOperation ::
    "idtext \<Rightarrow> idtext \<Rightarrow> platform world \<Rightarrow> (goerr + operation) \<times> platform world" where
  "GetOperation tenantID oid w = (case call (select_operation tenantID oid) w of (r, w1) \<Rightarrow> (not_found r, w1))"

definition GetOperationAnyTenant ::
    "idtext \<Rightarrow> platform world \<Rightarrow> (goerr + operation) \<times> platform world" where
  "GetOperationAnyTenant oid w = (case call (select_operation_any oid) w of (r, w1) \<Rightarrow> (not_found r, w1))"

record ListFilter =
  lf_TenantID :: idtext
  lf_Status :: string
  lf_Limit :: int
  lf_Offset :: int

definition ListOperations ::
    "ListFilter \<Rightarrow> platform world \<Rightarrow> (goerr + operation list) \<times> platform world" where
  "ListOperations f w =
     call (with_uuid (lf_TenantID f) (\<lambda>t. reading (\<lambda>p.
       page (lf_Limit f) (lf_Offset f)
         (filter (\<lambda>r. op_TenantID r = t \<and> (lf_Status f = [] \<or> op_Status r = lf_Status f))
           (operations p))))) w"

record AdminListFilter =
  af_Status :: string
  af_Limit :: int
  af_Offset :: int

definition ListOperationsAnyTenant ::
    "AdminListFilter \<Rightarrow> platform world \<Rightarrow> (goerr + operation list) \<times> platform world" where
  "ListOperationsAnyTenant f w =
     call (reading (\<lambda>p.
       page (af_Limit f) (af_Offset f)
         (filter (\<lambda>r. af_Status f = [] \<or> op_Status r = af_Status f) (operations p)))) w"

definition count_status :: "operation list \<Rightarrow> string \<Rightarrow> nat option" where
  "count_status rs s =
     (let n = length (filter (\<lambda>r. op_Status r = s) rs) in if n = 0 then None else Some n)"

definition PlatformSummary ::
    "platform world \<Rightarrow> (goerr + (string \<Rightarrow> nat option)) \<times> platform world" where
  "PlatformSummary w = call (reading (\<lambda>p. Inr (count_status (operations p)))) w"

definition TransitionToQueued ::
    "idtext \<Rightarrow> platform world \<Rightarrow> (goerr + unit) \<times> platform world" where
  "TransitionToQueued oid w = call (queued_stmt oid) w"

definition StartAttempt ::
    "idtext \<Rightarrow> string \<Rightarrow> int \<Rightarrow> platform world \<Rightarrow> (goerr + uuid) \<times> platform world" where
  "StartAttempt operationID workerID attemptNumber w =
     call (start_attempt_tx operationID workerID attemptNumber) w"

definition CompleteAttemptSuccess ::
    "(json \<Rightarrow> json option) \<Rightarrow> idtext \<Rightarrow> idtext \<Rightarrow> json option \<Rightarrow> string \<Rightarrow> int \<Rightarrow>
     platform world \<Rightarrow> (goerr + unit) \<times> platform world" where
  "CompleteAttemptSuccess jb operationID attemptID output provider latencyMs w =
     call (success_tx jb operationID attemptID output provider latencyMs) w"

definition CompleteAttemptFailure ::
    "idtext \<Rightarrow> idtext \<Rightarrow> string \<Rightarrow> string \<Rightarrow> bool \<Rightarrow> platform world \<Rightarrow>
     (goerr + string) \<times> platform world" where
  "CompleteAttemptFailure operationID attemptID errCategory errDetail willRetry w =
     call (failure_tx operationID attemptID errCategory errDetail willRetry) w"

definition cannot_cancel :: goerr where
  "cannot_cancel = Msg ''operation cannot be cancelled (not found or already terminal)''"

definition CancelOperation ::
    "idtext \<Rightarrow> idtext \<Rightarrow> platform world \<Rightarrow> (goerr + unit) \<times> platform world" where
  "CancelOperation tenantID oid w =
     (case call (cancel_stmt tenantID oid) w of
        (Inl err, w1) \<Rightarrow> (Inl err, w1)
      | (Inr n, w1) \<Rightarrow> if n = 0 then (Inl cannot_cancel, w1) else (Inr (), w1))"

definition ListAttempts ::
    "idtext \<Rightarrow> platform world \<Rightarrow> (goerr + attempt list) \<times> platform world" where
  "ListAttempts operationID w =
     call (with_uuid operationID (\<lambda>i. reading (\<lambda>p.
       Inr (sort_key at_AttemptNumber
              (filter (\<lambda>r. at_OperationID r = i) (operation_attempts p)))))) w"

lemmas repo_defs =
  getByIdempotencyKey_def CreateOperation_def GetOperation_def GetOperationAnyTenant_def
  ListOperations_def ListOperationsAnyTenant_def PlatformSummary_def TransitionToQueued_def
  StartAttempt_def CompleteAttemptSuccess_def CompleteAttemptFailure_def CancelOperation_def
  ListAttempts_def

end
