(* ===== verification/Float64.thy ===== *)
theory Float64
  imports Complex_Main
begin

text \<open>
  Go's \<open>float64\<close> as far as the services compute with it: positive and negative normal numbers,
  kept as exact rationals, where every operation rounds its exact result to the nearest number
  with a 53-bit significand (ties to even). Overflow to infinity and subnormal numbers do not
  occur in the services' computations and are not modelled.
\<close>

function bits :: "int \<Rightarrow> nat" where
  "bits n = (if n \<le> 0 then 0 else Suc (bits (n div 2)))"
  by pat_completeness auto
termination
  by (relation "measure nat") auto

declare bits.simps [simp del]

lemma bits_bounds: "0 < n \<Longrightarrow> 2 ^ (bits n - 1) \<le> n \<and> n < 2 ^ bits n \<and> 0 < bits n"
proof (induction n rule: bits.induct)
  case (1 n)
  show ?case
  proof (cases "n div 2 \<le> 0")
    case True
    with "1.prems" have "n = 1" by linarith
    then show ?thesis by (simp add: bits.simps)
  next
    case False
    with "1.IH" "1.prems" have ih: "2 ^ (bits (n div 2) - 1) \<le> n div 2"
      "n div 2 < 2 ^ bits (n div 2)" "0 < bits (n div 2)" by auto
    then obtain m where m: "bits (n div 2) = Suc m" using gr0_implies_Suc by blast
    have "bits n = Suc (Suc m)" using "1.prems" m by (simp add: bits.simps [of n])
    moreover have "2 * 2 ^ m \<le> n" and "n < 4 * 2 ^ m"
      using ih(1,2) m by auto
    ultimately show ?thesis by simp
  qed
qed

definition f64_exponent :: "rat \<Rightarrow> int" where
  "f64_exponent a =
     (let (p, q) = quotient_of a; k = int (bits p) - int (bits q)
      in if 2 powi k \<le> a then k else k - 1)"

definition round_even :: "rat \<Rightarrow> int" where
  "round_even m =
     (let f = \<lfloor>m\<rfloor>; r = m - of_int f
      in if r < 1 / 2 then f else if 1 / 2 < r then f + 1 else if even f then f else f + 1)"

definition f64 :: "rat \<Rightarrow> rat" where
  "f64 x =
     (if x = 0 then 0
      else (let ulp = 2 powi (f64_exponent \<bar>x\<bar> - 52) in sgn x * of_int (round_even (\<bar>x\<bar> / ulp)) * ulp))"

text \<open>Conversion to an integer type truncates towards zero.\<close>

definition f64_trunc :: "rat \<Rightarrow> int" where
  "f64_trunc x = (if 0 \<le> x then \<lfloor>x\<rfloor> else - \<lfloor>- x\<rfloor>)"

section \<open>Rounding errors\<close>

lemma f64_exponent_le:
  assumes "0 < a"
  shows "2 powi f64_exponent a \<le> a"
proof -
  obtain p q where pq: "quotient_of a = (p, q)" by fastforce
  have q: "0 < q" using pq by (rule quotient_of_denom_pos)
  have a: "a = of_int p / of_int q" using pq by (rule quotient_of_div)
  with assms q have p: "0 < p" by (simp add: zero_less_divide_iff)
  let ?bp = "bits p" and ?bq = "bits q"
  have bp: "2 ^ (?bp - 1) \<le> p" "0 < ?bp" and bq: "q < 2 ^ ?bq"
    using bits_bounds [OF p] bits_bounds [OF q] by auto
  have "(of_int (2 ^ (?bp - 1)) :: rat) \<le> of_int p"
    using bp(1) by (rule of_int_le_iff [THEN iffD2])
  then have "(2::rat) ^ (?bp - 1) \<le> of_int p" by simp
  moreover have "(of_int q :: rat) \<le> of_int (2 ^ ?bq)"
    using bq by (intro of_int_le_iff [THEN iffD2]) simp
  then have "(of_int q :: rat) \<le> 2 ^ ?bq" by simp
  ultimately have "(2::rat) ^ (?bp - 1) / 2 ^ ?bq \<le> a"
    unfolding a using q p by (intro frac_le) auto
  moreover have "(2::rat) powi (int ?bp - int ?bq - 1) = 2 ^ (?bp - 1) / 2 ^ ?bq"
  proof -
    obtain b where b: "?bp = Suc b" using bp(2) gr0_implies_Suc by blast
    have "(2::rat) powi (int b - int ?bq) = 2 ^ b / 2 ^ ?bq"
      by (simp add: power_int_diff)
    with b show ?thesis by simp
  qed
  ultimately show ?thesis
    by (simp add: f64_exponent_def pq Let_def)
qed

lemma round_even_le: "of_int (round_even m) \<le> m + 1 / 2"
  unfolding round_even_def Let_def by (auto; linarith)

lemma round_even_nonneg: "0 \<le> m \<Longrightarrow> 0 \<le> round_even m"
  unfolding round_even_def Let_def by (auto; linarith)

definition unit_roundoff :: rat where "unit_roundoff = 1 / 2 ^ 53"

lemma f64_nonneg: "0 \<le> x \<Longrightarrow> 0 \<le> f64 x"
  unfolding f64_def Let_def
  by (auto intro!: mult_nonneg_nonneg round_even_nonneg divide_nonneg_nonneg simp: sgn_if)

text \<open>Rounding up enlarges a positive number by at most one part in \<open>2 ^ 53\<close>.\<close>

lemma f64_le:
  assumes "0 \<le> x"
  shows "f64 x \<le> x * (1 + unit_roundoff)"
proof (cases "x = 0")
  case True
  then show ?thesis by (simp add: f64_def)
next
  case False
  with assms have x: "0 < x" by simp
  let ?e = "f64_exponent x"
  let ?ulp = "(2::rat) powi (?e - 52)"
  have ulp: "0 < ?ulp" by simp
  have half: "?ulp / 2 \<le> x * unit_roundoff"
  proof -
    have "?ulp = 2 powi ?e / 2 ^ 52"
      using power_int_diff [of "2::rat" ?e 52] by simp
    moreover have "(2::rat) powi ?e / 2 ^ 52 \<le> x / 2 ^ 52"
      using f64_exponent_le [OF x] by (simp add: divide_right_mono)
    ultimately show ?thesis by (simp add: unit_roundoff_def)
  qed
  have "f64 x = of_int (round_even (x / ?ulp)) * ?ulp"
    using x by (simp add: f64_def Let_def)
  also have "\<dots> \<le> (x / ?ulp + 1 / 2) * ?ulp"
    using round_even_le ulp by (intro mult_right_mono) auto
  also have "\<dots> = x + ?ulp / 2"
    using ulp by (simp add: distrib_right)
  also have "\<dots> \<le> x + x * unit_roundoff" using half by simp
  finally show ?thesis by (simp add: distrib_left)
qed

end
