(* ===== verification/Queue_Service.thy ===== *)
theory Queue_Service
  imports Schema Float64
begin

text \<open>
  The queue of the operations service (\<open>services/operations/internal/queue\<close>): the list workers
  take jobs from, the sorted set of delayed retries, the backoff of a retry and the per-tenant
  counter of running operations. The list meets the contract \<open>fifo\<close>; no job is lost or
  duplicated between the sorted set and the list.
\<close>

section \<open>Jobs\<close>

record job =
  j_OperationID :: uuid
  j_TenantID :: idtext
  j_OpType :: string
  j_Attempt :: int
  j_EnqueuedAt :: gotime

section \<open>The main queue\<close>

text \<open>\<open>enc\<close> stands for \<open>json.Marshal\<close> on a job.\<close>

definition lpush_stmt :: "string \<Rightarrow> unit stmt" where
  [stmt_defs]: "lpush_stmt m = redis_cmd (\<lambda>r. ((), redis_lpush m r))"

definition Enqueue ::
    "(job \<Rightarrow> string) \<Rightarrow> job \<Rightarrow> platform world \<Rightarrow> (goerr + unit) \<times> platform world" where
  "Enqueue enc j w = call (lpush_stmt (enc j)) w"

text \<open>A worker's \<open>BRPOP\<close>: it takes the oldest job.\<close>

definition brpop_stmt :: "string option stmt" where
  [stmt_defs]: "brpop_stmt = redis_cmd redis_brpop"

text \<open>The contract of a first-in first-out queue, and its consequence for a series of pushes.\<close>

locale fifo =
  fixes push :: "'a \<Rightarrow> 'q \<Rightarrow> 'q"
    and pop :: "'q \<Rightarrow> 'a option \<times> 'q"
    and content :: "'q \<Rightarrow> 'a list"    \<comment> \<open>oldest element first\<close>
  assumes content_push: "content (push x q) = content q @ [x]"
    and pop_empty: "content q = [] \<Longrightarrow> pop q = (None, q)"
    and pop_nonempty: "content q = x # xs \<Longrightarrow> fst (pop q) = Some x \<and> content (snd (pop q)) = xs"
begin

fun pops :: "nat \<Rightarrow> 'q \<Rightarrow> 'a list \<times> 'q" where
  "pops 0 q = ([], q)"
| "pops (Suc n) q =
     (case pop q of (None, q') \<Rightarrow> ([], q')
      | (Some x, q') \<Rightarrow> (let (xs, q'') = pops n q' in (x # xs, q'')))"

lemma content_pushes: "content (fold push xs q) = content q @ xs"
  by (induction xs arbitrary: q) (simp_all add: content_push)

lemma pops_content: "n \<le> length (content q) \<Longrightarrow> fst (pops n q) = take n (content q)"
proof (induction n arbitrary: q)
  case 0
  then show ?case by simp
next
  case (Suc n)
  then obtain x xs where c: "content q = x # xs" by (cases "content q") auto
  obtain q' where pop: "pop q = (Some x, q')" and q': "content q' = xs"
    using pop_nonempty [OF c] by (cases "pop q") auto
  have "fst (pops n q') = take n xs" using Suc c q' by simp
  then show ?case by (simp add: c pop case_prod_beta)
qed

lemma pops_in_order:
  "content q = [] \<Longrightarrow> fst (pops (length xs) (fold push xs q)) = xs"
  by (simp add: pops_content content_pushes)

end

interpretation main: fifo redis_lpush redis_brpop "\<lambda>r. rev (main_queue r)"
proof
  fix x xs and q :: redis
  assume "rev (main_queue q) = x # xs"
  then have "main_queue q = rev xs @ [x]" by (metis rev.simps(2) rev_swap)
  then show "fst (redis_brpop q) = Some x \<and> rev (main_queue (snd (redis_brpop q))) = xs"
    by (simp add: redis_brpop_def)
qed (auto simp: redis_lpush_def redis_brpop_def)

section \<open>Backoff\<close>

text \<open>
  \<open>BackoffDelay(attempt)\<close>, in nanoseconds. The shift count is the attempt as an unsigned 64-bit
  number, and the product is one of 64-bit durations; \<open>nanos\<close> is \<open>time.Now().UnixNano()\<close>. Go's
  \<open>%\<close> takes the sign of its left operand.
\<close>

type_synonym duration = "64 word"

definition second :: int where "second = 1000000000"

definition go_rem :: "int \<Rightarrow> int \<Rightarrow> int" where
  "go_rem a b = (if a < 0 then - ((- a) mod b) else a mod b)"

definition jitterFraction :: "int \<Rightarrow> rat" where
  "jitterFraction nanos = f64 (of_int (go_rem nanos 1000) / 1000)"

definition shifted_base :: "int \<Rightarrow> duration" where
  "shifted_base attempt =
     word_of_int (2 * second) * push_bit (unat (word_of_int attempt :: 64 word)) 1"

definition base_delay :: "int \<Rightarrow> int" where
  "base_delay attempt =
     (let d = sint (shifted_base attempt); max = 60 * second in if max < d then max else d)"

definition jitter :: "int \<Rightarrow> int \<Rightarrow> int" where
  "jitter d nanos = f64_trunc (f64 (f64 (f64 (of_int d) * f64 (1 / 5)) * jitterFraction nanos))"

definition BackoffDelay :: "int \<Rightarrow> int \<Rightarrow> int" where
  "BackoffDelay attempt nanos =
     (let d = base_delay attempt in wrap64 (d + jitter d nanos))"

subsection \<open>Bounds\<close>

lemma jitterFraction_bounds:
  assumes "0 \<le> nanos"
  shows "0 \<le> jitterFraction nanos"
    and "jitterFraction nanos \<le> 999 / 1000 * (1 + unit_roundoff)"
proof -
  let ?r = "go_rem nanos 1000"
  have r: "0 \<le> ?r" "?r \<le> 999" using assms by (auto simp: go_rem_def)
  have q: "0 \<le> (of_int ?r :: rat) / 1000" "(of_int ?r :: rat) / 1000 \<le> 999 / 1000"
    using r by (auto simp: divide_right_mono)
  show "0 \<le> jitterFraction nanos" using q(1) by (simp add: jitterFraction_def f64_nonneg)
  have "jitterFraction nanos \<le> of_int ?r / 1000 * (1 + unit_roundoff)"
    unfolding jitterFraction_def using q(1) by (rule f64_le)
  also have "\<dots> \<le> 999 / 1000 * (1 + unit_roundoff)"
    using q(2) by (intro mult_right_mono) (auto simp: unit_roundoff_def)
  finally show "jitterFraction nanos \<le> 999 / 1000 * (1 + unit_roundoff)" .
qed

text \<open>Five roundings cannot lift the factor 0.1998 above a fifth.\<close>

lemma jitter_bounds:
  assumes d: "0 \<le> d" and n: "0 \<le> nanos"
  shows "0 \<le> jitter d nanos \<and> 5 * jitter d nanos \<le> d"
proof -
  let ?u = "1 + unit_roundoff"
  let ?d = "of_int d :: rat"
  have u: "0 \<le> ?u" by (simp add: unit_roundoff_def)
  have d0: "0 \<le> ?d" using d by simp
  have a: "0 \<le> f64 ?d" "f64 ?d \<le> ?d * ?u"
    using f64_nonneg [OF d0] f64_le [OF d0] by auto
  have b: "0 \<le> f64 (1 / 5)" "f64 (1 / 5) \<le> 1 / 5 * ?u"
    using f64_nonneg [of "1 / 5"] f64_le [of "1 / 5"] by auto
  have ab: "f64 ?d * f64 (1 / 5) \<le> (?d * ?u) * (1 / 5 * ?u)"
    using a b d0 u by (intro mult_mono) auto
  have c0: "0 \<le> f64 ?d * f64 (1 / 5)" using a b by simp
  have c: "0 \<le> f64 (f64 ?d * f64 (1 / 5))"
    "f64 (f64 ?d * f64 (1 / 5)) \<le> (?d * ?u) * (1 / 5 * ?u) * ?u"
    using f64_nonneg [OF c0] order_trans [OF f64_le [OF c0] mult_right_mono [OF ab u]] by auto
  note jf = jitterFraction_bounds [OF n]
  let ?x = "f64 (f64 ?d * f64 (1 / 5)) * jitterFraction nanos"
  have e: "?x \<le> (?d * ?u) * (1 / 5 * ?u) * ?u * (999 / 1000 * ?u)"
    using c jf n d0 u by (intro mult_mono) auto
  have e0: "0 \<le> ?x" using c jf n by simp
  have f: "0 \<le> f64 ?x" "f64 ?x \<le> (?d * ?u) * (1 / 5 * ?u) * ?u * (999 / 1000 * ?u) * ?u"
    using f64_nonneg [OF e0] order_trans [OF f64_le [OF e0] mult_right_mono [OF e u]] by auto
  note f(2)
  also have "(?d * ?u) * (1 / 5 * ?u) * ?u * (999 / 1000 * ?u) * ?u
      = ?d * (999 / 5000 * ?u ^ 5)"
    by (simp add: power_numeral_reduce)
  also have "\<dots> \<le> ?d * (1 / 5)"
    using d0 by (intro mult_left_mono) (simp_all add: unit_roundoff_def power_divide)
  finally have "f64 ?x \<le> ?d / 5" by simp
  moreover have "jitter d nanos = \<lfloor>f64 ?x\<rfloor>"
    using f(1) by (simp add: jitter_def f64_trunc_def)
  then have "of_int (jitter d nanos) \<le> f64 ?x" by (simp only: of_int_floor_le)
  ultimately have "5 * of_int (jitter d nanos) \<le> ?d" by linarith
  then have "of_int (5 * jitter d nanos) \<le> ?d" by simp
  then have "5 * jitter d nanos \<le> d" by (simp only: of_int_le_iff)
  moreover have "0 \<le> jitter d nanos" using f(1) by (simp add: jitter_def f64_trunc_def)
  ultimately show ?thesis by simp
qed

text \<open>
  The product fits into 63 bits for attempts up to 32, so the delay doubles up to its cap. From
  attempt 33 on it wraps around.
\<close>

lemma sint_word_of_int_small:
  "- (2 ^ 63) \<le> x \<Longrightarrow> x < 2 ^ 63 \<Longrightarrow> sint (word_of_int x :: 64 word) = x"
  by (simp add: sint_sbintrunc' signed_take_bit_int_eq_self)

lemma shifted_base_exact:
  assumes "0 \<le> a" and "a \<le> 32"
  shows "sint (shifted_base a) = 2 * second * 2 ^ nat a"
proof -
  have "unat (word_of_int a :: 64 word) = nat a"
    using assms by (simp add: unat_eq_nat_uint uint_word_of_int take_bit_int_eq_self)
  then have "shifted_base a = word_of_int (2 * second * 2 ^ nat a)"
    by (simp add: shifted_base_def push_bit_eq_mult second_def)
  moreover have "(2::int) ^ nat a \<le> 2 ^ 32"
    using assms by (intro power_increasing) auto
  then have "2 * second * 2 ^ nat a < 2 ^ 63" and "0 \<le> 2 * second * 2 ^ nat a"
    by (simp_all add: second_def)
  ultimately show ?thesis
    using sint_word_of_int_small [of "2 * second * 2 ^ nat a"] by (simp only:)
qed

lemma base_delay_eq:
  assumes "0 \<le> a" and "a \<le> 32"
  shows "base_delay a = min (60 * second) (2 * second * 2 ^ nat a)"
  using shifted_base_exact [OF assms] by (simp add: base_delay_def Let_def min_def)

lemma base_delay_bounds:
  assumes "0 \<le> a" and "a \<le> 32"
  shows "2 * second \<le> base_delay a \<and> base_delay a \<le> 60 * second"
proof -
  have "(1::int) \<le> 2 ^ nat a" by simp
  then show ?thesis by (simp add: base_delay_eq assms second_def)
qed

lemma BackoffDelay_near_base:
  assumes "0 \<le> a" and "a \<le> 32" and "0 \<le> nanos"
  shows "base_delay a \<le> BackoffDelay a nanos \<and>
         5 * BackoffDelay a nanos \<le> 6 * base_delay a"
proof -
  have b: "2 * second \<le> base_delay a" "base_delay a \<le> 60 * second"
    using base_delay_bounds assms by auto
  then have j: "0 \<le> jitter (base_delay a) nanos" "5 * jitter (base_delay a) nanos \<le> base_delay a"
    using jitter_bounds [of "base_delay a" nanos] assms(3) by (auto simp: second_def)
  have "BackoffDelay a nanos = base_delay a + jitter (base_delay a) nanos"
    using b j unfolding BackoffDelay_def Let_def
    by (intro wrap64_id) (auto simp: int64_min_def int64_max_def second_def)
  with j show ?thesis by simp
qed

section \<open>Delayed retries\<close>

definition unix :: "gotime \<Rightarrow> int" where
  "unix t = t div second"

definition zadd_stmt :: "int \<Rightarrow> string \<Rightarrow> unit stmt" where
  [stmt_defs]: "zadd_stmt score m = redis_cmd (\<lambda>r. ((), redis_zadd score m r))"

definition ScheduleRetry ::
    "(job \<Rightarrow> string) \<Rightarrow> job \<Rightarrow> int \<Rightarrow> platform world \<Rightarrow> (goerr + unit) \<times> platform world" where
  "ScheduleRetry enc j delay w =
     (let readyAt = unix (clock (store w) + delay) in call (zadd_stmt readyAt (enc j)) w)"

text \<open>The pipeline runs as one Redis transaction: for each member, LPUSH, then ZREM.\<close>

definition promote :: "string list \<Rightarrow> redis \<Rightarrow> redis" where
  "promote ms r = fold (\<lambda>m r. redis_zrem m (redis_lpush m r)) ms r"

definition promote_stmt :: "string list \<Rightarrow> unit stmt" where
  [stmt_defs]: "promote_stmt ms = redis_cmd (\<lambda>r. ((), promote ms r))"

definition PromoteDueRetries ::
    "platform world \<Rightarrow> (int \<times> goerr option) \<times> platform world" where
  "PromoteDueRetries w =
     (let now = unix (clock (store w)) in
      case call (reading (\<lambda>p. Inr (redis_zrangebyscore 0 now (redis_state p)))) w of
        (Inl err, w1) \<Rightarrow> ((0, Some err), w1)
      | (Inr members, w1) \<Rightarrow>
          if members = [] then ((0, None), w1)
          else
            (case call (promote_stmt members) w1 of
               (Inl err, w2) \<Rightarrow> ((int (length members), Some err), w2)
             | (Inr _, w2) \<Rightarrow> ((int (length members), None), w2)))"

subsection \<open>Promotion\<close>

lemma promote_main_queue: "main_queue (promote ms r) = rev ms @ main_queue r"
  unfolding promote_def
  by (induction ms arbitrary: r) (simp_all add: redis_zrem_def redis_lpush_def)

lemma promote_delayed:
  "delayed (promote ms r) = filter (\<lambda>e. z_member e \<notin> set ms) (delayed r)"
  unfolding promote_def
  by (induction ms arbitrary: r) (auto simp: redis_zrem_def redis_lpush_def intro: filter_cong)

lemma promote_concurrency [simp]: "concurrency (promote ms r) = concurrency r"
  unfolding promote_def
  by (induction ms arbitrary: r) (simp_all add: redis_zrem_def redis_lpush_def)

definition due :: "int \<Rightarrow> zentry \<Rightarrow> bool" where
  "due now e \<longleftrightarrow> 0 \<le> z_score e \<and> z_score e \<le> now"

lemma set_zrangebyscore:
  "set (redis_zrangebyscore 0 now r) = z_member ` {e \<in> set (delayed r). due now e}"
  by (auto simp: redis_zrangebyscore_def due_def)

text \<open>A sorted set has one entry per member.\<close>

definition zset_ok :: "redis \<Rightarrow> bool" where
  "zset_ok r \<longleftrightarrow> distinct (map z_member (delayed r))"

lemma distinct_filter_snd: "distinct (map f xs) \<Longrightarrow> distinct (map f (filter p xs))"
  by (simp add: distinct_map inj_on_def)

lemma zset_ok_zadd: "zset_ok r \<Longrightarrow> zset_ok (redis_zadd s m r)"
  by (auto simp: zset_ok_def redis_zadd_def distinct_filter_snd)

lemma zset_ok_promote: "zset_ok r \<Longrightarrow> zset_ok (promote ms r)"
  by (simp add: zset_ok_def promote_delayed distinct_filter_snd)

lemma not_due_stay:
  assumes "zset_ok r"
  shows "delayed (promote (redis_zrangebyscore 0 now r) r) = filter (\<lambda>e. \<not> due now e) (delayed r)"
proof -
  have inj: "inj_on z_member (set (delayed r))"
    using assms by (simp add: zset_ok_def distinct_map)
  have "z_member e \<notin> z_member ` {e \<in> set (delayed r). due now e} \<longleftrightarrow> \<not> due now e"
    if "e \<in> set (delayed r)" for e
    using inj that by (auto dest: inj_onD)
  then show ?thesis
    by (simp add: promote_delayed set_zrangebyscore cong: filter_cong)
qed

section \<open>The concurrency counter\<close>

definition incr_stmt :: "uuid \<Rightarrow> unit stmt" where
  [stmt_defs]: "incr_stmt t = redis_cmd (\<lambda>r. ((), set_counter t (counter t r + 1) r))"

definition decr_stmt :: "uuid \<Rightarrow> int stmt" where
  [stmt_defs]: "decr_stmt t =
     redis_cmd (\<lambda>r. (counter t r - 1, set_counter t (counter t r - 1) r))"

definition set_stmt :: "uuid \<Rightarrow> int \<Rightarrow> unit stmt" where
  [stmt_defs]: "set_stmt t n = redis_cmd (\<lambda>r. ((), set_counter t n r))"

definition IncrConcurrency :: "uuid \<Rightarrow> platform world \<Rightarrow> (goerr + unit) \<times> platform world" where
  "IncrConcurrency tenantID w = call (incr_stmt tenantID) w"

definition DecrConcurrency :: "uuid \<Rightarrow> platform world \<Rightarrow> (goerr + unit) \<times> platform world" where
  "DecrConcurrency tenantID w =
     (case call (decr_stmt tenantID) w of
        (Inl err, w1) \<Rightarrow> (Inl err, w1)
      | (Inr val, w1) \<Rightarrow>
          if val < 0 then (Inr (), snd (call (set_stmt tenantID 0) w1)) else (Inr (), w1))"

lemmas queue_defs =
  Enqueue_def ScheduleRetry_def PromoteDueRetries_def IncrConcurrency_def DecrConcurrency_def

end
