(* ===== verification/Operations_Handler.thy ===== *)
theory Operations_Handler
  imports Operations_Repo Queue_Service
begin

text \<open>
  The notifier (\<open>services/operations/internal/sideeffects\<close>) and the HTTP handlers of the
  operations service (\<open>services/operations/internal/handler\<close>), one definition per handler, with
  every guard, early return and call in the order of the code.
\<close>

section \<open>The notifier\<close>

text \<open>
  The two requests to the usage service. \<open>send\<close> is the HTTP client with that service behind it: it
  changes the world, and whatever it answers is dropped. \<open>cj\<close> stands for \<open>json.Marshal\<close> on a
  \<open>json.RawMessage\<close>; a nil message is written as \<open>null\<close>.
\<close>

datatype post =
    PostUsage idtext idtext int
  | PostDispatch idtext idtext string json

text \<open>How long the notifier's HTTP client waits for the usage service.\<close>

definition notifier_timeout :: int where "notifier_timeout = 3 * 1000000000"

definition recordUsage_post ::
    "(post \<Rightarrow> 'w \<Rightarrow> 'w) \<Rightarrow> uuid \<Rightarrow> uuid \<Rightarrow> int \<Rightarrow> 'w \<Rightarrow> 'w" where
  "recordUsage_post send tenantID operationID units w =
     send (PostUsage (UuidText tenantID) (UuidText operationID) units) w"

definition dispatchWebhook ::
    "(json \<Rightarrow> json) \<Rightarrow> (post \<Rightarrow> 'w \<Rightarrow> 'w) \<Rightarrow> uuid \<Rightarrow> uuid \<Rightarrow> string \<Rightarrow> json option \<Rightarrow> 'w \<Rightarrow> 'w"
  where
  "dispatchWebhook cj send tenantID operationID eventType data w =
     send (PostDispatch (UuidText tenantID) (UuidText operationID) eventType
             (case data of None \<Rightarrow> ''null'' | Some j \<Rightarrow> cj j)) w"

definition NotifySuccess ::
    "(json \<Rightarrow> json) \<Rightarrow> (post \<Rightarrow> 'w \<Rightarrow> 'w) \<Rightarrow> uuid \<Rightarrow> uuid \<Rightarrow> json option \<Rightarrow> 'w \<Rightarrow> 'w" where
  "NotifySuccess cj send tenantID operationID output w =
     (let w1 = recordUsage_post send tenantID operationID 1 w in
      dispatchWebhook cj send tenantID operationID ''operation.succeeded'' output w1)"

definition NotifyTerminalFailure ::
    "(json \<Rightarrow> json) \<Rightarrow> (post \<Rightarrow> 'w \<Rightarrow> 'w) \<Rightarrow> uuid \<Rightarrow> uuid \<Rightarrow> string \<Rightarrow> 'w \<Rightarrow> 'w" where
  "NotifyTerminalFailure cj send tenantID operationID status w =
     (let eventType = (if status = ''DEAD_LETTERED'' then ''operation.dead_lettered''
                       else ''operation.failed'')
      in dispatchWebhook cj send tenantID operationID eventType None w)"

text \<open>A goroutine a handler starts; it runs after the handler, on a context of its own.\<close>

datatype task =
    GoNotifySuccess uuid uuid "json option"
  | GoNotifyTerminalFailure uuid uuid string

fun run_task :: "(json \<Rightarrow> json) \<Rightarrow> (post \<Rightarrow> 'w \<Rightarrow> 'w) \<Rightarrow> task \<Rightarrow> 'w \<Rightarrow> 'w" where
  "run_task cj send (GoNotifySuccess t i out) w = NotifySuccess cj send t i out w"
| "run_task cj send (GoNotifyTerminalFailure t i s) w =
     NotifyTerminalFailure cj send t i s w"

section \<open>Handlers\<close>

datatype ops_body =
    OperationBody operation
  | OperationsPage "operation list" int int
  | OperationsBody "operation list"
  | AttemptIdBody uuid
  | StatusBody string
  | AttemptsBody "attempt list"
  | SummaryBody "string \<Rightarrow> nat option"

type_synonym ops_reply = "ops_body response \<times> platform world"

subsection \<open>The customer's surface\<close>

record createOperationReq =
  cr_OpType :: string
  cr_Input :: "json option"

definition createOperation ::
    "(json \<Rightarrow> json option) \<Rightarrow> (job \<Rightarrow> string) \<Rightarrow> createOperationReq request \<Rightarrow> platform world \<Rightarrow>
     ops_reply" where
  "createOperation jb enc r w =
     (let tid = h_tenant r; rid = h_reqid r;
          invalid = WriteError 400 ''invalid_body''
                      (Detail ''op_type and input are required'') rid
      in
      if tid = EmptyText
      then (WriteError 401 ''missing_tenant_context''
              (Detail ''no tenant context on request'') rid, w)
      else
      case decoded r of
        None \<Rightarrow> (invalid, w)
      | Some req \<Rightarrow>
        if cr_OpType req = [] then (invalid, w)
        else
        (let idemKey = (if h_idem r \<noteq> [] then Some (h_idem r) else None) in
         case CreateOperation jb tid (cr_OpType req) (cr_Input req) idemKey 3 w of
           (Inl err, w1) \<Rightarrow>
             (WriteError 500 ''internal_error'' (Detail ''failed to create operation'') rid, w1)
         | (Inr (op, existed), w1) \<Rightarrow>
             if existed then (WriteJSON 200 (OperationBody op), w1)
             else
             (let job = \<lparr>j_OperationID = op_ID op, j_TenantID = tid, j_OpType = op_OpType op,
                         j_Attempt = 0, j_EnqueuedAt = clock (store w1)\<rparr> in
              case Enqueue enc job w1 of
                (Inl err, w2) \<Rightarrow>
                  (WriteError 500 ''internal_error'' (Detail ''failed to enqueue operation'') rid,
                   w2)
              | (Inr _, w2) \<Rightarrow>
                  (case TransitionToQueued (UuidText (op_ID op)) w2 of
                     (Inl err, w3) \<Rightarrow>
                       (WriteError 500 ''internal_error''
                          (Detail ''failed to update operation state'') rid, w3)
                   | (Inr _, w3) \<Rightarrow>
                       (WriteJSON 202 (OperationBody (op\<lparr>op_Status := StatusQueued\<rparr>)), w3)))))"

definition getOperation :: "unit request \<Rightarrow> platform world \<Rightarrow> ops_reply" where
  "getOperation r w =
     (case GetOperation (h_tenant r) (url_id r) w of
        (Inl err, w1) \<Rightarrow>
          (WriteError 404 ''not_found'' (Detail ''operation not found'') (h_reqid r), w1)
      | (Inr op, w1) \<Rightarrow> (WriteJSON 200 (OperationBody op), w1))"

definition list_limit :: "string \<Rightarrow> int" where
  "list_limit q = (let limit = atoi q in if limit \<le> 0 \<or> 100 < limit then 25 else limit)"

definition listOperations :: "unit request \<Rightarrow> platform world \<Rightarrow> ops_reply" where
  "listOperations r w =
     (let limit = list_limit (q_limit r); offset = atoi (q_offset r) in
      case ListOperations \<lparr>lf_TenantID = h_tenant r, lf_Status = q_status r,
                           lf_Limit = limit, lf_Offset = offset\<rparr> w of
        (Inl err, w1) \<Rightarrow>
          (WriteError 500 ''internal_error'' (Detail ''failed to list operations'') (h_reqid r), w1)
      | (Inr ops, w1) \<Rightarrow> (WriteJSON 200 (OperationsPage ops limit offset), w1))"

definition cancelOperation :: "unit request \<Rightarrow> platform world \<Rightarrow> ops_reply" where
  "cancelOperation r w =
     (case CancelOperation (h_tenant r) (url_id r) w of
        (Inl err, w1) \<Rightarrow> (WriteError 409 ''cannot_cancel'' (ErrorText err) (h_reqid r), w1)
      | (Inr _, w1) \<Rightarrow> (WriteHeader 204, w1))"

subsection \<open>The workers' surface\<close>

record startAttemptReq =
  sa_WorkerID :: string
  sa_AttemptNumber :: int

definition startAttempt :: "startAttemptReq request \<Rightarrow> platform world \<Rightarrow> ops_reply" where
  "startAttempt r w =
     (case decoded r of
        None \<Rightarrow> (WriteError 400 ''invalid_body'' (ErrorText DecodeError) (h_reqid r), w)
      | Some req \<Rightarrow>
          (case StartAttempt (url_id r) (sa_WorkerID req) (sa_AttemptNumber req) w of
             (Inl err, w1) \<Rightarrow>
               (WriteError 500 ''internal_error'' (Detail ''failed to start attempt'') (h_reqid r),
                w1)
           | (Inr attemptID, w1) \<Rightarrow>
               (case GetOperationAnyTenant (url_id r) w1 of
                  (Inl opErr, w2) \<Rightarrow> (WriteJSON 200 (AttemptIdBody attemptID), w2)
                | (Inr op, w2) \<Rightarrow>
                    (WriteJSON 200 (AttemptIdBody attemptID),
                     snd (IncrConcurrency (op_TenantID op) w2)))))"

record completeAttemptReq =
  ca_AttemptID :: idtext
  ca_Success :: bool
  ca_Output :: "json option"
  ca_Provider :: string
  ca_LatencyMs :: int
  ca_ErrorCategory :: string
  ca_ErrorDetail :: string

definition will_retry :: "completeAttemptReq \<Rightarrow> operation \<Rightarrow> bool" where
  "will_retry req op \<longleftrightarrow>
     ca_ErrorCategory req = ''transient'' \<and> op_AttemptCount op < op_MaxRetries op"

definition retry_job :: "operation \<Rightarrow> gotime \<Rightarrow> job" where
  "retry_job op now =
     \<lparr>j_OperationID = op_ID op, j_TenantID = UuidText (op_TenantID op), j_OpType = op_OpType op,
      j_Attempt = op_AttemptCount op, j_EnqueuedAt = now\<rparr>"

definition complete_failed ::
    "(job \<Rightarrow> string) \<Rightarrow> completeAttemptReq request \<Rightarrow> completeAttemptReq \<Rightarrow> operation \<Rightarrow>
     platform world \<Rightarrow> (ops_body response \<times> task list) \<times> platform world" where
  "complete_failed enc r req op w2 =
     (let willRetry = will_retry req op in
      case CompleteAttemptFailure (url_id r) (ca_AttemptID req) (ca_ErrorCategory req)
             (ca_ErrorDetail req) willRetry w2 of
        (Inl err, w3) \<Rightarrow>
          ((WriteError 500 ''internal_error'' (Detail ''failed to record failure'') (h_reqid r),
            []), w3)
      | (Inr nextStatus, w3) \<Rightarrow>
          if willRetry then
            (let now = clock (store w3) in
             case ScheduleRetry enc (retry_job op now) (BackoffDelay (op_AttemptCount op) now) w3 of
               (Inl err, w4) \<Rightarrow>
                 ((WriteError 500 ''internal_error'' (Detail ''failed to schedule retry'')
                     (h_reqid r), []), w4)
             | (Inr _, w4) \<Rightarrow> ((WriteJSON 200 (StatusBody nextStatus), []), w4))
          else
            ((WriteJSON 200 (StatusBody nextStatus),
              if nextStatus = StatusFailed \<or> nextStatus = StatusDeadLettered
              then [GoNotifyTerminalFailure (op_TenantID op) (op_ID op) nextStatus] else []),
             w3))"

definition completeAttempt ::
    "(json \<Rightarrow> json option) \<Rightarrow> (job \<Rightarrow> string) \<Rightarrow> completeAttemptReq request \<Rightarrow> platform world \<Rightarrow>
     (ops_body response \<times> task list) \<times> platform world" where
  "completeAttempt jb enc r w =
     (case decoded r of
        None \<Rightarrow> ((WriteError 400 ''invalid_body'' (ErrorText DecodeError) (h_reqid r), []), w)
      | Some req \<Rightarrow>
          (case GetOperationAnyTenant (url_id r) w of
             (Inl err, w1) \<Rightarrow>
               ((WriteError 404 ''not_found'' (Detail ''operation not found'') (h_reqid r), []), w1)
           | (Inr op, w1) \<Rightarrow>
               (let w2 = snd (DecrConcurrency (op_TenantID op) w1) in
                if ca_Success req then
                  (case CompleteAttemptSuccess jb (url_id r) (ca_AttemptID req) (ca_Output req)
                          (ca_Provider req) (ca_LatencyMs req) w2 of
                     (Inl err, w3) \<Rightarrow>
                       ((WriteError 500 ''internal_error'' (Detail ''failed to record success'')
                           (h_reqid r), []), w3)
                   | (Inr _, w3) \<Rightarrow>
                       ((WriteJSON 200 (StatusBody StatusSucceeded),
                         [GoNotifySuccess (op_TenantID op) (op_ID op) (ca_Output req)]), w3))
                else complete_failed enc r req op w2)))"

subsection \<open>The operator's surface\<close>

definition adminGetOperation :: "unit request \<Rightarrow> platform world \<Rightarrow> ops_reply" where
  "adminGetOperation r w =
     (case GetOperationAnyTenant (url_id r) w of
        (Inl err, w1) \<Rightarrow>
          (WriteError 404 ''not_found'' (Detail ''operation not found'') (h_reqid r), w1)
      | (Inr op, w1) \<Rightarrow> (WriteJSON 200 (OperationBody op), w1))"

definition listAttempts :: "unit request \<Rightarrow> platform world \<Rightarrow> ops_reply" where
  "listAttempts r w =
     (case ListAttempts (url_id r) w of
        (Inl err, w1) \<Rightarrow>
          (WriteError 500 ''internal_error'' (Detail ''failed to list attempts'') (h_reqid r), w1)
      | (Inr attempts, w1) \<Rightarrow> (WriteJSON 200 (AttemptsBody attempts), w1))"

definition admin_limit :: "string \<Rightarrow> int" where
  "admin_limit q = (let limit = atoi q in if limit \<le> 0 \<or> 200 < limit then 100 else limit)"

definition adminListOperations :: "unit request \<Rightarrow> platform world \<Rightarrow> ops_reply" where
  "adminListOperations r w =
     (let limit = admin_limit (q_limit r); offset = atoi (q_offset r) in
      case ListOperationsAnyTenant \<lparr>af_Status = q_status r, af_Limit = limit, af_Offset = offset\<rparr> w
      of
        (Inl err, w1) \<Rightarrow>
          (WriteError 500 ''internal_error'' (Detail ''failed to list operations'') (h_reqid r), w1)
      | (Inr ops, w1) \<Rightarrow> (WriteJSON 200 (OperationsBody ops), w1))"

definition adminSummary :: "unit request \<Rightarrow> platform world \<Rightarrow> ops_reply" where
  "adminSummary r w =
     (case PlatformSummary w of
        (Inl err, w1) \<Rightarrow>
          (WriteError 500 ''internal_error'' (Detail ''failed to load summary'') (h_reqid r), w1)
      | (Inr counts, w1) \<Rightarrow> (WriteJSON 200 (SummaryBody counts), w1))"

lemmas ops_handler_defs =
  createOperation_def getOperation_def listOperations_def cancelOperation_def startAttempt_def
  completeAttempt_def complete_failed_def adminGetOperation_def listAttempts_def
  adminListOperations_def adminSummary_def

end
