(* ===== verification/Crypto.thy ===== *)
theory Crypto
  imports Go_Base
begin

unbundle bit_operations_syntax

text \<open>
  What the services use of Go's standard library for keys and signatures: \<open>encoding/hex\<close>,
  \<open>crypto/sha256\<close> (FIPS 180-4) and \<open>crypto/hmac\<close> (RFC 2104), as functions on bytes. A Go string
  is the list of its bytes.
\<close>

section \<open>Hexadecimal\<close>

definition hex_digits :: string where "hex_digits = ''0123456789abcdef''"

definition hex_digit :: "nat \<Rightarrow> char" where
  "hex_digit n = hex_digits ! n"

fun hex_encode :: "byte list \<Rightarrow> string" where
  "hex_encode [] = []"
| "hex_encode (b # bs) = hex_digit (unat b div 16) # hex_digit (unat b mod 16) # hex_encode bs"

fun index_of :: "char \<Rightarrow> string \<Rightarrow> nat option" where
  "index_of c [] = None"
| "index_of c (x # xs) = (if c = x then Some 0 else map_option Suc (index_of c xs))"

fun hex_decode :: "string \<Rightarrow> byte list option" where
  "hex_decode [] = Some []"
| "hex_decode [c] = None"
| "hex_decode (c # d # cs) =
     (case (index_of c hex_digits, index_of d hex_digits, hex_decode cs) of
        (Some h, Some l, Some bs) \<Rightarrow> Some (word_of_nat (16 * h + l) # bs)
      | _ \<Rightarrow> None)"

lemma index_of_nth: "distinct xs \<Longrightarrow> n < length xs \<Longrightarrow> index_of (xs ! n) xs = Some n"
  by (induction xs arbitrary: n) (auto simp: nth_Cons split: nat.splits)

lemma index_of_hex_digit: "n < 16 \<Longrightarrow> index_of (hex_digit n) hex_digits = Some n"
  unfolding hex_digit_def by (rule index_of_nth) (simp_all add: hex_digits_def)

lemma byte_bound: "unat (b::byte) < 256"
  by (rule less_le_trans [OF unsigned_less]) simp

lemma length_hex_encode [simp]: "length (hex_encode bs) = 2 * length bs"
  by (induction bs) simp_all

lemma set_hex_encode: "set (hex_encode bs) \<subseteq> set hex_digits"
proof (induction bs)
  case Nil
  then show ?case by simp
next
  case (Cons b bs)
  have "unat b div 16 < length hex_digits" and "unat b mod 16 < length hex_digits"
    using byte_bound [of b] by (auto simp: hex_digits_def)
  then have "hex_digit (unat b div 16) \<in> set hex_digits" "hex_digit (unat b mod 16) \<in> set hex_digits"
    unfolding hex_digit_def by (auto intro: nth_mem)
  with Cons show ?case by simp
qed

text \<open>The contract of an encoding with a decoder, and what a client may conclude from it.\<close>

locale codec =
  fixes encode :: "'a \<Rightarrow> 'b" and decode :: "'b \<Rightarrow> 'a option"
  assumes decode_encode: "decode (encode x) = Some x"
begin

lemma encode_eq_iff: "encode x = encode y \<longleftrightarrow> x = y"
  by (metis decode_encode option.inject)

lemma inj_encode: "inj encode"
  by (simp add: inj_on_def encode_eq_iff)

end

interpretation hex: codec hex_encode hex_decode
proof
  fix bs :: "byte list"
  show "hex_decode (hex_encode bs) = Some bs"
  proof (induction bs)
    case Nil
    then show ?case by simp
  next
    case (Cons b bs)
    have "unat b div 16 < 16" using byte_bound [of b] by auto
    moreover have "16 * (unat b div 16) + unat b mod 16 = unat b" by simp
    ultimately show ?case
      using Cons by (simp add: index_of_hex_digit)
  qed
qed

section \<open>SHA-256\<close>

type_synonym u32 = "32 word"
type_synonym sha_state = "u32 \<times> u32 \<times> u32 \<times> u32 \<times> u32 \<times> u32 \<times> u32 \<times> u32"

text \<open>
  The constants are fractions of roots of primes: \<open>root_bits k n b acc\<close> adds to \<open>acc\<close> the bits below
  \<open>b\<close> of the largest number whose \<open>k\<close>-th power is at most \<open>n\<close>, and \<open>frac_root k p\<close> is the first 32
  bits after the point of the \<open>k\<close>-th root of \<open>p\<close>, the integer part being cut off by the word.
\<close>

fun root_bits :: "nat \<Rightarrow> int \<Rightarrow> nat \<Rightarrow> int \<Rightarrow> int" where
  "root_bits k n 0 acc = acc"
| "root_bits k n (Suc b) acc =
     root_bits k n b (if (acc + 2 ^ b) ^ k \<le> n then acc + 2 ^ b else acc)"

definition frac_root :: "nat \<Rightarrow> int \<Rightarrow> u32" where
  "frac_root k p = word_of_int (root_bits k (p * 2 ^ (32 * k)) 36 0)"

definition is_prime_to :: "int list \<Rightarrow> int \<Rightarrow> bool" where
  "is_prime_to ps n \<longleftrightarrow> list_all (\<lambda>p. n mod p \<noteq> 0) ps"

text \<open>The primes up to 311 are the first sixty-four.\<close>

definition sha_primes :: "int list" where
  "sha_primes = fold (\<lambda>n ps. if is_prime_to ps n then ps @ [n] else ps) [2..311] []"

definition sha_K :: "u32 list" where
  "sha_K = map (frac_root 3) sha_primes"

definition sha_init :: sha_state where
  "sha_init =
     (frac_root 2 2, frac_root 2 3, frac_root 2 5, frac_root 2 7, frac_root 2 11, frac_root 2 13,
      frac_root 2 17, frac_root 2 19)"

lemma frac_root_examples:
  "frac_root 3 2 = 0x428a2f98" "frac_root 3 311 = 0xc67178f2" "frac_root 2 2 = 0x6a09e667"
  "length sha_primes = 64"
  by (code_simp, code_simp, code_simp, code_simp)

definition rotr :: "nat \<Rightarrow> u32 \<Rightarrow> u32" where
  "rotr n x = drop_bit n x OR push_bit (32 - n) x"

definition small_sigma0 :: "u32 \<Rightarrow> u32" where
  "small_sigma0 x = rotr 7 x XOR rotr 18 x XOR drop_bit 3 x"

definition small_sigma1 :: "u32 \<Rightarrow> u32" where
  "small_sigma1 x = rotr 17 x XOR rotr 19 x XOR drop_bit 10 x"

definition big_sigma0 :: "u32 \<Rightarrow> u32" where
  "big_sigma0 x = rotr 2 x XOR rotr 13 x XOR rotr 22 x"

definition big_sigma1 :: "u32 \<Rightarrow> u32" where
  "big_sigma1 x = rotr 6 x XOR rotr 11 x XOR rotr 25 x"

definition choose_bits :: "u32 \<Rightarrow> u32 \<Rightarrow> u32 \<Rightarrow> u32" where
  "choose_bits e f g = (e AND f) XOR (NOT e AND g)"

definition majority_bits :: "u32 \<Rightarrow> u32 \<Rightarrow> u32 \<Rightarrow> u32" where
  "majority_bits a b c = (a AND b) XOR (a AND c) XOR (b AND c)"

text \<open>The message schedule, newest word first.\<close>

fun sha_extend :: "nat \<Rightarrow> u32 list \<Rightarrow> u32 list" where
  "sha_extend 0 ws = ws"
| "sha_extend (Suc n) ws =
     sha_extend n ((small_sigma1 (ws ! 1) + ws ! 6 + small_sigma0 (ws ! 14) + ws ! 15) # ws)"

fun sha_round :: "u32 \<times> u32 \<Rightarrow> sha_state \<Rightarrow> sha_state" where
  "sha_round (k, w) (a, b, c, d, e, f, g, h) =
     (let t1 = h + big_sigma1 e + choose_bits e f g + k + w;
          t2 = big_sigma0 a + majority_bits a b c
      in (t1 + t2, a, b, c, d + t1, e, f, g))"

fun sha_add :: "sha_state \<Rightarrow> sha_state \<Rightarrow> sha_state" where
  "sha_add (a, b, c, d, e, f, g, h) (a', b', c', d', e', f', g', h') =
     (a + a', b + b', c + c', d + d', e + e', f + f', g + g', h + h')"

definition sha_block :: "u32 list \<Rightarrow> sha_state \<Rightarrow> sha_state" where
  "sha_block ws st = sha_add st (fold sha_round (zip sha_K (rev (sha_extend 48 (rev ws)))) st)"

definition be32 :: "byte \<Rightarrow> byte \<Rightarrow> byte \<Rightarrow> byte \<Rightarrow> u32" where
  "be32 a b c d = word_of_int (uint a * 16777216 + uint b * 65536 + uint c * 256 + uint d)"

fun be_words :: "byte list \<Rightarrow> u32 list" where
  "be_words (a # b # c # d # bs) = be32 a b c d # be_words bs"
| "be_words _ = []"

definition be_bytes :: "u32 \<Rightarrow> byte list" where
  "be_bytes w = [word_of_int (uint w div 16777216), word_of_int (uint w div 65536),
                 word_of_int (uint w div 256), word_of_int (uint w)]"

definition sha_padding :: "nat \<Rightarrow> byte list" where
  "sha_padding n =
     0x80 # replicate ((119 - n mod 64) mod 64) 0 @
     map (\<lambda>i. word_of_int (int n * 8 div 2 ^ (8 * i))) [7, 6, 5, 4, 3, 2, 1, 0]"

fun sha_blocks :: "nat \<Rightarrow> u32 list \<Rightarrow> sha_state \<Rightarrow> sha_state" where
  "sha_blocks 0 ws st = st"
| "sha_blocks (Suc n) ws st = sha_blocks n (drop 16 ws) (sha_block (take 16 ws) st)"

definition sha256 :: "byte list \<Rightarrow> byte list" where
  "sha256 m =
     (let ws = be_words (m @ sha_padding (length m));
          (a, b, c, d, e, f, g, h) = sha_blocks (length ws div 16) ws sha_init
      in concat (map be_bytes [a, b, c, d, e, f, g, h]))"

lemma length_sha256 [simp]: "length (sha256 m) = 32"
  by (simp add: sha256_def be_bytes_def Let_def split: prod.splits)

section \<open>HMAC\<close>

definition hmac_key :: "byte list \<Rightarrow> byte list" where
  "hmac_key k = (let k' = (if 64 < length k then sha256 k else k) in k' @ replicate (64 - length k') 0)"

definition hmac_sha256 :: "byte list \<Rightarrow> byte list \<Rightarrow> byte list" where
  "hmac_sha256 key m =
     (let k = hmac_key key in
      sha256 (map (\<lambda>b. b XOR 0x5c) k @ sha256 (map (\<lambda>b. b XOR 0x36) k @ m)))"

lemma length_hmac_sha256 [simp]: "length (hmac_sha256 k m) = 32"
  by (simp add: hmac_sha256_def Let_def)

definition bytes_of :: "string \<Rightarrow> byte list" where
  "bytes_of s = map of_char s"

definition hmac_hex :: "string \<Rightarrow> string \<Rightarrow> string" where
  "hmac_hex secret m = hex_encode (hmac_sha256 (bytes_of secret) (bytes_of m))"

lemma length_hmac_hex [simp]: "length (hmac_hex secret m) = 64"
  by (simp add: hmac_hex_def)

end
