(* ===== verification/Usage_Service.thy ===== *)
theory Usage_Service
  imports Schema Crypto
begin

text \<open>
  The usage and webhook service (\<open>services/usage-webhooks\<close>): its repository, the dispatcher of
  webhook deliveries and its HTTP handlers. Service 2 calls it when an operation ends; its retry
  loop resends deliveries that have not succeeded.
\<close>

section \<open>Usage ledger\<close>

definition usage_stmt :: "idtext \<Rightarrow> idtext \<Rightarrow> int \<Rightarrow> unit stmt" where
  [stmt_defs]: "usage_stmt tenantID operationID units =
     with_uuid tenantID (\<lambda>t. with_uuid operationID (\<lambda>i u p.
       if \<not> int4_ok units then (Inl BadArg, p)
       else if i \<in> us_OperationID ` set (usage_events p) then (Inr (), p)
       else if u \<in> us_ID ` set (usage_events p) then (Inl (PgError unique_violation), p)
       else if no_tenant t p \<or> no_operation i p then (Inl (PgError foreign_key_violation), p)
       else (Inr (), p\<lparr>usage_events := usage_events p @
               [\<lparr>us_ID = u, us_TenantID = t, us_OperationID = i, us_Units = units,
                 us_RecordedAt = pg_now p\<rparr>]\<rparr>)))"

definition RecordUsage ::
    "idtext \<Rightarrow> idtext \<Rightarrow> int \<Rightarrow> platform world \<Rightarrow> (goerr + unit) \<times> platform world" where
  "RecordUsage tenantID operationID units w = call (usage_stmt tenantID operationID units) w"

record UsageSummary =
  su_TotalOperations :: int
  su_SucceededOperations :: int
  su_FailedOperations :: int
  su_UnitsConsumed :: int
  su_MonthlyQuota :: int
  su_QuotaRemaining :: int

text \<open>\<open>month\<close> stands for PostgreSQL's \<open>date_trunc('month', \<dots>)\<close>.\<close>

definition month_events :: "(gotime \<Rightarrow> gotime) \<Rightarrow> uuid \<Rightarrow> platform \<Rightarrow> usage_event list" where
  "month_events month t p =
     filter (\<lambda>r. us_TenantID r = t \<and> month (pg_now p) \<le> us_RecordedAt r) (usage_events p)"

definition usage_row :: "(gotime \<Rightarrow> gotime) \<Rightarrow> idtext \<Rightarrow> (int \<times> int) stmt" where
  "usage_row month tenantID = with_uuid tenantID (\<lambda>t. reading (\<lambda>p.
     Inr (int (length (month_events month t p)), sum_list (map us_Units (month_events month t p)))))"

definition GetUsageSummary ::
    "(gotime \<Rightarrow> gotime) \<Rightarrow> idtext \<Rightarrow> int \<Rightarrow> platform world \<Rightarrow>
     (goerr + UsageSummary) \<times> platform world" where
  "GetUsageSummary month tenantID monthlyQuota w =
     (case call (usage_row month tenantID) w of
        (Inl err, w1) \<Rightarrow> (Inl err, w1)
      | (Inr (ops, units), w1) \<Rightarrow>
          (let remaining = wrap64 (monthlyQuota - units) in
           (Inr \<lparr>su_TotalOperations = ops, su_SucceededOperations = 0,
                 su_FailedOperations = 0, su_UnitsConsumed = units,
                 su_MonthlyQuota = monthlyQuota,
                 su_QuotaRemaining = (if remaining < 0 then 0 else remaining)\<rparr>, w1)))"

section \<open>Webhook endpoints\<close>

definition endpoint_stmt :: "idtext \<Rightarrow> string \<Rightarrow> string \<Rightarrow> webhook_endpoint stmt" where
  [stmt_defs]: "endpoint_stmt tenantID url secret =
     with_uuid tenantID (\<lambda>t u p.
       if u \<in> we_ID ` set (webhook_endpoints p) then (Inl (PgError unique_violation), p)
       else if no_tenant t p then (Inl (PgError foreign_key_violation), p)
       else
         (let row = \<lparr>we_ID = u, we_TenantID = t, we_URL = url, we_IsActive = True,
                     we_CreatedAt = pg_now p, we_Secret = secret\<rparr>
          in (Inr (webhook_endpoint.truncate row),
              p\<lparr>webhook_endpoints := webhook_endpoints p @ [row]\<rparr>)))"

definition CreateWebhookEndpoint ::
    "idtext \<Rightarrow> string \<Rightarrow> platform world \<Rightarrow> (goerr + webhook_endpoint \<times> string) \<times> platform world"
  where
  "CreateWebhookEndpoint tenantID url w =
     (case rand_read 32 w of
        (Inl err, w1) \<Rightarrow> (Inl (Wrap ''generate webhook secret: '' err), w1)
      | (Inr secretBytes, w1) \<Rightarrow>
          (let secret = hex_encode secretBytes in
           case call (endpoint_stmt tenantID url secret) w1 of
             (Inl err, w2) \<Rightarrow> (Inl err, w2)
           | (Inr e, w2) \<Rightarrow> (Inr (e, secret), w2)))"

definition ListWebhookEndpoints ::
    "idtext \<Rightarrow> platform world \<Rightarrow> (goerr + webhook_endpoint list) \<times> platform world" where
  "ListWebhookEndpoints tenantID w =
     call (with_uuid tenantID (\<lambda>t. reading (\<lambda>p.
       Inr (map webhook_endpoint.truncate
              (order_desc we_CreatedAt (filter (\<lambda>r. we_TenantID r = t) (webhook_endpoints p))))))) w"

definition active_endpoints :: "uuid \<Rightarrow> platform \<Rightarrow> endpoint_with_secret list" where
  "active_endpoints t p = filter (\<lambda>r. we_TenantID r = t \<and> we_IsActive r) (webhook_endpoints p)"

definition ActiveWebhooksForTenant ::
    "idtext \<Rightarrow> platform world \<Rightarrow> (goerr + endpoint_with_secret list) \<times> platform world" where
  "ActiveWebhooksForTenant tenantID w =
     call (with_uuid tenantID (\<lambda>t. reading (\<lambda>p. Inr (active_endpoints t p)))) w"

section \<open>Deliveries\<close>

definition DeliveryPending :: string where "DeliveryPending = ''PENDING''"
definition DeliveryDelivered :: string where "DeliveryDelivered = ''DELIVERED''"
definition DeliveryFailed :: string where "DeliveryFailed = ''FAILED''"

lemma delivery_status_neq [simp]:
  "DeliveryPending \<noteq> DeliveryDelivered" "DeliveryDelivered \<noteq> DeliveryPending"
  "DeliveryPending \<noteq> DeliveryFailed" "DeliveryFailed \<noteq> DeliveryPending"
  "DeliveryDelivered \<noteq> DeliveryFailed" "DeliveryFailed \<noteq> DeliveryDelivered"
  by (simp_all add: DeliveryPending_def DeliveryDelivered_def DeliveryFailed_def)

text \<open>A new row is PENDING and due at once; its payload is stored as \<open>jsonb\<close> (\<open>jb\<close>).\<close>

definition delivery_stmt ::
    "(json \<Rightarrow> json option) \<Rightarrow> uuid \<Rightarrow> idtext \<Rightarrow> string \<Rightarrow> json \<Rightarrow> uuid stmt" where
  [stmt_defs]: "delivery_stmt jb webhookID operationID eventType payload =
     with_uuid operationID (\<lambda>i u p.
       case jb payload of
         None \<Rightarrow> (Inl (PgError invalid_text), p)
       | Some j \<Rightarrow>
           if u \<in> wd_ID ` set (webhook_deliveries p) then (Inl (PgError unique_violation), p)
           else if webhookID \<notin> we_ID ` set (webhook_endpoints p) \<or> no_operation i p
           then (Inl (PgError foreign_key_violation), p)
           else
             (Inr u, p\<lparr>webhook_deliveries := webhook_deliveries p @
                [\<lparr>wd_ID = u, wd_WebhookID = webhookID, wd_OperationID = i,
                  wd_EventType = eventType, wd_Status = DeliveryPending, wd_AttemptCount = 0,
                  wd_LastAttemptAt = None, wd_CreatedAt = pg_now p,
                  wd_Payload = j, wd_NextAttemptAt = Some (pg_now p)\<rparr>]\<rparr>))"

definition CreateDelivery ::
    "(json \<Rightarrow> json option) \<Rightarrow> uuid \<Rightarrow> idtext \<Rightarrow> string \<Rightarrow> json \<Rightarrow> platform world \<Rightarrow>
     (goerr + uuid) \<times> platform world" where
  "CreateDelivery jb webhookID operationID eventType payload w =
     call (delivery_stmt jb webhookID operationID eventType payload) w"

text \<open>
  The three UPDATEs of a delivery. \<open>attempt_count\<close> is an \<open>INT\<close>: incrementing its largest value is
  an error, which the dispatcher ignores as it ignores every error of these methods.
\<close>

datatype mark = MarkSuccess | MarkReschedule gotime | MarkPermanent

fun mark_row :: "mark \<Rightarrow> gotime \<Rightarrow> delivery_row \<Rightarrow> delivery_row" where
  "mark_row MarkSuccess now r =
     r\<lparr>wd_Status := DeliveryDelivered, wd_LastAttemptAt := Some now,
       wd_AttemptCount := wd_AttemptCount r + 1\<rparr>"
| "mark_row (MarkReschedule next) now r =
     r\<lparr>wd_Status := DeliveryPending, wd_LastAttemptAt := Some now,
       wd_NextAttemptAt := Some (pg_time next), wd_AttemptCount := wd_AttemptCount r + 1\<rparr>"
| "mark_row MarkPermanent now r =
     r\<lparr>wd_Status := DeliveryFailed, wd_LastAttemptAt := Some now,
       wd_AttemptCount := wd_AttemptCount r + 1\<rparr>"

definition mark_cond :: "uuid \<times> mark \<times> gotime \<Rightarrow> delivery_row \<Rightarrow> bool" where
  "mark_cond = (\<lambda>(d, m, now) r. wd_ID r = d)"

definition mark_set :: "uuid \<times> mark \<times> gotime \<Rightarrow> delivery_row \<Rightarrow> delivery_row" where
  "mark_set = (\<lambda>(d, m, now) r. mark_row m now r)"

definition mark_stmt :: "uuid \<Rightarrow> mark \<Rightarrow> unit stmt" where
  [stmt_defs]: "mark_stmt deliveryID m = (\<lambda>u p.
     let a = (deliveryID, m, pg_now p) in
     if \<exists>r\<in>set (webhook_deliveries p). mark_cond a r \<and> \<not> int4_ok (wd_AttemptCount r + 1)
     then (Inl (PgError ''22003''), p)
     else (Inr (), p\<lparr>webhook_deliveries :=
             upd_where (mark_cond a) (mark_set a) (webhook_deliveries p)\<rparr>))"

definition MarkDeliverySuccess :: "uuid \<Rightarrow> platform world \<Rightarrow> (goerr + unit) \<times> platform world" where
  "MarkDeliverySuccess deliveryID w = call (mark_stmt deliveryID MarkSuccess) w"

definition MarkDeliveryFailedAndReschedule ::
    "uuid \<Rightarrow> gotime \<Rightarrow> platform world \<Rightarrow> (goerr + unit) \<times> platform world" where
  "MarkDeliveryFailedAndReschedule deliveryID nextAttempt w =
     call (mark_stmt deliveryID (MarkReschedule nextAttempt)) w"

definition MarkDeliveryPermanentlyFailed ::
    "uuid \<Rightarrow> platform world \<Rightarrow> (goerr + unit) \<times> platform world" where
  "MarkDeliveryPermanentlyFailed deliveryID w = call (mark_stmt deliveryID MarkPermanent) w"

text \<open>What identifies a delivery; no UPDATE changes it.\<close>

definition delivery_identity ::
    "delivery_row \<Rightarrow> uuid \<times> uuid \<times> uuid \<times> string \<times> json \<times> gotime" where
  "delivery_identity r =
     (wd_ID r, wd_WebhookID r, wd_OperationID r, wd_EventType r, wd_Payload r, wd_CreatedAt r)"

interpretation marking: keyed_update delivery_identity mark_cond mark_set
proof
  fix a r
  show "delivery_identity (mark_set a r) = delivery_identity r"
    by (cases a; cases "fst (snd a)") (auto simp: mark_set_def delivery_identity_def)
qed

subsection \<open>Due deliveries\<close>

definition due_at :: "gotime \<Rightarrow> delivery_row \<Rightarrow> bool" where
  "due_at now r \<longleftrightarrow>
     wd_Status r = DeliveryPending \<and>
     (case wd_NextAttemptAt r of None \<Rightarrow> False | Some t \<Rightarrow> t \<le> now)"

definition next_attempt_key :: "delivery_row \<Rightarrow> int" where
  "next_attempt_key r = (case wd_NextAttemptAt r of None \<Rightarrow> 0 | Some t \<Rightarrow> t)"

definition due_rows :: "int \<Rightarrow> platform \<Rightarrow> delivery_row list" where
  "due_rows lim p =
     take (nat lim) (sort_key next_attempt_key (filter (due_at (pg_now p)) (webhook_deliveries p)))"

definition DuePendingDeliveries ::
    "int \<Rightarrow> platform world \<Rightarrow> (goerr + webhook_delivery list) \<times> platform world" where
  "DuePendingDeliveries lim w =
     call (reading (\<lambda>p. if lim < 0 then Inl (PgError bad_limit)
                       else Inr (map webhook_delivery.truncate (due_rows lim p)))) w"

record DueDelivery =
  dd_ID :: uuid
  dd_URL :: string
  dd_Secret :: string
  dd_Payload :: json
  dd_AttemptCount :: int

text \<open>The join: one row per due delivery and endpoint with the delivery's webhook id.\<close>

definition join_endpoint :: "platform \<Rightarrow> delivery_row \<Rightarrow> DueDelivery list" where
  "join_endpoint p d =
     map (\<lambda>e. \<lparr>dd_ID = wd_ID d, dd_URL = we_URL e, dd_Secret = we_Secret e,
               dd_Payload = wd_Payload d, dd_AttemptCount = wd_AttemptCount d\<rparr>)
       (filter (\<lambda>e. we_ID e = wd_WebhookID d) (webhook_endpoints p))"

definition due_joined :: "int \<Rightarrow> platform \<Rightarrow> DueDelivery list" where
  "due_joined lim p =
     take (nat lim)
       (concat (map (join_endpoint p)
          (sort_key next_attempt_key (filter (due_at (pg_now p)) (webhook_deliveries p)))))"

definition DueDeliveriesWithEndpoint ::
    "int \<Rightarrow> platform world \<Rightarrow> (goerr + DueDelivery list) \<times> platform world" where
  "DueDeliveriesWithEndpoint lim w =
     call (reading (\<lambda>p. if lim < 0 then Inl (PgError bad_limit) else Inr (due_joined lim p))) w"

section \<open>The dispatcher\<close>

record eventPayload =
  ep_EventType :: string
  ep_OperationID :: idtext
  ep_TenantID :: idtext
  ep_Timestamp :: gotime
  ep_Data :: "json option"

definition sign :: "string \<Rightarrow> json \<Rightarrow> string" where
  "sign secret body = hmac_hex secret body"

definition maxAttempts :: int where "maxAttempts = 5"

text \<open>How long the dispatcher's HTTP client waits for a customer.\<close>

definition dispatcher_timeout :: int where "dispatcher_timeout = 5 * 1000000000"

definition webhook_backoff :: "int \<Rightarrow> int" where
  "webhook_backoff attempt = wrap64 (wrap64 (attempt * attempt) * 5 * 1000000000)"

text \<open>
  The POST a customer's server receives: URL, body, signature and the timestamp header. \<open>url_ok\<close>
  stands for \<open>url.Parse\<close> accepting the URL in \<open>http.NewRequestWithContext\<close>. The models of the
  dispatcher return the requests they sent, in order.
\<close>

record webhook_request =
  wr_URL :: string
  wr_Body :: json
  wr_Signature :: string
  wr_Timestamp :: int

definition attemptDelivery ::
    "(string \<Rightarrow> bool) \<Rightarrow> uuid \<Rightarrow> string \<Rightarrow> string \<Rightarrow> json \<Rightarrow> int \<Rightarrow> platform world \<Rightarrow>
     webhook_request list \<times> platform world" where
  "attemptDelivery url_ok deliveryID url secret body attempt w =
     (let signature = sign secret body in
      if \<not> url_ok url then ([], snd (MarkDeliveryPermanentlyFailed deliveryID w))
      else
      (let req = \<lparr>wr_URL = url, wr_Body = body, wr_Signature = signature,
                  wr_Timestamp = clock (store w) div 1000000000\<rparr> in
       case http_do w of (resp, w1) \<Rightarrow>
         ([req],
          if (case resp of None \<Rightarrow> False | Some code \<Rightarrow> 200 \<le> code \<and> code < 300)
          then snd (MarkDeliverySuccess deliveryID w1)
          else if maxAttempts \<le> attempt then snd (MarkDeliveryPermanentlyFailed deliveryID w1)
          else snd (MarkDeliveryFailedAndReschedule deliveryID
                      (clock (store w1) + webhook_backoff attempt) w1))))"

text \<open>\<open>enc\<close> stands for \<open>json.Marshal\<close> on an event; \<open>None\<close> is its error.\<close>

fun dispatch_loop ::
    "(json \<Rightarrow> json option) \<Rightarrow> (eventPayload \<Rightarrow> json option) \<Rightarrow> (string \<Rightarrow> bool) \<Rightarrow>
     idtext \<Rightarrow> idtext \<Rightarrow> string \<Rightarrow> json option \<Rightarrow> endpoint_with_secret list \<Rightarrow> platform world \<Rightarrow>
     webhook_request list \<times> platform world" where
  "dispatch_loop jb enc url_ok tenantID operationID eventType data [] w = ([], w)"
| "dispatch_loop jb enc url_ok tenantID operationID eventType data (ep # eps) w =
     (let event = \<lparr>ep_EventType = eventType, ep_OperationID = operationID, ep_TenantID = tenantID,
                   ep_Timestamp = clock (store w), ep_Data = data\<rparr>;
          next = dispatch_loop jb enc url_ok tenantID operationID eventType data eps
      in
      case enc event of
        None \<Rightarrow> next w
      | Some body \<Rightarrow>
          (case CreateDelivery jb (we_ID ep) operationID eventType body w of
             (Inl err, w1) \<Rightarrow> next w1
           | (Inr deliveryID, w1) \<Rightarrow>
               (case attemptDelivery url_ok deliveryID (we_URL ep) (we_Secret ep) body 1 w1 of
                  (reqs, w2) \<Rightarrow> (case next w2 of (reqs', w3) \<Rightarrow> (reqs @ reqs', w3)))))"

definition Dispatch ::
    "(json \<Rightarrow> json option) \<Rightarrow> (eventPayload \<Rightarrow> json option) \<Rightarrow> (string \<Rightarrow> bool) \<Rightarrow>
     idtext \<Rightarrow> idtext \<Rightarrow> string \<Rightarrow> json option \<Rightarrow> platform world \<Rightarrow>
     (goerr + webhook_request list) \<times> platform world" where
  "Dispatch jb enc url_ok tenantID operationID eventType data w =
     (case ActiveWebhooksForTenant tenantID w of
        (Inl err, w1) \<Rightarrow> (Inl (Wrap ''load webhook endpoints: '' err), w1)
      | (Inr endpoints, w1) \<Rightarrow>
          (case dispatch_loop jb enc url_ok tenantID operationID eventType data endpoints w1 of
             (reqs, w2) \<Rightarrow> (Inr reqs, w2)))"

fun retry_loop ::
    "(string \<Rightarrow> bool) \<Rightarrow> DueDelivery list \<Rightarrow> platform world \<Rightarrow>
     webhook_request list \<times> platform world" where
  "retry_loop url_ok [] w = ([], w)"
| "retry_loop url_ok (item # items) w =
     (case attemptDelivery url_ok (dd_ID item) (dd_URL item) (dd_Secret item) (dd_Payload item)
             (dd_AttemptCount item + 1) w of
        (reqs, w1) \<Rightarrow> (case retry_loop url_ok items w1 of (reqs', w2) \<Rightarrow> (reqs @ reqs', w2)))"

definition RetryDue ::
    "(string \<Rightarrow> bool) \<Rightarrow> platform world \<Rightarrow>
     (goerr + int \<times> webhook_request list) \<times> platform world" where
  "RetryDue url_ok w =
     (case DueDeliveriesWithEndpoint 50 w of
        (Inl err, w1) \<Rightarrow> (Inl err, w1)
      | (Inr due, w1) \<Rightarrow>
          (case retry_loop url_ok due w1 of (reqs, w2) \<Rightarrow> (Inr (int (length due), reqs), w2)))"

section \<open>Handlers\<close>

datatype usage_body =
    SummaryOf UsageSummary
  | WebhookCreated webhook_endpoint string
  | WebhooksBody "webhook_endpoint list"
  | UnitsConsumedBody int

type_synonym usage_reply = "usage_body response \<times> platform world"

text \<open>
  \<open>json.Unmarshal\<close> into an \<open>int64\<close> with its error ignored: the quota changes only if the header is
  a JSON integer that fits.
\<close>

definition json_space :: "char \<Rightarrow> bool" where
  "json_space c \<longleftrightarrow> c \<in> {CHR '' '', CHR 0x09, CHR 0x0A, CHR 0x0D}"

definition json_trim :: "string \<Rightarrow> string" where
  "json_trim s = rev (dropWhile json_space (rev (dropWhile json_space s)))"

definition json_digits :: "string \<Rightarrow> int option" where
  "json_digits ds =
     (if 1 < length ds \<and> hd ds = CHR ''0'' then None else unsigned_value ds)"

definition json_int64 :: "string \<Rightarrow> int option" where
  "json_int64 s =
     (let t = json_trim s;
          v = (if t \<noteq> [] \<and> hd t = CHR ''-'' then map_option uminus (json_digits (tl t))
               else json_digits t)
      in case v of
           None \<Rightarrow> None
         | Some n \<Rightarrow> if int64_min \<le> n \<and> n \<le> int64_max then Some n else None)"

definition quota_of_header :: "string \<Rightarrow> int" where
  "quota_of_header q =
     (if q \<noteq> [] then (case json_int64 q of None \<Rightarrow> 100000 | Some n \<Rightarrow> n) else 100000)"

definition getUsage :: "(gotime \<Rightarrow> gotime) \<Rightarrow> unit request \<Rightarrow> platform world \<Rightarrow> usage_reply" where
  "getUsage month r w =
     (let quota = quota_of_header (h_quota r) in
      case GetUsageSummary month (h_tenant r) quota w of
        (Inl err, w1) \<Rightarrow>
          (WriteError 500 ''internal_error'' (Detail ''failed to load usage'') (h_reqid r), w1)
      | (Inr summary, w1) \<Rightarrow> (WriteJSON 200 (SummaryOf summary), w1))"

record createWebhookReq =
  cw_URL :: string

definition createWebhook :: "createWebhookReq request \<Rightarrow> platform world \<Rightarrow> usage_reply" where
  "createWebhook r w =
     (let invalid = WriteError 400 ''invalid_body'' (Detail ''url is required'') (h_reqid r) in
      case decoded r of
        None \<Rightarrow> (invalid, w)
      | Some req \<Rightarrow>
          if cw_URL req = [] then (invalid, w)
          else
            (case CreateWebhookEndpoint (h_tenant r) (cw_URL req) w of
               (Inl err, w1) \<Rightarrow>
                 (WriteError 500 ''internal_error'' (Detail ''failed to create webhook'') (h_reqid r),
                  w1)
             | (Inr (e, secret), w1) \<Rightarrow> (WriteJSON 201 (WebhookCreated e secret), w1)))"

definition listWebhooks :: "unit request \<Rightarrow> platform world \<Rightarrow> usage_reply" where
  "listWebhooks r w =
     (case ListWebhookEndpoints (h_tenant r) w of
        (Inl err, w1) \<Rightarrow>
          (WriteError 500 ''internal_error'' (Detail ''failed to list webhooks'') (h_reqid r), w1)
      | (Inr hooks, w1) \<Rightarrow> (WriteJSON 200 (WebhooksBody hooks), w1))"

record recordUsageReq =
  ru_TenantID :: idtext
  ru_OperationID :: idtext
  ru_Units :: int

definition recordUsage :: "recordUsageReq request \<Rightarrow> platform world \<Rightarrow> usage_reply" where
  "recordUsage r w =
     (case decoded r of
        None \<Rightarrow> (WriteError 400 ''invalid_body'' (ErrorText DecodeError) (h_reqid r), w)
      | Some req \<Rightarrow>
          (case RecordUsage (ru_TenantID req) (ru_OperationID req) (ru_Units req) w of
             (Inl err, w1) \<Rightarrow>
               (WriteError 500 ''internal_error'' (Detail ''failed to record usage'') (h_reqid r), w1)
           | (Inr _, w1) \<Rightarrow> (WriteHeader 204, w1)))"

record dispatchEventReq =
  de_TenantID :: idtext
  de_OperationID :: idtext
  de_EventType :: string
  de_Data :: "json option"

definition dispatchEvent ::
    "(json \<Rightarrow> json option) \<Rightarrow> (eventPayload \<Rightarrow> json option) \<Rightarrow> (string \<Rightarrow> bool) \<Rightarrow>
     dispatchEventReq request \<Rightarrow> platform world \<Rightarrow>
     (usage_body response \<times> webhook_request list) \<times> platform world" where
  "dispatchEvent jb enc url_ok r w =
     (case decoded r of
        None \<Rightarrow> ((WriteError 400 ''invalid_body'' (ErrorText DecodeError) (h_reqid r), []), w)
      | Some req \<Rightarrow>
          (case Dispatch jb enc url_ok (de_TenantID req) (de_OperationID req) (de_EventType req)
                  (de_Data req) w of
             (Inl err, w1) \<Rightarrow>
               ((WriteError 500 ''internal_error'' (Detail ''failed to dispatch webhook'')
                   (h_reqid r), []), w1)
           | (Inr reqs, w1) \<Rightarrow> ((WriteHeader 202, reqs), w1)))"

definition getConsumption ::
    "(gotime \<Rightarrow> gotime) \<Rightarrow> unit request \<Rightarrow> platform world \<Rightarrow> usage_reply" where
  "getConsumption month r w =
     (case GetUsageSummary month (url_id r) 0 w of
        (Inl err, w1) \<Rightarrow>
          (WriteError 500 ''internal_error'' (Detail ''failed to load consumption'') (h_reqid r), w1)
      | (Inr summary, w1) \<Rightarrow> (WriteJSON 200 (UnitsConsumedBody (su_UnitsConsumed summary)), w1))"

lemmas usage_repo_defs =
  RecordUsage_def GetUsageSummary_def CreateWebhookEndpoint_def ListWebhookEndpoints_def
  ActiveWebhooksForTenant_def CreateDelivery_def MarkDeliverySuccess_def
  MarkDeliveryFailedAndReschedule_def MarkDeliveryPermanentlyFailed_def DuePendingDeliveries_def
  DueDeliveriesWithEndpoint_def

lemmas usage_handler_defs =
  getUsage_def createWebhook_def listWebhooks_def recordUsage_def dispatchEvent_def
  getConsumption_def

end
