(* ===== verification/Boot.thy ===== *)
theory Boot
  imports Operations_Handler Usage_Service
begin

text \<open>
  The \<open>main\<close> packages of the services: connecting to PostgreSQL and Redis with a bounded number
  of tries, the default ports, and one round of the two background loops.
\<close>

section \<open>Connecting\<close>

text \<open>
  The outcome of one try: the pool cannot be made, the pool does not answer a ping, or it does. The
  loop reports the pool, the error, how often it slept and the pools it closed.
\<close>

datatype 'p dial = NewFails goerr | PingFails 'p goerr | Connected 'p

record 'p boot =
  b_pool :: "'p option"
  b_err :: "goerr option"
  b_sleeps :: nat
  b_closed :: "'p list"

fun connect_loop :: "(nat \<Rightarrow> 'p dial) \<Rightarrow> nat \<Rightarrow> nat \<Rightarrow> goerr option \<Rightarrow> 'p list \<Rightarrow> 'p boot" where
  "connect_loop dial i 0 lastErr shut =
     \<lparr>b_pool = None, b_err = lastErr, b_sleeps = i, b_closed = shut\<rparr>"
| "connect_loop dial i (Suc n) lastErr shut =
     (case dial i of
        Connected p \<Rightarrow> \<lparr>b_pool = Some p, b_err = None, b_sleeps = i, b_closed = shut\<rparr>
      | PingFails p err \<Rightarrow> connect_loop dial (Suc i) n (Some err) (shut @ [p])
      | NewFails err \<Rightarrow> connect_loop dial (Suc i) n (Some err) shut)"

definition connectWithRetry :: "(nat \<Rightarrow> 'p dial) \<Rightarrow> nat \<Rightarrow> 'p boot" where
  "connectWithRetry dial attempts = connect_loop dial 0 attempts None []"

text \<open>The other two services' copies differ in the log line only.\<close>

definition connectPGWithRetry :: "(nat \<Rightarrow> 'p dial) \<Rightarrow> nat \<Rightarrow> 'p boot" where
  "connectPGWithRetry dial attempts = connect_loop dial 0 attempts None []"

definition usage_connectWithRetry :: "(nat \<Rightarrow> 'p dial) \<Rightarrow> nat \<Rightarrow> 'p boot" where
  "usage_connectWithRetry dial attempts = connect_loop dial 0 attempts None []"

fun ping_loop :: "(nat \<Rightarrow> goerr option) \<Rightarrow> nat \<Rightarrow> nat \<Rightarrow> goerr option \<Rightarrow> goerr option \<times> nat" where
  "ping_loop ping i 0 lastErr = (lastErr, i)"
| "ping_loop ping i (Suc n) lastErr =
     (case ping i of None \<Rightarrow> (None, i) | Some err \<Rightarrow> ping_loop ping (Suc i) n (Some err))"

definition pingRedisWithRetry :: "(nat \<Rightarrow> goerr option) \<Rightarrow> nat \<Rightarrow> goerr option \<times> nat" where
  "pingRedisWithRetry ping attempts = ping_loop ping 0 attempts None"

fun is_connected :: "'p dial \<Rightarrow> bool" where
  "is_connected (Connected p) = True"
| "is_connected _ = False"

text \<open>The pools of the tries \<open>i, \<dots>, i + k - 1\<close> that were made but did not answer.\<close>

definition unanswered :: "(nat \<Rightarrow> 'p dial) \<Rightarrow> nat \<Rightarrow> nat \<Rightarrow> 'p list" where
  "unanswered dial i k =
     concat (map (\<lambda>j. case dial j of PingFails p e \<Rightarrow> [p] | _ \<Rightarrow> []) [i..<i + k])"

lemma unanswered_Suc:
  "unanswered dial i (Suc k) =
     (case dial i of PingFails p e \<Rightarrow> [p] | _ \<Rightarrow> []) @ unanswered dial (Suc i) k"
  by (simp add: unanswered_def upt_conv_Cons del: upt_Suc)

lemma unanswered_0 [simp]: "unanswered dial i 0 = []"
  by (simp add: unanswered_def)

lemma connect_loop_first:
  assumes "k < n" and "dial (i + k) = Connected p" and "\<And>j. j < k \<Longrightarrow> \<not> is_connected (dial (i + j))"
  shows "connect_loop dial i n e cs =
    \<lparr>b_pool = Some p, b_err = None, b_sleeps = i + k, b_closed = cs @ unanswered dial i k\<rparr>"
  using assms
proof (induction n arbitrary: i e cs k)
  case 0
  then show ?case by simp
next
  case (Suc n)
  show ?case
  proof (cases k)
    case 0
    with Suc.prems show ?thesis by simp
  next
    case (Suc k')
    have "\<not> is_connected (dial i)" using Suc.prems(3) [of 0] Suc by simp
    moreover have "\<And>j. j < k' \<Longrightarrow> \<not> is_connected (dial (Suc i + j))"
      using Suc.prems(3) [of "Suc j" for j] Suc by simp
    ultimately show ?thesis
      using Suc.prems(1,2) Suc.IH [of k' "Suc i"] Suc
      by (cases "dial i") (auto simp: unanswered_Suc)
  qed
qed

lemma connect_loop_exhausted:
  assumes "\<And>j. j < n \<Longrightarrow> \<not> is_connected (dial (i + j))"
  shows "b_pool (connect_loop dial i n e cs) = None \<and>
         b_sleeps (connect_loop dial i n e cs) = i + n \<and>
         b_closed (connect_loop dial i n e cs) = cs @ unanswered dial i n \<and>
         (0 < n \<or> e \<noteq> None \<longrightarrow> b_err (connect_loop dial i n e cs) \<noteq> None)"
  using assms
proof (induction n arbitrary: i e cs)
  case 0
  then show ?case by simp
next
  case (Suc n)
  have "\<not> is_connected (dial i)" using Suc.prems [of 0] by simp
  moreover have "\<And>j. j < n \<Longrightarrow> \<not> is_connected (dial (Suc i + j))"
    using Suc.prems [of "Suc j" for j] by simp
  ultimately show ?case
    using Suc.IH [of "Suc i"] by (cases "dial i") (auto simp: unanswered_Suc)
qed

text \<open>Connecting to the database ends after at most the given number of tries. It returns the
  pool of the first try that answers, having slept once per failed try; if none answers it returns
  no pool and an error. Every other pool it made has been closed.\<close>

theorem connect_retries:
  "(case find (\<lambda>k. is_connected (dial k)) [0..<n] of
      Some k \<Rightarrow> dial k = Connected (the (b_pool (connectWithRetry dial n))) \<and>
        b_pool (connectWithRetry dial n) \<noteq> None \<and> b_err (connectWithRetry dial n) = None \<and>
        b_sleeps (connectWithRetry dial n) = k \<and>
        b_closed (connectWithRetry dial n) = unanswered dial 0 k
    | None \<Rightarrow> b_pool (connectWithRetry dial n) = None \<and>
        (b_err (connectWithRetry dial n) = None \<longleftrightarrow> n = 0) \<and>
        b_sleeps (connectWithRetry dial n) = n \<and>
        b_closed (connectWithRetry dial n) = unanswered dial 0 n)"
proof (cases "find (\<lambda>k. is_connected (dial k)) [0..<n]")
  case None
  then have "\<not> is_connected (dial (0 + j))" if "j < n" for j
    using that by (simp add: find_None_iff)
  from connect_loop_exhausted [of n dial 0 None "[]", OF this] None show ?thesis
    by (cases n) (auto simp: connectWithRetry_def)
next
  case (Some k)
  then have k: "k < n" "is_connected (dial k)" "\<And>j. j < k \<Longrightarrow> \<not> is_connected (dial (0 + j))"
    by (auto simp: find_Some_iff)
  then obtain p where p: "dial (0 + k) = Connected p" by (cases "dial k") auto
  from connect_loop_first [of k n dial 0 p None "[]", OF k(1) p k(3)] Some p show ?thesis
    by (simp add: connectWithRetry_def)
qed

section \<open>Ports\<close>

definition access_port :: "string \<Rightarrow> string" where
  "access_port env = (if env = [] then ''8081'' else env)"

definition operations_port :: "string \<Rightarrow> string" where
  "operations_port env = (if env = [] then ''8082'' else env)"

definition usage_port :: "string \<Rightarrow> string" where
  "usage_port env = (if env = [] then ''8083'' else env)"

section \<open>Background loops\<close>

text \<open>
  One tick of each loop; an error is logged and the loop goes on with the next tick. \<open>scheduler_run
  n\<close> is the first \<open>n\<close> ticks: between two of them the others may do anything, the clock included,
  which the turns of the calls say.
\<close>

definition retryScheduler_tick :: "platform world \<Rightarrow> platform world" where
  "retryScheduler_tick w = snd (PromoteDueRetries w)"

definition retryScheduler :: "nat \<Rightarrow> platform world \<Rightarrow> platform world" where
  "retryScheduler n w = (retryScheduler_tick ^^ n) w"

definition retryLoop_tick ::
    "(string \<Rightarrow> bool) \<Rightarrow> platform world \<Rightarrow> platform world" where
  "retryLoop_tick url_ok w = snd (RetryDue url_ok w)"

definition retryLoop :: "(string \<Rightarrow> bool) \<Rightarrow> nat \<Rightarrow> platform world \<Rightarrow> platform world" where
  "retryLoop url_ok n w = (retryLoop_tick url_ok ^^ n) w"

end
