(* ===== verification/Access_Service.thy ===== *)
theory Access_Service
  imports Schema Crypto
begin

text \<open>
  The customer and access service (\<open>services/customer-access\<close>): API keys and their hashes, the
  repository of tenants and keys, and the HTTP handlers, among them the validation of a presented
  key that the gateway relies on.
\<close>

section \<open>Keys\<close>

definition key_prefix_text :: string where "key_prefix_text = ''nx_live_''"

definition GenerateRawKey :: "'s world \<Rightarrow> (goerr + string \<times> string) \<times> 's world" where
  "GenerateRawKey w =
     (case rand_read 24 w of
        (Inl err, w1) \<Rightarrow> (Inl (Wrap ''generate key entropy: '' err), w1)
      | (Inr buf, w1) \<Rightarrow>
          (let raw = key_prefix_text @ hex_encode buf; prefix = take 16 raw
           in (Inr (raw, prefix), w1)))"

definition HashKey :: "string \<Rightarrow> string \<Rightarrow> string" where
  "HashKey secret raw = hmac_hex secret raw"

section \<open>Repository\<close>

definition tenant_stmt :: "string \<Rightarrow> string \<Rightarrow> int \<Rightarrow> int \<Rightarrow> int \<Rightarrow> tenant stmt" where
  [stmt_defs]: "tenant_stmt name tier rateLimit quota maxConcurrent = (\<lambda>u p.
     if \<not> int4_ok rateLimit \<or> \<not> int4_ok maxConcurrent then (Inl BadArg, p)
     else if u \<in> tn_ID ` set (tenants p) then (Inl (PgError unique_violation), p)
     else
       (let row = \<lparr>tn_ID = u, tn_Name = name, tn_Tier = tier, tn_RateLimitRPM = rateLimit,
                   tn_MonthlyQuota = quota, tn_MaxConcurrentOps = maxConcurrent,
                   tn_CreatedAt = pg_now p\<rparr>
        in (Inr row, p\<lparr>tenants := tenants p @ [row]\<rparr>)))"

definition CreateTenant ::
    "string \<Rightarrow> string \<Rightarrow> int \<Rightarrow> int \<Rightarrow> int \<Rightarrow> platform world \<Rightarrow> (goerr + tenant) \<times> platform world"
  where
  "CreateTenant name tier rateLimit quota maxConcurrent w =
     (case call (tenant_stmt name tier rateLimit quota maxConcurrent) w of
        (Inl err, w1) \<Rightarrow> (Inl (Wrap ''insert tenant: '' err), w1)
      | (Inr t, w1) \<Rightarrow> (Inr t, w1))"

definition GetTenant :: "idtext \<Rightarrow> platform world \<Rightarrow> (goerr + tenant) \<times> platform world" where
  "GetTenant tid w =
     call (with_uuid tid (\<lambda>t. reading (\<lambda>p. first_row (\<lambda>r. tn_ID r = t) (tenants p)))) w"

definition ListTenants :: "platform world \<Rightarrow> (goerr + tenant list) \<times> platform world" where
  "ListTenants w = call (reading (\<lambda>p. Inr (order_desc tn_CreatedAt (tenants p)))) w"

definition key_active :: string where "key_active = ''active''"
definition key_revoked :: string where "key_revoked = ''revoked''"

lemma key_status_neq [simp]: "key_active \<noteq> key_revoked" "key_revoked \<noteq> key_active"
  by (simp_all add: key_active_def key_revoked_def)

definition api_key_stmt :: "idtext \<Rightarrow> string \<Rightarrow> string \<Rightarrow> api_key stmt" where
  [stmt_defs]: "api_key_stmt tenantID prefix hash = with_uuid tenantID (\<lambda>t u p.
     if u \<in> ak_ID ` set (api_keys p) \<or> hash \<in> ak_KeyHash ` set (api_keys p)
     then (Inl (PgError unique_violation), p)
     else if no_tenant t p then (Inl (PgError foreign_key_violation), p)
     else
       (let row = \<lparr>ak_ID = u, ak_TenantID = t, ak_KeyPrefix = prefix, ak_Status = key_active,
                   ak_CreatedAt = pg_now p, ak_RevokedAt = None, ak_KeyHash = hash\<rparr>
        in (Inr (api_key.truncate row), p\<lparr>api_keys := api_keys p @ [row]\<rparr>)))"

definition CreateAPIKey ::
    "idtext \<Rightarrow> string \<Rightarrow> string \<Rightarrow> platform world \<Rightarrow> (goerr + api_key) \<times> platform world" where
  "CreateAPIKey tenantID prefix hash w =
     (case call (api_key_stmt tenantID prefix hash) w of
        (Inl err, w1) \<Rightarrow> (Inl (Wrap ''insert api key: '' err), w1)
      | (Inr k, w1) \<Rightarrow> (Inr k, w1))"

definition ListAPIKeys :: "idtext \<Rightarrow> platform world \<Rightarrow> (goerr + api_key list) \<times> platform world" where
  "ListAPIKeys tenantID w =
     call (with_uuid tenantID (\<lambda>t. reading (\<lambda>p.
       Inr (map api_key.truncate
              (order_desc ak_CreatedAt (filter (\<lambda>r. ak_TenantID r = t) (api_keys p))))))) w"

definition revoke_cond :: "uuid \<times> gotime \<Rightarrow> api_key_row \<Rightarrow> bool" where
  "revoke_cond = (\<lambda>(i, now) r. ak_ID r = i \<and> ak_Status r = key_active)"

definition revoke_row :: "uuid \<times> gotime \<Rightarrow> api_key_row \<Rightarrow> api_key_row" where
  "revoke_row = (\<lambda>(i, now) r. r\<lparr>ak_Status := key_revoked, ak_RevokedAt := Some now\<rparr>)"

definition revoke_stmt :: "idtext \<Rightarrow> nat stmt" where
  [stmt_defs]: "revoke_stmt keyID = with_uuid keyID (\<lambda>i u p.
     let a = (i, pg_now p) in
     (Inr (length (filter (revoke_cond a) (api_keys p))),
      p\<lparr>api_keys := upd_where (revoke_cond a) (revoke_row a) (api_keys p)\<rparr>))"

definition not_revocable :: goerr where
  "not_revocable = Msg ''key not found or already revoked''"

definition RevokeAPIKey :: "idtext \<Rightarrow> platform world \<Rightarrow> (goerr + unit) \<times> platform world" where
  "RevokeAPIKey keyID w =
     (case call (revoke_stmt keyID) w of
        (Inl err, w1) \<Rightarrow> (Inl err, w1)
      | (Inr n, w1) \<Rightarrow> if n = 0 then (Inl not_revocable, w1) else (Inr (), w1))"

text \<open>What identifies a key; no UPDATE changes it.\<close>

definition key_identity :: "api_key_row \<Rightarrow> uuid \<times> uuid \<times> string \<times> gotime \<times> string" where
  "key_identity r = (ak_ID r, ak_TenantID r, ak_KeyPrefix r, ak_CreatedAt r, ak_KeyHash r)"

interpretation revoking: keyed_update key_identity revoke_cond revoke_row
  by unfold_locales (auto simp: revoke_row_def key_identity_def)

record ValidatedKey =
  vk_TenantID :: uuid
  vk_Tier :: string
  vk_RateLimitRPM :: int
  vk_MonthlyQuota :: int
  vk_MaxConcurrentOps :: int

text \<open>The rows of \<open>api_keys JOIN tenants\<close> with the hash and an active key.\<close>

definition validated_rows :: "string \<Rightarrow> platform \<Rightarrow> ValidatedKey list" where
  "validated_rows hash p =
     concat (map (\<lambda>k.
       map (\<lambda>t. \<lparr>vk_TenantID = tn_ID t, vk_Tier = tn_Tier t, vk_RateLimitRPM = tn_RateLimitRPM t,
                 vk_MonthlyQuota = tn_MonthlyQuota t,
                 vk_MaxConcurrentOps = tn_MaxConcurrentOps t\<rparr>)
         (filter (\<lambda>t. tn_ID t = ak_TenantID k) (tenants p)))
       (filter (\<lambda>k. ak_KeyHash k = hash \<and> ak_Status k = key_active) (api_keys p)))"

definition ValidateKeyHash ::
    "string \<Rightarrow> platform world \<Rightarrow> (goerr + ValidatedKey) \<times> platform world" where
  "ValidateKeyHash hash w =
     call (reading (\<lambda>p. case validated_rows hash p of [] \<Rightarrow> Inl NoRows | v # _ \<Rightarrow> Inr v)) w"

section \<open>Handlers\<close>

text \<open>\<open>secret\<close> is the value of \<open>API_KEY_HMAC_SECRET\<close> the handler was built with.\<close>

datatype access_body =
    TenantBody tenant
  | TenantsBody "tenant list"
  | KeyCreated api_key string
  | KeysBody "api_key list"
  | ValidatedBody ValidatedKey

type_synonym access_reply = "access_body response \<times> platform world"

record createTenantReq =
  ct_Name :: string
  ct_Tier :: string
  ct_RateLimitRPM :: int
  ct_MonthlyQuota :: int
  ct_MaxConcurrentOps :: int

definition createTenant :: "createTenantReq request \<Rightarrow> platform world \<Rightarrow> access_reply" where
  "createTenant r w =
     (case decoded r of
        None \<Rightarrow> (WriteError 400 ''invalid_body'' (ErrorText DecodeError) (h_reqid r), w)
      | Some req \<Rightarrow>
          if ct_Name req = []
          then (WriteError 422 ''validation_error'' (Detail ''name is required'') (h_reqid r), w)
          else
          (let tier = (if ct_Tier req = [] then ''standard'' else ct_Tier req);
               rateLimit = (if ct_RateLimitRPM req = 0 then 100 else ct_RateLimitRPM req);
               quota = (if ct_MonthlyQuota req = 0 then 100000 else ct_MonthlyQuota req);
               maxOps = (if ct_MaxConcurrentOps req = 0 then 10 else ct_MaxConcurrentOps req)
           in
           case CreateTenant (ct_Name req) tier rateLimit quota maxOps w of
             (Inl err, w1) \<Rightarrow>
               (WriteError 500 ''internal_error'' (Detail ''failed to create tenant'') (h_reqid r), w1)
           | (Inr t, w1) \<Rightarrow> (WriteJSON 201 (TenantBody t), w1)))"

definition getTenant :: "unit request \<Rightarrow> platform world \<Rightarrow> access_reply" where
  "getTenant r w =
     (case GetTenant (url_id r) w of
        (Inl err, w1) \<Rightarrow> (WriteError 404 ''not_found'' (Detail ''tenant not found'') (h_reqid r), w1)
      | (Inr t, w1) \<Rightarrow> (WriteJSON 200 (TenantBody t), w1))"

definition listTenants :: "unit request \<Rightarrow> platform world \<Rightarrow> access_reply" where
  "listTenants r w =
     (case ListTenants w of
        (Inl err, w1) \<Rightarrow>
          (WriteError 500 ''internal_error'' (Detail ''failed to list tenants'') (h_reqid r), w1)
      | (Inr ts, w1) \<Rightarrow> (WriteJSON 200 (TenantsBody ts), w1))"

definition createAPIKey :: "string \<Rightarrow> unit request \<Rightarrow> platform world \<Rightarrow> access_reply" where
  "createAPIKey secret r w =
     (case GenerateRawKey w of
        (Inl err, w1) \<Rightarrow>
          (WriteError 500 ''internal_error'' (Detail ''failed to generate key'') (h_reqid r), w1)
      | (Inr (raw, prefix), w1) \<Rightarrow>
          (let hash = HashKey secret raw in
           case CreateAPIKey (url_id r) prefix hash w1 of
             (Inl err, w2) \<Rightarrow>
               (WriteError 500 ''internal_error'' (Detail ''failed to create api key'') (h_reqid r),
                w2)
           | (Inr key, w2) \<Rightarrow> (WriteJSON 201 (KeyCreated key raw), w2)))"

definition listAPIKeys :: "unit request \<Rightarrow> platform world \<Rightarrow> access_reply" where
  "listAPIKeys r w =
     (case ListAPIKeys (url_id r) w of
        (Inl err, w1) \<Rightarrow>
          (WriteError 500 ''internal_error'' (Detail ''failed to list keys'') (h_reqid r), w1)
      | (Inr keys, w1) \<Rightarrow> (WriteJSON 200 (KeysBody keys), w1))"

definition revokeAPIKey :: "unit request \<Rightarrow> platform world \<Rightarrow> access_reply" where
  "revokeAPIKey r w =
     (case RevokeAPIKey (url_id r) w of
        (Inl err, w1) \<Rightarrow> (WriteError 404 ''not_found'' (ErrorText err) (h_reqid r), w1)
      | (Inr _, w1) \<Rightarrow> (WriteHeader 204, w1))"

record validateKeyReq =
  vr_APIKey :: string

definition validateKey :: "string \<Rightarrow> validateKeyReq request \<Rightarrow> platform world \<Rightarrow> access_reply" where
  "validateKey secret r w =
     (let invalid = WriteError 400 ''invalid_body'' (Detail ''api_key is required'') (h_reqid r) in
      case decoded r of
        None \<Rightarrow> (invalid, w)
      | Some req \<Rightarrow>
          if vr_APIKey req = [] then (invalid, w)
          else
          (let hash = HashKey secret (vr_APIKey req) in
           case ValidateKeyHash hash w of
             (Inl err, w1) \<Rightarrow>
               (WriteError 401 ''invalid_api_key''
                  (Detail ''key is invalid, revoked, or unknown'') (h_reqid r), w1)
           | (Inr v, w1) \<Rightarrow> (WriteJSON 200 (ValidatedBody v), w1)))"

lemmas access_repo_defs =
  CreateTenant_def GetTenant_def ListTenants_def CreateAPIKey_def ListAPIKeys_def RevokeAPIKey_def
  ValidateKeyHash_def

lemmas access_handler_defs =
  createTenant_def getTenant_def listTenants_def createAPIKey_def listAPIKeys_def
  revokeAPIKey_def validateKey_def

end
