(* ===== verification/Steps.thy ===== *)
theory Steps
  imports Boot Access_Service
begin

text \<open>
  The deployment as a step relation: one rule per SQL statement, transaction or Redis command the
  services send, and one for the clock. The services' handlers and loops refine it: whatever they
  do, under any interleaving and any failure of their calls, is a run of these steps.
  \<open>guarded_step\<close> has every statement but the transaction of \<open>StartAttempt\<close>, whose UPDATE has no
  guard on the status; \<open>platform_step\<close> adds it.
\<close>

section \<open>The relation\<close>

inductive guarded_step :: "platform \<Rightarrow> platform \<Rightarrow> bool" where
  insert_op: "guarded_step p (snd (insert_operation jb t k ty inp n u p))"
| to_queued: "guarded_step p (snd (queued_stmt i u p))"
| success: "guarded_step p (snd (success_tx jb i a out prov lat u p))"
| failure: "guarded_step p (snd (failure_tx i a cat det retry u p))"
| cancelling: "guarded_step p (snd (cancel_stmt t i u p))"
| usage: "guarded_step p (snd (usage_stmt t i n u p))"
| endpoint: "guarded_step p (snd (endpoint_stmt t url secret u p))"
| delivery: "guarded_step p (snd (delivery_stmt jb wh i ev pay u p))"
| marked: "guarded_step p (snd (mark_stmt d m u p))"
| new_tenant: "guarded_step p (snd (tenant_stmt nm tier rl q mc u p))"
| new_key: "guarded_step p (snd (api_key_stmt t pre hash u p))"
| revoke: "guarded_step p (snd (revoke_stmt i u p))"
| lpush: "guarded_step p (snd (lpush_stmt s u p))"
| brpop: "guarded_step p (snd (brpop_stmt u p))"
| zadd: "guarded_step p (snd (zadd_stmt sc s u p))"
| promoted: "guarded_step p (snd (promote_stmt ms u p))"
| incr: "guarded_step p (snd (incr_stmt t u p))"
| decr: "guarded_step p (snd (decr_stmt t u p))"
| set_conc: "guarded_step p (snd (set_stmt t n u p))"
| time_passes: "clock p \<le> c \<Longrightarrow> guarded_step p (p\<lparr>clock := c\<rparr>)"

inductive platform_step :: "platform \<Rightarrow> platform \<Rightarrow> bool" where
  guarded: "guarded_step p p' \<Longrightarrow> platform_step p p'"
| start_attempt: "platform_step p (snd (start_attempt_tx i wk n u p))"

text \<open>The statements of the usage service alone, and of the access service alone.\<close>

inductive usage_step :: "platform \<Rightarrow> platform \<Rightarrow> bool" where
  usage_event: "usage_step p (snd (usage_stmt t i n u p))"
| new_endpoint: "usage_step p (snd (endpoint_stmt t url secret u p))"
| new_delivery: "usage_step p (snd (delivery_stmt jb wh i ev pay u p))"
| mark_delivery: "usage_step p (snd (mark_stmt d m u p))"

inductive access_step :: "platform \<Rightarrow> platform \<Rightarrow> bool" where
  add_tenant: "access_step p (snd (tenant_stmt nm tier rl q mc u p))"
| add_key: "access_step p (snd (api_key_stmt t pre hash u p))"
| revoke_key: "access_step p (snd (revoke_stmt i u p))"

inductive_simps platform_step_simps: "platform_step p p'"
inductive_cases guarded_stepE: "guarded_step p p'"
inductive_cases platform_stepE: "platform_step p p'"

definition reachable :: "platform \<Rightarrow> bool" where
  "reachable p \<longleftrightarrow> platform_step\<^sup>*\<^sup>* empty_platform p"

section \<open>Rules for handlers\<close>

lemma moves_bind:
  assumes "moves S w (snd m)" and "tame S w"
    and "\<And>r w1. m = (r, w1) \<Longrightarrow> tame S w1 \<Longrightarrow> moves S w1 (snd (k r w1))"
  shows "moves S w (snd (case m of (r, w1) \<Rightarrow> k r w1))"
proof -
  obtain r w1 where m: "m = (r, w1)" by fastforce
  have "moves S w w1" using assms(1) m by simp
  moreover have "moves S w1 (snd (k r w1))"
    using assms(3) [OF m] moves_tame [OF \<open>moves S w w1\<close> assms(2)] .
  ultimately show ?thesis using m by (auto intro: moves_trans)
qed

lemma moves_sum:
  assumes "\<And>e. r = Inl e \<Longrightarrow> moves S w (snd (f e))" and "\<And>x. r = Inr x \<Longrightarrow> moves S w (snd (g x))"
  shows "moves S w (snd (case r of Inl e \<Rightarrow> f e | Inr x \<Rightarrow> g x))"
  using assms by (cases r) auto

lemma moves_option:
  assumes "r = None \<Longrightarrow> moves S w (snd f)" and "\<And>x. r = Some x \<Longrightarrow> moves S w (snd (g x))"
  shows "moves S w (snd (case r of None \<Rightarrow> f | Some x \<Rightarrow> g x))"
  using assms by (cases r) auto

lemma moves_pair:
  "(\<And>x y. r = (x, y) \<Longrightarrow> moves S w (snd (f x y))) \<Longrightarrow> moves S w (snd (case r of (x, y) \<Rightarrow> f x y))"
  by (cases r) auto

lemma moves_if:
  "(b \<Longrightarrow> moves S w (snd f)) \<Longrightarrow> (\<not> b \<Longrightarrow> moves S w (snd g)) \<Longrightarrow> moves S w (snd (if b then f else g))"
  by simp

lemma moves_if_world:
  "(b \<Longrightarrow> moves S w f) \<Longrightarrow> (\<not> b \<Longrightarrow> moves S w g) \<Longrightarrow> moves S w (if b then f else g)"
  by simp

lemma moves_ret: "moves S w v \<Longrightarrow> moves S w (snd (x, v))"
  by simp

lemmas moves_rules =
  moves_refl moves_ret moves_bind moves_sum moves_option moves_if moves_if_world

lemma with_uuid_steps:
  assumes "\<And>x. S\<^sup>*\<^sup>* p (snd (f x u p))"
  shows "S\<^sup>*\<^sup>* p (snd (with_uuid i f u p))"
  using assms by (cases i) (auto simp: with_uuid_def)

text \<open>A call that only reads.\<close>

lemma reading_moves [handler_steps]: "tame S w \<Longrightarrow> moves S w (snd (call (reading f) w))"
  by (rule call_moves) simp_all

lemma uuid_reading_moves [handler_steps]:
  "tame S w \<Longrightarrow> moves S w (snd (call (with_uuid i (\<lambda>x. reading (f x))) w))"
  by (rule call_moves) (simp_all add: with_uuid_steps)

lemma uuid2_reading_moves [handler_steps]:
  "tame S w \<Longrightarrow> moves S w (snd (call (with_uuid i (\<lambda>x. with_uuid j (\<lambda>y. reading (f x y)))) w))"
  by (rule call_moves) (simp_all add: with_uuid_steps)

section \<open>The services refine the relation\<close>

text \<open>
  The contract between a service and a step relation: the relation has the statements the service
  sends. Each handler of the service is a run of any such relation, so it touches what the service's
  own statements touch and nothing else. There is one contract per service; a relation that has all
  guarded statements meets all three.
\<close>

lemmas read_rules = moves_rules reading_moves uuid_reading_moves uuid2_reading_moves
  http_do_moves rand_read_moves

locale operations_statements =
  fixes S :: "platform \<Rightarrow> platform \<Rightarrow> bool"
  assumes has_insert_op: "S p (snd (insert_operation jb t k ty inp n u p))"
    and has_to_queued: "S p (snd (queued_stmt i u p))"
    and has_success: "S p (snd (success_tx jb i a out prov lat u p))"
    and has_failure: "S p (snd (failure_tx i a cat det retry u p))"
    and has_cancelling: "S p (snd (cancel_stmt t i u p))"
    and has_lpush: "S p (snd (lpush_stmt s u p))"
    and has_zadd: "S p (snd (zadd_stmt sc s u p))"
    and has_promoted: "S p (snd (promote_stmt ms u p))"
    and has_incr: "S p (snd (incr_stmt tn u p))"
    and has_decr: "S p (snd (decr_stmt tn u p))"
    and has_set_conc: "S p (snd (set_stmt tn z u p))"
begin

lemma op_call: "tame S w \<Longrightarrow> (\<And>u p. S p (snd (f u p))) \<Longrightarrow> moves S w (snd (call f w))"
  by (rule call_moves) auto

lemmas op_basic = read_rules op_call [OF _ has_insert_op] op_call [OF _ has_to_queued]
  op_call [OF _ has_success] op_call [OF _ has_failure] op_call [OF _ has_cancelling]
  op_call [OF _ has_lpush] op_call [OF _ has_zadd] op_call [OF _ has_promoted]
  op_call [OF _ has_incr] op_call [OF _ has_decr] op_call [OF _ has_set_conc]

lemma CreateOperation_moves:
  "tame S w \<Longrightarrow> moves S w (snd (CreateOperation jb t ty inp k n w))"
  unfolding CreateOperation_def Let_def getByIdempotencyKey_def select_by_idem_def
  by (intro op_basic; assumption?)

lemma GetOperation_moves:
  "tame S w \<Longrightarrow> moves S w (snd (GetOperation t i w))"
  unfolding GetOperation_def select_operation_def select_operation_any_def
  by (intro op_basic; assumption?)

lemma GetOperationAnyTenant_moves:
  "tame S w \<Longrightarrow> moves S w (snd (GetOperationAnyTenant i w))"
  unfolding GetOperationAnyTenant_def select_operation_def select_operation_any_def
  by (intro op_basic; assumption?)

lemma ListOperations_moves:
  "tame S w \<Longrightarrow> moves S w (snd (ListOperations f w))"
  unfolding ListOperations_def
  by (intro op_basic; assumption?)

lemma ListOperationsAnyTenant_moves:
  "tame S w \<Longrightarrow> moves S w (snd (ListOperationsAnyTenant f w))"
  unfolding ListOperationsAnyTenant_def
  by (intro op_basic; assumption?)

lemma PlatformSummary_moves:
  "tame S w \<Longrightarrow> moves S w (snd (PlatformSummary w))"
  unfolding PlatformSummary_def
  by (intro op_basic; assumption?)

lemma TransitionToQueued_moves:
  "tame S w \<Longrightarrow> moves S w (snd (TransitionToQueued i w))"
  unfolding TransitionToQueued_def
  by (intro op_basic; assumption?)

lemma CompleteAttemptSuccess_moves:
  "tame S w \<Longrightarrow> moves S w (snd (CompleteAttemptSuccess jb i a out pr lat w))"
  unfolding CompleteAttemptSuccess_def
  by (intro op_basic; assumption?)

lemma CompleteAttemptFailure_moves:
  "tame S w \<Longrightarrow> moves S w (snd (CompleteAttemptFailure i a c d b w))"
  unfolding CompleteAttemptFailure_def
  by (intro op_basic; assumption?)

lemma CancelOperation_moves:
  "tame S w \<Longrightarrow> moves S w (snd (CancelOperation t i w))"
  unfolding CancelOperation_def
  by (intro op_basic; assumption?)

lemma ListAttempts_moves:
  "tame S w \<Longrightarrow> moves S w (snd (ListAttempts i w))"
  unfolding ListAttempts_def
  by (intro op_basic; assumption?)

lemma Enqueue_moves:
  "tame S w \<Longrightarrow> moves S w (snd (Enqueue enc j w))"
  unfolding Enqueue_def
  by (intro op_basic; assumption?)

lemma ScheduleRetry_moves:
  "tame S w \<Longrightarrow> moves S w (snd (ScheduleRetry enc j d w))"
  unfolding ScheduleRetry_def Let_def
  by (intro op_basic; assumption?)

lemma PromoteDueRetries_moves:
  "tame S w \<Longrightarrow> moves S w (snd (PromoteDueRetries w))"
  unfolding PromoteDueRetries_def Let_def
  by (intro op_basic; assumption?)

lemma IncrConcurrency_moves:
  "tame S w \<Longrightarrow> moves S w (snd (IncrConcurrency t w))"
  unfolding IncrConcurrency_def
  by (intro op_basic; assumption?)

lemma DecrConcurrency_moves:
  "tame S w \<Longrightarrow> moves S w (snd (DecrConcurrency t w))"
  unfolding DecrConcurrency_def
  by (intro op_basic; assumption?)

lemmas ops_rules = op_basic
  CreateOperation_moves
  GetOperation_moves
  GetOperationAnyTenant_moves
  ListOperations_moves
  ListOperationsAnyTenant_moves
  PlatformSummary_moves
  TransitionToQueued_moves
  CompleteAttemptSuccess_moves
  CompleteAttemptFailure_moves
  CancelOperation_moves
  ListAttempts_moves
  Enqueue_moves
  ScheduleRetry_moves
  PromoteDueRetries_moves
  IncrConcurrency_moves
  DecrConcurrency_moves

lemma createOperation_moves:
  "tame S w \<Longrightarrow> moves S w (snd (createOperation jb enc r w))"
  unfolding createOperation_def Let_def
  by (intro moves_pair ops_rules; assumption?)

lemma getOperation_moves:
  "tame S w \<Longrightarrow> moves S w (snd (getOperation r w))"
  unfolding getOperation_def Let_def
  by (intro ops_rules; assumption?)

lemma listOperations_moves:
  "tame S w \<Longrightarrow> moves S w (snd (listOperations r w))"
  unfolding listOperations_def Let_def
  by (intro ops_rules; assumption?)

lemma cancelOperation_moves:
  "tame S w \<Longrightarrow> moves S w (snd (cancelOperation r w))"
  unfolding cancelOperation_def Let_def
  by (intro ops_rules; assumption?)

lemma adminGetOperation_moves:
  "tame S w \<Longrightarrow> moves S w (snd (adminGetOperation r w))"
  unfolding adminGetOperation_def Let_def
  by (intro ops_rules; assumption?)

lemma listAttempts_moves:
  "tame S w \<Longrightarrow> moves S w (snd (listAttempts r w))"
  unfolding listAttempts_def Let_def
  by (intro ops_rules; assumption?)

lemma adminListOperations_moves:
  "tame S w \<Longrightarrow> moves S w (snd (adminListOperations r w))"
  unfolding adminListOperations_def Let_def
  by (intro ops_rules; assumption?)

lemma adminSummary_moves:
  "tame S w \<Longrightarrow> moves S w (snd (adminSummary r w))"
  unfolding adminSummary_def Let_def
  by (intro ops_rules; assumption?)

lemma complete_failed_moves:
  "tame S w \<Longrightarrow> moves S w (snd (complete_failed enc r req op w))"
  unfolding complete_failed_def Let_def
  by (intro ops_rules; assumption?)

lemma after_decr:
  assumes "tame S w" and "\<And>v. tame S v \<Longrightarrow> moves S v (snd (h v))"
  shows "moves S w (snd (h (snd (DecrConcurrency t w))))"
  using DecrConcurrency_moves [OF assms(1)] assms(2) [OF moves_tame [OF _ assms(1)]]
  by (blast intro: moves_trans)

lemma completeAttempt_moves:
  "tame S w \<Longrightarrow> moves S w (snd (completeAttempt jb enc r w))"
  unfolding completeAttempt_def Let_def
  by (intro ops_rules
      after_decr [where h = "\<lambda>v. complete_failed enc r _ _ v"]
      after_decr [where h = "\<lambda>v. CompleteAttemptSuccess jb _ _ _ _ _ v"]
      complete_failed_moves CompleteAttemptSuccess_moves; assumption?)

lemma retryScheduler_tick_moves:
  "tame S w \<Longrightarrow> moves S w (snd ((u, retryScheduler_tick w)))"
  unfolding retryScheduler_tick_def
  by (intro ops_rules; assumption?)

end

subsection \<open>The usage service\<close>

locale usage_statements =
  fixes S :: "platform \<Rightarrow> platform \<Rightarrow> bool"
  assumes has_usage: "S p (snd (usage_stmt t i n u p))"
    and has_endpoint: "S p (snd (endpoint_stmt t url secret u p))"
    and has_delivery: "S p (snd (delivery_stmt jb wh i ev pay u p))"
    and has_marked: "S p (snd (mark_stmt d m u p))"
begin

lemma us_call: "tame S w \<Longrightarrow> (\<And>u p. S p (snd (f u p))) \<Longrightarrow> moves S w (snd (call f w))"
  by (rule call_moves) auto

lemmas us_basic = read_rules us_call [OF _ has_usage] us_call [OF _ has_endpoint]
  us_call [OF _ has_delivery] us_call [OF _ has_marked]

lemma RecordUsage_moves:
  "tame S w \<Longrightarrow> moves S w (snd (RecordUsage t i n w))"
  unfolding RecordUsage_def
  by (intro us_basic; assumption?)

lemma GetUsageSummary_moves:
  "tame S w \<Longrightarrow> moves S w (snd (GetUsageSummary mo t q w))"
  unfolding GetUsageSummary_def usage_row_def Let_def
  by (intro moves_pair us_basic; assumption?)

lemma CreateWebhookEndpoint_moves:
  "tame S w \<Longrightarrow> moves S w (snd (CreateWebhookEndpoint t url w))"
  unfolding CreateWebhookEndpoint_def Let_def
  by (intro us_basic; assumption?)

lemma ListWebhookEndpoints_moves:
  "tame S w \<Longrightarrow> moves S w (snd (ListWebhookEndpoints t w))"
  unfolding ListWebhookEndpoints_def
  by (intro us_basic; assumption?)

lemma ActiveWebhooksForTenant_moves:
  "tame S w \<Longrightarrow> moves S w (snd (ActiveWebhooksForTenant t w))"
  unfolding ActiveWebhooksForTenant_def
  by (intro us_basic; assumption?)

lemma CreateDelivery_moves:
  "tame S w \<Longrightarrow> moves S w (snd (CreateDelivery jb wh i ev pay w))"
  unfolding CreateDelivery_def
  by (intro us_basic; assumption?)

lemma MarkDeliverySuccess_moves:
  "tame S w \<Longrightarrow> moves S w (snd (MarkDeliverySuccess d w))"
  unfolding MarkDeliverySuccess_def
  by (intro us_basic; assumption?)

lemma MarkDeliveryFailedAndReschedule_moves:
  "tame S w \<Longrightarrow> moves S w (snd (MarkDeliveryFailedAndReschedule d nx w))"
  unfolding MarkDeliveryFailedAndReschedule_def
  by (intro us_basic; assumption?)

lemma MarkDeliveryPermanentlyFailed_moves:
  "tame S w \<Longrightarrow> moves S w (snd (MarkDeliveryPermanentlyFailed d w))"
  unfolding MarkDeliveryPermanentlyFailed_def
  by (intro us_basic; assumption?)

lemma DuePendingDeliveries_moves:
  "tame S w \<Longrightarrow> moves S w (snd (DuePendingDeliveries n w))"
  unfolding DuePendingDeliveries_def
  by (intro us_basic; assumption?)

lemma DueDeliveriesWithEndpoint_moves:
  "tame S w \<Longrightarrow> moves S w (snd (DueDeliveriesWithEndpoint n w))"
  unfolding DueDeliveriesWithEndpoint_def
  by (intro us_basic; assumption?)

lemmas usage_rules = us_basic
  RecordUsage_moves
  GetUsageSummary_moves
  CreateWebhookEndpoint_moves
  ListWebhookEndpoints_moves
  ActiveWebhooksForTenant_moves
  CreateDelivery_moves
  MarkDeliverySuccess_moves
  MarkDeliveryFailedAndReschedule_moves
  MarkDeliveryPermanentlyFailed_moves
  DuePendingDeliveries_moves
  DueDeliveriesWithEndpoint_moves

lemma attemptDelivery_moves:
  "tame S w \<Longrightarrow> moves S w (snd (attemptDelivery uok d url sec body n w))"
  unfolding attemptDelivery_def Let_def
  by (intro usage_rules; assumption?)

lemma dispatch_loop_moves:
  "tame S w \<Longrightarrow> moves S w (snd (dispatch_loop jb enc uok t i ev data eps w))"
proof (induction eps arbitrary: w)
  case Nil
  then show ?case by simp
next
  case (Cons ep eps)
  then show ?case
    unfolding dispatch_loop.simps Let_def
    by (intro usage_rules attemptDelivery_moves Cons.IH; assumption?)
qed

lemma retry_loop_moves:
  "tame S w \<Longrightarrow> moves S w (snd (retry_loop uok items w))"
proof (induction items arbitrary: w)
  case Nil
  then show ?case by simp
next
  case (Cons item items)
  then show ?case
    unfolding retry_loop.simps
    by (intro usage_rules attemptDelivery_moves Cons.IH; assumption?)
qed

lemma Dispatch_moves:
  "tame S w \<Longrightarrow> moves S w (snd (Dispatch jb enc uok t i ev data w))"
  unfolding Dispatch_def
  by (intro usage_rules dispatch_loop_moves; assumption?)

lemma RetryDue_moves:
  "tame S w \<Longrightarrow> moves S w (snd (RetryDue uok w))"
  unfolding RetryDue_def
  by (intro usage_rules retry_loop_moves; assumption?)

lemma getUsage_moves:
  "tame S w \<Longrightarrow> moves S w (snd (getUsage mo r w))"
  unfolding getUsage_def Let_def
  by (intro usage_rules; assumption?)

lemma createWebhook_moves:
  "tame S w \<Longrightarrow> moves S w (snd (createWebhook r w))"
  unfolding createWebhook_def Let_def
  by (intro moves_pair usage_rules; assumption?)

lemma listWebhooks_moves:
  "tame S w \<Longrightarrow> moves S w (snd (listWebhooks r w))"
  unfolding listWebhooks_def Let_def
  by (intro usage_rules; assumption?)

lemma recordUsage_moves:
  "tame S w \<Longrightarrow> moves S w (snd (recordUsage r w))"
  unfolding recordUsage_def Let_def
  by (intro usage_rules; assumption?)

lemma getConsumption_moves:
  "tame S w \<Longrightarrow> moves S w (snd (getConsumption mo r w))"
  unfolding getConsumption_def Let_def
  by (intro usage_rules; assumption?)

lemma dispatchEvent_moves:
  "tame S w \<Longrightarrow> moves S w (snd (dispatchEvent jb enc uok r w))"
  unfolding dispatchEvent_def Let_def
  by (intro usage_rules Dispatch_moves; assumption?)

end

subsection \<open>The access service\<close>

locale access_statements =
  fixes S :: "platform \<Rightarrow> platform \<Rightarrow> bool"
  assumes has_tenant: "S p (snd (tenant_stmt nm tier rl q mc u p))"
    and has_key: "S p (snd (api_key_stmt t pre hash u p))"
    and has_revoke: "S p (snd (revoke_stmt i u p))"
begin

lemma ac_call: "tame S w \<Longrightarrow> (\<And>u p. S p (snd (f u p))) \<Longrightarrow> moves S w (snd (call f w))"
  by (rule call_moves) auto

lemmas ac_basic = read_rules ac_call [OF _ has_tenant] ac_call [OF _ has_key]
  ac_call [OF _ has_revoke]

lemma GenerateRawKey_moves:
  "tame S w \<Longrightarrow> moves S w (snd (GenerateRawKey w))"
  unfolding GenerateRawKey_def Let_def
  by (intro ac_basic; assumption?)

lemma CreateTenant_moves:
  "tame S w \<Longrightarrow> moves S w (snd (CreateTenant nm tier rl q mc w))"
  unfolding CreateTenant_def
  by (intro ac_basic; assumption?)

lemma GetTenant_moves:
  "tame S w \<Longrightarrow> moves S w (snd (GetTenant i w))"
  unfolding GetTenant_def
  by (intro ac_basic; assumption?)

lemma ListTenants_moves:
  "tame S w \<Longrightarrow> moves S w (snd (ListTenants w))"
  unfolding ListTenants_def
  by (intro ac_basic; assumption?)

lemma CreateAPIKey_moves:
  "tame S w \<Longrightarrow> moves S w (snd (CreateAPIKey t pre hash w))"
  unfolding CreateAPIKey_def
  by (intro ac_basic; assumption?)

lemma ListAPIKeys_moves:
  "tame S w \<Longrightarrow> moves S w (snd (ListAPIKeys t w))"
  unfolding ListAPIKeys_def
  by (intro ac_basic; assumption?)

lemma RevokeAPIKey_moves:
  "tame S w \<Longrightarrow> moves S w (snd (RevokeAPIKey i w))"
  unfolding RevokeAPIKey_def
  by (intro ac_basic; assumption?)

lemma ValidateKeyHash_moves:
  "tame S w \<Longrightarrow> moves S w (snd (ValidateKeyHash hash w))"
  unfolding ValidateKeyHash_def
  by (intro ac_basic; assumption?)

lemmas access_rules = ac_basic
  GenerateRawKey_moves
  CreateTenant_moves
  GetTenant_moves
  ListTenants_moves
  CreateAPIKey_moves
  ListAPIKeys_moves
  RevokeAPIKey_moves
  ValidateKeyHash_moves

lemma createTenant_moves:
  "tame S w \<Longrightarrow> moves S w (snd (createTenant r w))"
  unfolding createTenant_def Let_def
  by (intro access_rules; assumption?)

lemma getTenant_moves:
  "tame S w \<Longrightarrow> moves S w (snd (getTenant r w))"
  unfolding getTenant_def Let_def
  by (intro access_rules; assumption?)

lemma listTenants_moves:
  "tame S w \<Longrightarrow> moves S w (snd (listTenants r w))"
  unfolding listTenants_def Let_def
  by (intro access_rules; assumption?)

lemma createAPIKey_moves:
  "tame S w \<Longrightarrow> moves S w (snd (createAPIKey sec r w))"
  unfolding createAPIKey_def Let_def
  by (intro moves_pair access_rules; assumption?)

lemma listAPIKeys_moves:
  "tame S w \<Longrightarrow> moves S w (snd (listAPIKeys r w))"
  unfolding listAPIKeys_def Let_def
  by (intro access_rules; assumption?)

lemma revokeAPIKey_moves:
  "tame S w \<Longrightarrow> moves S w (snd (revokeAPIKey r w))"
  unfolding revokeAPIKey_def Let_def
  by (intro access_rules; assumption?)

lemma validateKey_moves:
  "tame S w \<Longrightarrow> moves S w (snd (validateKey sec r w))"
  unfolding validateKey_def Let_def
  by (intro access_rules; assumption?)

end

subsection \<open>All services\<close>

locale statements =
  fixes S :: "platform \<Rightarrow> platform \<Rightarrow> bool"
  assumes has_guarded: "guarded_step p p' \<Longrightarrow> S p p'"

sublocale statements \<subseteq> operations_statements
  by unfold_locales (auto intro: has_guarded guarded_step.intros)

sublocale statements \<subseteq> usage_statements
  by unfold_locales (auto intro: has_guarded guarded_step.intros)

sublocale statements \<subseteq> access_statements
  by unfold_locales (auto intro: has_guarded guarded_step.intros)

text \<open>The contract with the start of an attempt added, for the handler that uses it.\<close>

locale all_statements = statements +
  assumes has_start: "S p (snd (start_attempt_tx i wk n u p))"
begin

lemma StartAttempt_moves:
  "tame S w \<Longrightarrow> moves S w (snd (StartAttempt i wk n w))"
  unfolding StartAttempt_def by (rule call_moves) (auto intro: has_start)

lemma startAttempt_moves: "tame S w \<Longrightarrow> moves S w (snd (startAttempt r w))"
  unfolding startAttempt_def
  by (intro ops_rules StartAttempt_moves; assumption?)

end

interpretation guarded: statements guarded_step
  by unfold_locales

interpretation usage_only: usage_statements usage_step
  by unfold_locales (auto intro: usage_step.intros)

interpretation access_only: access_statements access_step
  by unfold_locales (auto intro: access_step.intros)

interpretation full: all_statements platform_step
  by unfold_locales (auto intro: platform_step.intros)

end
