(* ===== verification/Deployment.thy ===== *)
theory Deployment
  imports Steps
begin

text \<open>
  The three services put together. An \<open>api\<close> value is one thing a service does: it serves a request
  of one of its routes, runs a goroutine a handler has started, or makes one round of a background
  loop. \<open>serve\<close> is what that does to the world. The notifier's HTTP client has the usage service's
  handlers behind it.
\<close>

section \<open>Code outside the repository\<close>

text \<open>
  The functions the services are given by code that is not theirs: PostgreSQL's \<open>jsonb\<close> and
  \<open>date_trunc\<close>, \<open>encoding/json\<close> on a job, an event and a raw message, \<open>net/url\<close>, and the HMAC
  secret of the environment.
\<close>

record ext =
  x_jsonb :: "json \<Rightarrow> json option"
  x_month :: "gotime \<Rightarrow> gotime"
  x_job :: "job \<Rightarrow> string"
  x_event :: "eventPayload \<Rightarrow> json option"
  x_url :: "string \<Rightarrow> bool"
  x_raw :: "json \<Rightarrow> json"
  x_secret :: string

section \<open>Service 2 calling service 3\<close>

definition internal_request :: "'q \<Rightarrow> 'q request" where
  "internal_request q =
     \<lparr>h_tenant = EmptyText, h_reqid = [], h_idem = [], h_quota = [], url_id = EmptyText,
      q_status = [], q_limit = [], q_offset = [], decoded = Some q\<rparr>"

text \<open>
  An HTTP request to another service: it is refused, or the other service handles it, and then its
  answer arrives or is lost. \<open>None\<close> is the client's error.
\<close>

definition http_call :: "('s world \<Rightarrow> 'a \<times> 's world) \<Rightarrow> 's world \<Rightarrow> 'a option \<times> 's world" where
  "http_call handle w =
     (let t = tape w (pos w); w1 = w\<lparr>pos := Suc (pos w), store := others t (store w)\<rparr> in
      if outcome t = Refused then (None, w1)
      else (case handle w1 of (r, w2) \<Rightarrow> (if outcome t = Done then Some r else None, w2)))"

lemma http_call_quiet:
  assumes "quiet w"
  shows "http_call handle w =
    (Some (fst (handle (w\<lparr>pos := Suc (pos w)\<rparr>))), snd (handle (w\<lparr>pos := Suc (pos w)\<rparr>)))"
  using assms by (simp add: quiet_def http_call_def Let_def case_prod_beta)

lemma http_call_moves:
  assumes "tame S w" and "\<And>v. tame S v \<Longrightarrow> moves S v (snd (handle v))"
  shows "moves S w (snd (http_call handle w))"
proof -
  let ?w = "w\<lparr>pos := Suc (pos w), store := others (tape w (pos w)) (store w)\<rparr>"
  have m: "moves S w ?w" using assms(1) by (simp add: moves_def tame_def)
  then have "tame S ?w" using assms(1) by (rule moves_tame)
  then show ?thesis
    using m moves_trans [OF m assms(2)]
    by (auto simp: http_call_def Let_def split: prod.splits)
qed

definition post_to_usage :: "ext \<Rightarrow> post \<Rightarrow> platform world \<Rightarrow> platform world" where
  "post_to_usage x q w =
     (case q of
        PostUsage tid oid n \<Rightarrow>
          snd (http_call (recordUsage (internal_request
            \<lparr>ru_TenantID = tid, ru_OperationID = oid, ru_Units = n\<rparr>)) w)
      | PostDispatch tid oid ev data \<Rightarrow>
          snd (http_call (dispatchEvent (x_jsonb x) (x_event x) (x_url x) (internal_request
            \<lparr>de_TenantID = tid, de_OperationID = oid, de_EventType = ev, de_Data = Some data\<rparr>)) w))"

section \<open>What the services serve\<close>

datatype operations_api =
    PostOperations "createOperationReq request"
  | GetOperations "unit request"
  | GetOperationById "unit request"
  | PostCancel "unit request"
  | PostAttemptStart "startAttemptReq request"
  | PostAttemptComplete "completeAttemptReq request"
  | GetInternalOperation "unit request"
  | GetAttempts "unit request"
  | GetInternalOperations "unit request"
  | GetSummary "unit request"

datatype usage_api =
    GetUsage "unit request"
  | PostWebhooks "createWebhookReq request"
  | GetWebhooks "unit request"
  | PostUsageRecord "recordUsageReq request"
  | PostWebhooksDispatch "dispatchEventReq request"
  | GetConsumption "unit request"

datatype access_api =
    PostTenants "createTenantReq request"
  | GetTenants "unit request"
  | GetTenantById "unit request"
  | PostApiKeys "unit request"
  | GetApiKeys "unit request"
  | DeleteApiKey "unit request"
  | PostAuthValidate "validateKeyReq request"

fun serve_operations :: "ext \<Rightarrow> operations_api \<Rightarrow> platform world \<Rightarrow> platform world" where
  "serve_operations x (PostOperations r) w = snd (createOperation (x_jsonb x) (x_job x) r w)"
| "serve_operations x (GetOperations r) w = snd (listOperations r w)"
| "serve_operations x (GetOperationById r) w = snd (getOperation r w)"
| "serve_operations x (PostCancel r) w = snd (cancelOperation r w)"
| "serve_operations x (PostAttemptStart r) w = snd (startAttempt r w)"
| "serve_operations x (PostAttemptComplete r) w = snd (completeAttempt (x_jsonb x) (x_job x) r w)"
| "serve_operations x (GetInternalOperation r) w = snd (adminGetOperation r w)"
| "serve_operations x (GetAttempts r) w = snd (listAttempts r w)"
| "serve_operations x (GetInternalOperations r) w = snd (adminListOperations r w)"
| "serve_operations x (GetSummary r) w = snd (adminSummary r w)"

fun serve_usage :: "ext \<Rightarrow> usage_api \<Rightarrow> platform world \<Rightarrow> platform world" where
  "serve_usage x (GetUsage r) w = snd (getUsage (x_month x) r w)"
| "serve_usage x (PostWebhooks r) w = snd (createWebhook r w)"
| "serve_usage x (GetWebhooks r) w = snd (listWebhooks r w)"
| "serve_usage x (PostUsageRecord r) w = snd (recordUsage r w)"
| "serve_usage x (PostWebhooksDispatch r) w =
     snd (dispatchEvent (x_jsonb x) (x_event x) (x_url x) r w)"
| "serve_usage x (GetConsumption r) w = snd (getConsumption (x_month x) r w)"

fun serve_access :: "ext \<Rightarrow> access_api \<Rightarrow> platform world \<Rightarrow> platform world" where
  "serve_access x (PostTenants r) w = snd (createTenant r w)"
| "serve_access x (GetTenants r) w = snd (listTenants r w)"
| "serve_access x (GetTenantById r) w = snd (getTenant r w)"
| "serve_access x (PostApiKeys r) w = snd (createAPIKey (x_secret x) r w)"
| "serve_access x (GetApiKeys r) w = snd (listAPIKeys r w)"
| "serve_access x (DeleteApiKey r) w = snd (revokeAPIKey r w)"
| "serve_access x (PostAuthValidate r) w = snd (validateKey (x_secret x) r w)"

datatype api =
    Operations operations_api
  | Usage usage_api
  | Access access_api
  | Goroutine task
  | SchedulerTick
  | RetrySweep

fun serve :: "ext \<Rightarrow> api \<Rightarrow> platform world \<Rightarrow> platform world" where
  "serve x (Operations a) w = serve_operations x a w"
| "serve x (Usage a) w = serve_usage x a w"
| "serve x (Access a) w = serve_access x a w"
| "serve x (Goroutine g) w = run_task (x_raw x) (post_to_usage x) g w"
| "serve x SchedulerTick w = retryScheduler_tick w"
| "serve x RetrySweep w = retryLoop_tick (x_url x) w"

fun starts_attempt :: "api \<Rightarrow> bool" where
  "starts_attempt (Operations (PostAttemptStart r)) = True"
| "starts_attempt _ = False"

section \<open>Serving refines the step relation\<close>

context usage_statements
begin

lemma post_to_usage_moves: "tame S w \<Longrightarrow> moves S w (post_to_usage x q w)"
  by (cases q)
    (auto simp: post_to_usage_def intro: http_call_moves recordUsage_moves dispatchEvent_moves)

lemma post_twice_moves:
  assumes "tame S w"
  shows "moves S w (post_to_usage x q' (post_to_usage x q w))"
  using post_to_usage_moves [OF assms] assms
  by (blast intro: moves_trans moves_tame post_to_usage_moves)

lemma run_task_moves: "tame S w \<Longrightarrow> moves S w (run_task cj (post_to_usage x) g w)"
  by (cases g)
    (auto simp: NotifySuccess_def NotifyTerminalFailure_def recordUsage_post_def
      dispatchWebhook_def Let_def intro: post_to_usage_moves post_twice_moves)

lemma serve_usage_moves: "tame S w \<Longrightarrow> moves S w (serve_usage x a w)"
  by (cases a) (simp_all add: getUsage_moves createWebhook_moves listWebhooks_moves
      recordUsage_moves dispatchEvent_moves getConsumption_moves)

end

context access_statements
begin

lemma serve_access_moves: "tame S w \<Longrightarrow> moves S w (serve_access x a w)"
  by (cases a) (simp_all add: createTenant_moves listTenants_moves getTenant_moves
      createAPIKey_moves listAPIKeys_moves revokeAPIKey_moves validateKey_moves)

end

context operations_statements
begin

lemma serve_operations_moves:
  "tame S w \<Longrightarrow> \<not> starts_attempt (Operations a) \<Longrightarrow> moves S w (serve_operations x a w)"
  by (cases a) (simp_all add: createOperation_moves listOperations_moves getOperation_moves
      cancelOperation_moves completeAttempt_moves adminGetOperation_moves listAttempts_moves
      adminListOperations_moves adminSummary_moves)

end

context statements
begin

lemma serve_moves:
  assumes "tame S w" and "\<not> starts_attempt a"
  shows "moves S w (serve x a w)"
proof (cases a)
  case SchedulerTick
  then show ?thesis
    using retryScheduler_tick_moves [OF assms(1), of undefined] by simp
next
  case RetrySweep
  then show ?thesis using RetryDue_moves [OF assms(1)] by (simp add: retryLoop_tick_def)
qed (use assms in \<open>simp_all add: serve_operations_moves serve_usage_moves serve_access_moves
      run_task_moves\<close>)

end

context all_statements
begin

lemma serve_all_moves: "tame S w \<Longrightarrow> moves S w (serve x a w)"
  by (cases "starts_attempt a")
    (auto simp: serve_moves startAttempt_moves elim: starts_attempt.elims)

end

end
