(* ===== verification/Invariants.thy ===== *)
theory Invariants
  imports Deployment
begin

text \<open>
  The abstract specification of the deployment: \<open>change\<close> lists what can happen to the tables at
  all. Every statement of the services is such a change, so an invariant of changes holds in every
  state the services reach, however their handlers interleave. The flag of \<open>change\<close> says whether
  attempts may start.
\<close>

section \<open>Changes\<close>

inductive change :: "bool \<Rightarrow> platform \<Rightarrow> platform \<Rightarrow> bool" where
  unchanged: "change st p p"
| op_inserted:
    "op_ID row \<notin> op_ID ` set (operations p) \<Longrightarrow>
     idem_index row = None \<or> idem_index row \<notin> idem_index ` set (operations p) \<Longrightarrow>
     op_TenantID row \<in> tn_ID ` set (tenants p) \<Longrightarrow>
     op_Status row = StatusPending \<Longrightarrow> op_AttemptCount row = 0 \<Longrightarrow> op_Output row = None \<Longrightarrow>
     op_ErrorMessage row = None \<Longrightarrow> op_StartedAt row = None \<Longrightarrow> op_CompletedAt row = None \<Longrightarrow>
     op_CreatedAt row = pg_now p \<Longrightarrow>
     change st p (p\<lparr>operations := operations p @ [row]\<rparr>)"
| op_queued: "change st p (p\<lparr>operations := upd_where (queued_cond i) (queued_row i) (operations p)\<rparr>)"
| op_started:
    "i \<in> op_ID ` set (operations p) \<Longrightarrow> at_ID row \<notin> at_ID ` set (operation_attempts p) \<Longrightarrow>
     at_OperationID row = i \<Longrightarrow> at_StartedAt row = pg_now p \<Longrightarrow>
     at_FinishedAt row = None \<Longrightarrow> at_Success row = None \<Longrightarrow> a = (i, n, pg_now p) \<Longrightarrow>
     change True p (p\<lparr>operations := upd_where (start_cond a) (start_row a) (operations p),
                      operation_attempts := operation_attempts p @ [row]\<rparr>)"
| op_succeeded:
    "c = (i, out, pg_now p) \<Longrightarrow>
     change st p (p\<lparr>operation_attempts :=
         upd_where (finish_cond aid) (attempt_succeeded prov lat (pg_now p) aid) (operation_attempts p),
       operations := upd_where (succeed_cond c) (succeed_row c) (operations p)\<rparr>)"
| op_failed:
    "ns \<in> {StatusRetrying, StatusFailed, StatusDeadLettered} \<Longrightarrow> c = (i, ns, det, pg_now p) \<Longrightarrow>
     change st p (p\<lparr>operation_attempts :=
         upd_where (finish_cond aid) (attempt_failed cat det (pg_now p) aid) (operation_attempts p),
       operations := upd_where (fail_cond c) (fail_row c) (operations p)\<rparr>)"
| op_cancelled:
    "c = (i, t, pg_now p) \<Longrightarrow>
     change st p (p\<lparr>operations := upd_where (cancel_cond c) (cancel_row c) (operations p)\<rparr>)"
| usage_added:
    "us_ID row \<notin> us_ID ` set (usage_events p) \<Longrightarrow>
     us_OperationID row \<notin> us_OperationID ` set (usage_events p) \<Longrightarrow>
     us_TenantID row \<in> tn_ID ` set (tenants p) \<Longrightarrow>
     us_OperationID row \<in> op_ID ` set (operations p) \<Longrightarrow> us_RecordedAt row = pg_now p \<Longrightarrow>
     change st p (p\<lparr>usage_events := usage_events p @ [row]\<rparr>)"
| endpoint_added:
    "we_ID row \<notin> we_ID ` set (webhook_endpoints p) \<Longrightarrow>
     we_TenantID row \<in> tn_ID ` set (tenants p) \<Longrightarrow>
     change st p (p\<lparr>webhook_endpoints := webhook_endpoints p @ [row]\<rparr>)"
| delivery_added:
    "wd_ID row \<notin> wd_ID ` set (webhook_deliveries p) \<Longrightarrow>
     wd_WebhookID row \<in> we_ID ` set (webhook_endpoints p) \<Longrightarrow>
     wd_OperationID row \<in> op_ID ` set (operations p) \<Longrightarrow>
     wd_Status row = DeliveryPending \<Longrightarrow> wd_AttemptCount row = 0 \<Longrightarrow>
     wd_LastAttemptAt row = None \<Longrightarrow> wd_NextAttemptAt row \<noteq> None \<Longrightarrow>
     change st p (p\<lparr>webhook_deliveries := webhook_deliveries p @ [row]\<rparr>)"
| delivery_marked:
    "m = (d, mk, pg_now p) \<Longrightarrow>
     change st p (p\<lparr>webhook_deliveries :=
       upd_where (mark_cond m) (mark_set m) (webhook_deliveries p)\<rparr>)"
| tenant_added:
    "tn_ID row \<notin> tn_ID ` set (tenants p) \<Longrightarrow>
     change st p (p\<lparr>tenants := tenants p @ [row]\<rparr>)"
| key_added:
    "ak_ID row \<notin> ak_ID ` set (api_keys p) \<Longrightarrow> ak_KeyHash row \<notin> ak_KeyHash ` set (api_keys p) \<Longrightarrow>
     ak_TenantID row \<in> tn_ID ` set (tenants p) \<Longrightarrow>
     ak_Status row = key_active \<Longrightarrow> ak_RevokedAt row = None \<Longrightarrow>
     change st p (p\<lparr>api_keys := api_keys p @ [row]\<rparr>)"
| key_revoked:
    "k = (i, pg_now p) \<Longrightarrow>
     change st p (p\<lparr>api_keys := upd_where (revoke_cond k) (revoke_row k) (api_keys p)\<rparr>)"
| redis_changed:
    "(zset_ok (redis_state p) \<Longrightarrow> zset_ok r) \<Longrightarrow> change st p (p\<lparr>redis_state := r\<rparr>)"
| time_passed: "clock p \<le> c \<Longrightarrow> change st p (p\<lparr>clock := c\<rparr>)"

lemma with_uuid_change:
  assumes "\<And>x. change st p (snd (f x u p))"
  shows "change st p (snd (with_uuid i f u p))"
  using assms by (cases i) (auto simp: with_uuid_def intro: unchanged)

lemma redis_cmd_change:
  assumes "\<And>r. zset_ok r \<Longrightarrow> zset_ok (snd (f r))"
  shows "change st p (snd (redis_cmd f u p))"
  using redis_changed [of p "snd (f (redis_state p))" st] assms
  by (simp add: redis_cmd_def case_prod_beta)

lemma zset_ok_fields:
  "delayed r' = delayed r \<Longrightarrow> zset_ok r \<Longrightarrow> zset_ok r'"
  by (simp add: zset_ok_def)

lemma insert_operation_change: "change st p (snd (insert_operation jb t k ty inp n u p))"
  unfolding insert_operation_def
  by (rule with_uuid_change)
    (auto simp: Let_def idem_taken_def no_tenant_def idem_index_def
      intro!: unchanged op_inserted split: option.splits)

lemma start_attempt_change: "change True p (snd (start_attempt_tx i wk n u p))"
  unfolding start_attempt_tx_def
  by (rule with_uuid_change)
    (auto simp: Let_def no_operation_def intro!: unchanged op_started)

lemma success_change: "change st p (snd (success_tx jb i a out prov lat u p))"
  unfolding success_tx_def
  by (rule with_uuid_change, rule with_uuid_change)
    (auto simp: Let_def intro!: unchanged op_succeeded)

lemma next_status_cases:
  "next_status cat retry = StatusRetrying \<or> next_status cat retry = StatusFailed \<or>
   next_status cat retry = StatusDeadLettered"
  by (simp add: next_status_def)

lemma failure_change: "change st p (snd (failure_tx i a cat det retry u p))"
  using next_status_cases [of cat retry]
  by (auto simp: failure_tx_def with_uuid_def Let_def split: idtext.splits
      intro!: unchanged op_failed [where ns = "next_status cat retry"])

lemma usage_change: "change st p (snd (usage_stmt t i n u p))"
  unfolding usage_stmt_def
  by (rule with_uuid_change, rule with_uuid_change)
    (auto simp: no_tenant_def no_operation_def intro!: unchanged usage_added)

lemma delivery_change: "change st p (snd (delivery_stmt jb wh i ev pay u p))"
  unfolding delivery_stmt_def
  by (rule with_uuid_change)
    (auto simp: no_operation_def intro!: unchanged delivery_added split: option.splits)

lemma guarded_step_change:
  assumes "guarded_step p p'"
  shows "change st p p'"
  using assms
proof cases
  case insert_op
  then show ?thesis by (simp add: insert_operation_change)
next
  case success
  then show ?thesis by (simp add: success_change)
next
  case failure
  then show ?thesis by (simp add: failure_change)
next
  case usage
  then show ?thesis by (simp add: usage_change)
next
  case delivery
  then show ?thesis by (simp add: delivery_change)
next
  case to_queued
  then show ?thesis
    by (auto simp: queued_stmt_def intro!: with_uuid_change op_queued)
next
  case cancelling
  then show ?thesis
    by (auto simp: cancel_stmt_def Let_def intro!: with_uuid_change op_cancelled)
next
  case endpoint
  then show ?thesis
    by (auto simp: endpoint_stmt_def Let_def no_tenant_def
        intro!: with_uuid_change unchanged endpoint_added)
next
  case marked
  then show ?thesis
    by (auto simp: mark_stmt_def Let_def intro!: unchanged delivery_marked)
next
  case new_tenant
  then show ?thesis
    by (auto simp: tenant_stmt_def Let_def intro!: unchanged tenant_added)
next
  case new_key
  then show ?thesis
    by (auto simp: api_key_stmt_def Let_def no_tenant_def
        intro!: with_uuid_change unchanged key_added)
next
  case revoke
  then show ?thesis
    by (auto simp: revoke_stmt_def Let_def intro!: with_uuid_change key_revoked)
next
  case time_passes
  then show ?thesis by (simp add: time_passed)
next
  case zadd
  then show ?thesis by (simp add: zadd_stmt_def redis_cmd_change zset_ok_zadd)
next
  case promoted
  then show ?thesis by (simp add: promote_stmt_def redis_cmd_change zset_ok_promote)
next
  case lpush
  then show ?thesis
    by (auto simp: lpush_stmt_def redis_lpush_def intro!: redis_cmd_change elim: zset_ok_fields [rotated])
next
  case brpop
  then show ?thesis
    by (auto simp: brpop_stmt_def redis_brpop_def intro!: redis_cmd_change elim: zset_ok_fields [rotated])
next
  case incr
  then show ?thesis
    by (auto simp: incr_stmt_def intro!: redis_cmd_change elim: zset_ok_fields [rotated])
next
  case decr
  then show ?thesis
    by (auto simp: decr_stmt_def intro!: redis_cmd_change elim: zset_ok_fields [rotated])
next
  case set_conc
  then show ?thesis
    by (auto simp: set_stmt_def intro!: redis_cmd_change elim: zset_ok_fields [rotated])
qed

lemma platform_step_change: "platform_step p p' \<Longrightarrow> change True p p'"
  by (erule platform_stepE) (auto intro: guarded_step_change start_attempt_change)

section \<open>The schema's constraints\<close>

text \<open>Columns that an update keeps, read off the identity of the rows.\<close>

lemma map_via:
  assumes "map f xs = map f ys" and "\<And>r. g r = h (f r)"
  shows "map g xs = map g ys"
proof -
  have via: "g = h \<circ> f" using assms(2) by (simp add: fun_eq_iff)
  show ?thesis using assms(1) by (simp add: via flip: map_map)
qed

lemma partial_unique_map:
  "partial_unique k rs \<longleftrightarrow> distinct (filter (\<lambda>x. x \<noteq> None) (map k rs))"
  by (simp add: partial_unique_def filter_map o_def)

lemma map_set_eq: "map f xs = map f ys \<Longrightarrow> f ` set xs = f ` set ys"
  by (metis set_map)

lemma same_operations:
  assumes "map op_identity os' = map op_identity os"
  shows "map op_ID os' = map op_ID os" and "op_ID ` set os' = op_ID ` set os"
    and "op_TenantID ` set os' = op_TenantID ` set os"
    and "partial_unique idem_index os' = partial_unique idem_index os"
proof -
  show i: "map op_ID os' = map op_ID os"
    by (rule map_via [OF assms, of _ fst]) (simp add: op_identity_def)
  then show "op_ID ` set os' = op_ID ` set os" by (rule map_set_eq)
  have "map op_TenantID os' = map op_TenantID os"
    by (rule map_via [OF assms, of _ "\<lambda>x. fst (snd x)"]) (simp add: op_identity_def)
  then show "op_TenantID ` set os' = op_TenantID ` set os" by (rule map_set_eq)
  have "map idem_index os' = map idem_index os"
    by (rule map_via [OF assms, of _ "\<lambda>(i, t, k, x). case k of None \<Rightarrow> None | Some c \<Rightarrow> Some (t, c)"])
      (simp add: op_identity_def idem_index_def)
  then show "partial_unique idem_index os' = partial_unique idem_index os"
    by (simp add: partial_unique_map)
qed

lemma same_attempts:
  assumes "map attempt_identity as' = map attempt_identity as"
  shows "map at_ID as' = map at_ID as" and "at_OperationID ` set as' = at_OperationID ` set as"
proof -
  show "map at_ID as' = map at_ID as"
    by (rule map_via [OF assms, of _ fst]) (simp add: attempt_identity_def)
  have "map at_OperationID as' = map at_OperationID as"
    by (rule map_via [OF assms, of _ "\<lambda>x. fst (snd x)"]) (simp add: attempt_identity_def)
  then show "at_OperationID ` set as' = at_OperationID ` set as" by (rule map_set_eq)
qed

lemma same_deliveries:
  assumes "map delivery_identity ds' = map delivery_identity ds"
  shows "map wd_ID ds' = map wd_ID ds" and "wd_WebhookID ` set ds' = wd_WebhookID ` set ds"
    and "wd_OperationID ` set ds' = wd_OperationID ` set ds"
proof -
  show "map wd_ID ds' = map wd_ID ds"
    by (rule map_via [OF assms, of _ fst]) (simp add: delivery_identity_def)
  have "map wd_WebhookID ds' = map wd_WebhookID ds"
    by (rule map_via [OF assms, of _ "\<lambda>x. fst (snd x)"]) (simp add: delivery_identity_def)
  then show "wd_WebhookID ` set ds' = wd_WebhookID ` set ds" by (rule map_set_eq)
  have "map wd_OperationID ds' = map wd_OperationID ds"
    by (rule map_via [OF assms, of _ "\<lambda>x. fst (snd (snd x))"]) (simp add: delivery_identity_def)
  then show "wd_OperationID ` set ds' = wd_OperationID ` set ds" by (rule map_set_eq)
qed

lemma same_keys:
  assumes "map key_identity ks' = map key_identity ks"
  shows "map ak_ID ks' = map ak_ID ks" and "map ak_KeyHash ks' = map ak_KeyHash ks"
    and "ak_TenantID ` set ks' = ak_TenantID ` set ks"
proof -
  show "map ak_ID ks' = map ak_ID ks"
    by (rule map_via [OF assms, of _ fst]) (simp add: key_identity_def)
  show "map ak_KeyHash ks' = map ak_KeyHash ks"
    by (rule map_via [OF assms, of _ "\<lambda>(a, b, c, d, e). e"]) (simp add: key_identity_def)
  have "map ak_TenantID ks' = map ak_TenantID ks"
    by (rule map_via [OF assms, of _ "\<lambda>x. fst (snd x)"]) (simp add: key_identity_def)
  then show "ak_TenantID ` set ks' = ak_TenantID ` set ks" by (rule map_set_eq)
qed

lemmas update_keys =
  same_operations [OF queued.keys] same_operations [OF start.keys]
  same_operations [OF succeed.keys] same_operations [OF failing.keys]
  same_operations [OF cancel.keys] same_attempts [OF attempt_ok.keys]
  same_attempts [OF attempt_bad.keys] same_deliveries [OF marking.keys]
  same_keys [OF revoking.keys]

lemmas schema_defs = schema_ok_def primary_keys_def unique_indexes_def foreign_keys_def

lemma idem_snoc:
  assumes "partial_unique idem_index os" and "idem_index r = None \<or> idem_index r \<notin> idem_index ` set os"
  shows "partial_unique idem_index (os @ [r])"
  using assms by (force simp: partial_unique_snoc)

lemma change_schema_ok: "change st p p' \<Longrightarrow> schema_ok p \<Longrightarrow> schema_ok p'"
  by (induction rule: change.induct) (auto simp: schema_defs update_keys idem_snoc)

end
