(* ===== verification/Lifecycle.thy ===== *)
theory Lifecycle
  imports Invariants "HOL-Library.Sublist"
begin

text \<open>
  What holds of the tables in every reachable state, and what a run of the deployment keeps. The
  locales say it once for any invariant of \<open>change\<close> and any transitive relation that contains
  \<open>change\<close>; they are interpreted on the constraints of the schema, the lifecycles of operations,
  attempts, deliveries and keys, the persistence of records, the immutability of terminal
  operations and the finality of a revocation.
\<close>

section \<open>Invariants and histories\<close>

locale history =
  fixes st :: bool and S :: "platform \<Rightarrow> platform \<Rightarrow> bool" and R :: "platform \<Rightarrow> platform \<Rightarrow> bool"
  assumes step_change: "S p p' \<Longrightarrow> change st p p'"
    and R_refl: "R p p"
    and R_trans: "R p q \<Longrightarrow> R q r \<Longrightarrow> R p r"
    and R_change: "change st p p' \<Longrightarrow> R p p'"
begin

lemma run: "S\<^sup>*\<^sup>* p p' \<Longrightarrow> R p p'"
  by (induction rule: rtranclp_induct) (auto intro: R_refl R_trans R_change step_change)

lemma of_moves: "moves S w w' \<Longrightarrow> R (store w) (store w')"
  by (simp add: moves_def run)

end

locale full_history = history True platform_step R for R
begin

lemma serving: "tame platform_step w \<Longrightarrow> R (store w) (store (serve x a w))"
  by (rule of_moves) (rule full.serve_all_moves)

end

locale guarded_history = history False guarded_step R for R
begin

lemma serving:
  "tame guarded_step w \<Longrightarrow> \<not> starts_attempt a \<Longrightarrow> R (store w) (store (serve x a w))"
  by (rule of_moves) (rule guarded.serve_moves)

end

locale invariant =
  fixes I :: "platform \<Rightarrow> bool"
  assumes init: "I empty_platform"
    and preserved: "change True p p' \<Longrightarrow> I p \<Longrightarrow> I p'"

sublocale invariant \<subseteq> full_history "\<lambda>p p'. I p \<longrightarrow> I p'"
  by unfold_locales (auto intro: preserved platform_step_change)

context invariant
begin

lemma at_reachable: "reachable p \<Longrightarrow> I p"
  using run init by (auto simp: reachable_def)

lemma kept_by_serve: "tame platform_step w \<Longrightarrow> I (store w) \<Longrightarrow> I (store (serve x a w))"
  using serving by blast

end

lemma reachable_empty: "reachable empty_platform"
  by (simp add: reachable_def)

lemma reachable_step: "reachable p \<Longrightarrow> platform_step p p' \<Longrightarrow> reachable p'"
  by (simp add: reachable_def)

lemma reachable_moves: "reachable (store w) \<Longrightarrow> moves platform_step w w' \<Longrightarrow> reachable (store w')"
  by (auto simp: reachable_def moves_def)

section \<open>The schema\<close>

interpretation schema: invariant schema_ok
  by unfold_locales (auto intro: schema_ok_empty change_schema_ok)

section \<open>Operations\<close>

text \<open>Which columns an operation has filled in, by its status.\<close>

definition all_statuses :: "string list" where
  "all_statuses = [StatusPending, StatusQueued, StatusRunning, StatusRetrying,
                   StatusSucceeded, StatusFailed, StatusDeadLettered, StatusCancelled]"

definition op_wf :: "operation \<Rightarrow> bool" where
  "op_wf r \<longleftrightarrow>
     op_Status r \<in> set all_statuses \<and>
     (op_Status r \<in> {StatusPending, StatusQueued} \<longrightarrow>
        op_StartedAt r = None \<and> op_CompletedAt r = None \<and> op_Output r = None \<and>
        op_ErrorMessage r = None \<and> op_AttemptCount r = 0) \<and>
     (op_Status r \<in> {StatusRunning, StatusRetrying, StatusSucceeded, StatusFailed,
                     StatusDeadLettered} \<longrightarrow> op_StartedAt r \<noteq> None) \<and>
     (op_Status r \<in> {StatusRetrying, StatusFailed, StatusDeadLettered} \<longrightarrow>
        op_ErrorMessage r \<noteq> None) \<and>
     (op_Status r = StatusSucceeded \<longrightarrow> op_ErrorMessage r = None) \<and>
     (IsTerminal (op_Status r) \<longrightarrow> op_CompletedAt r \<noteq> None)"

text \<open>No timestamp is in the future, and they are in order.\<close>

definition op_times :: "gotime \<Rightarrow> operation \<Rightarrow> bool" where
  "op_times now r \<longleftrightarrow>
     op_CreatedAt r \<le> now \<and>
     pred_option (\<lambda>s. op_CreatedAt r \<le> s \<and> s \<le> now) (op_StartedAt r) \<and>
     pred_option (\<lambda>t. op_CreatedAt r \<le> t \<and> t \<le> now) (op_CompletedAt r) \<and>
     (IsTerminal (op_Status r) \<longrightarrow>
        pred_option (\<lambda>s. pred_option (\<lambda>t. s \<le> t) (op_CompletedAt r)) (op_StartedAt r))"

definition operations_ok :: "platform \<Rightarrow> bool" where
  "operations_ok p \<longleftrightarrow> (\<forall>r\<in>set (operations p). op_wf r \<and> op_times (pg_now p) r)"

lemma pg_now_mono: "clock p \<le> c \<Longrightarrow> pg_now p \<le> pg_time c"
  by (simp add: pg_now_def pg_time_def zdiv_mono1)

lemma pg_now_simps [simp]:
  "pg_now (p\<lparr>tenants := a\<rparr>) = pg_now p" "pg_now (p\<lparr>api_keys := b\<rparr>) = pg_now p"
  "pg_now (p\<lparr>operations := c\<rparr>) = pg_now p" "pg_now (p\<lparr>operation_attempts := d\<rparr>) = pg_now p"
  "pg_now (p\<lparr>usage_events := e\<rparr>) = pg_now p" "pg_now (p\<lparr>webhook_endpoints := f\<rparr>) = pg_now p"
  "pg_now (p\<lparr>webhook_deliveries := g\<rparr>) = pg_now p" "pg_now (p\<lparr>redis_state := h\<rparr>) = pg_now p"
  "pg_now (p\<lparr>clock := t\<rparr>) = pg_time t"
  by (simp_all add: pg_now_def)

lemma op_times_mono: "op_times n r \<Longrightarrow> n \<le> n' \<Longrightarrow> op_times n' r"
  by (auto simp: op_times_def elim!: option.pred_mono_strong)

definition op_ok :: "gotime \<Rightarrow> operation \<Rightarrow> bool" where
  "op_ok now r \<longleftrightarrow> op_wf r \<and> op_times now r"

lemma operations_ok_iff: "operations_ok p \<longleftrightarrow> (\<forall>r\<in>set (operations p). op_ok (pg_now p) r)"
  by (simp add: operations_ok_def op_ok_def)

lemmas op_ok_defs = op_ok_def op_wf_def op_times_def all_statuses_def op_update_defs

lemma queued_ok: "queued_cond i r \<Longrightarrow> op_ok n r \<Longrightarrow> op_ok n (queued_row i r)"
  by (simp add: op_ok_defs)

lemma start_ok: "op_ok n r \<Longrightarrow> op_ok n (start_row (i, k, n) r)"
  by (cases "op_StartedAt r") (simp_all add: op_ok_defs)

lemma succeed_ok:
  assumes "succeed_cond (i, out, n) r" and "op_ok n r"
  shows "op_ok n (succeed_row (i, out, n) r)"
  using assms by (cases "op_StartedAt r") (simp_all add: op_ok_defs)

lemma fail_ok:
  assumes "fail_cond (i, s, det, n) r" and "op_ok n r"
    and "s \<in> {StatusRetrying, StatusFailed, StatusDeadLettered}"
  shows "op_ok n (fail_row (i, s, det, n) r)"
  using assms by (cases "op_StartedAt r") (auto simp: op_ok_defs status_defs IsTerminal_iff)

lemma cancel_ok:
  assumes "op_ok n r"
  shows "op_ok n (cancel_row (i, t, n) r)"
  using assms by (cases "op_StartedAt r") (simp_all add: op_ok_defs)

lemma change_operations_ok: "change st p p' \<Longrightarrow> operations_ok p \<Longrightarrow> operations_ok p'"
proof (induction rule: change.induct)
  case (op_inserted row p st)
  then show ?case by (auto simp: operations_ok_iff op_ok_defs)
next
  case (time_passed p c st)
  then show ?case
    using pg_now_mono [OF time_passed(1)] op_times_mono
    by (fastforce simp: operations_ok_iff op_ok_def)
qed (auto simp: operations_ok_iff set_upd_where intro: queued_ok start_ok succeed_ok fail_ok
    cancel_ok)

lemma operations_ok_empty: "operations_ok empty_platform"
  by (simp add: operations_ok_def empty_platform_def)

interpretation ops: invariant operations_ok
  by unfold_locales (rule operations_ok_empty, erule (1) change_operations_ok)

section \<open>Attempts\<close>

text \<open>
  An attempt is open (no result, no end) or closed with its result; an operation that has attempts
  has started.
\<close>

definition attempt_wf :: "gotime \<Rightarrow> attempt \<Rightarrow> bool" where
  "attempt_wf now a \<longleftrightarrow>
     (at_FinishedAt a = None \<longleftrightarrow> at_Success a = None) \<and>
     (at_Success a = Some True \<longrightarrow> at_ProviderUsed a \<noteq> None \<and> at_LatencyMs a \<noteq> None) \<and>
     (at_Success a = Some False \<longrightarrow> at_ErrorCategory a \<noteq> None \<and> at_ErrorDetail a \<noteq> None) \<and>
     at_StartedAt a \<le> now \<and> pred_option (\<lambda>t. at_StartedAt a \<le> t \<and> t \<le> now) (at_FinishedAt a)"

definition started_ids :: "platform \<Rightarrow> uuid set" where
  "started_ids p = op_ID ` {r \<in> set (operations p). op_StartedAt r \<noteq> None}"

definition attempts_ok :: "platform \<Rightarrow> bool" where
  "attempts_ok p \<longleftrightarrow>
     (\<forall>a\<in>set (operation_attempts p). attempt_wf (pg_now p) a \<and> at_OperationID a \<in> started_ids p)"

lemma attempt_wf_mono: "attempt_wf n a \<Longrightarrow> n \<le> n' \<Longrightarrow> attempt_wf n' a"
  by (auto simp: attempt_wf_def elim!: option.pred_mono_strong)

lemma succeeded_wf: "attempt_wf n a \<Longrightarrow> attempt_wf n (attempt_succeeded prov lat n aid a)"
  by (simp add: attempt_wf_def attempt_succeeded_def)

lemma failed_wf: "attempt_wf n a \<Longrightarrow> attempt_wf n (attempt_failed cat det n aid a)"
  by (simp add: attempt_wf_def attempt_failed_def)

lemma attempt_fields [simp]:
  "at_OperationID (attempt_succeeded prov lat n aid a) = at_OperationID a"
  "at_OperationID (attempt_failed cat det n aid a) = at_OperationID a"
  by (simp_all add: attempt_succeeded_def attempt_failed_def)

lemma started_ids_other [simp]:
  "started_ids (p\<lparr>operation_attempts := a, operations := o1\<rparr>) = started_ids (p\<lparr>operations := o1\<rparr>)"
  "started_ids (p\<lparr>operations := o1, operation_attempts := a\<rparr>) = started_ids (p\<lparr>operations := o1\<rparr>)"
  "started_ids (p\<lparr>operation_attempts := a\<rparr>) = started_ids p"
  "started_ids (p\<lparr>tenants := b\<rparr>) = started_ids p" "started_ids (p\<lparr>api_keys := c\<rparr>) = started_ids p"
  "started_ids (p\<lparr>usage_events := d\<rparr>) = started_ids p"
  "started_ids (p\<lparr>webhook_endpoints := e\<rparr>) = started_ids p"
  "started_ids (p\<lparr>webhook_deliveries := f\<rparr>) = started_ids p"
  "started_ids (p\<lparr>redis_state := g\<rparr>) = started_ids p" "started_ids (p\<lparr>clock := t\<rparr>) = started_ids p"
  by (simp_all add: started_ids_def)

lemma started_ids_upd:
  assumes "i \<in> started_ids p"
    and "\<And>r. op_ID (f r) = op_ID r \<and> (op_StartedAt r \<noteq> None \<longrightarrow> op_StartedAt (f r) \<noteq> None)"
  shows "i \<in> started_ids (p\<lparr>operations := upd_where c f (operations p)\<rparr>)"
proof -
  obtain r where r: "r \<in> set (operations p)" "op_ID r = i" "op_StartedAt r \<noteq> None"
    using assms(1) by (auto simp: started_ids_def)
  let ?r = "if c r then f r else r"
  have "?r \<in> set (upd_where c f (operations p))" "op_ID ?r = i" "op_StartedAt ?r \<noteq> None"
    using r assms(2) by (auto simp: set_upd_where)
  then show ?thesis by (force simp: started_ids_def)
qed

lemma started_ids_start:
  assumes "i \<in> op_ID ` set (operations p)"
  shows "i \<in> started_ids (p\<lparr>operations :=
           upd_where (start_cond (i, n, t)) (start_row (i, n, t)) (operations p)\<rparr>)"
proof -
  obtain r where r: "r \<in> set (operations p)" "op_ID r = i" using assms by auto
  let ?a = "(i, n, t)"
  have "start_row ?a r \<in> set (upd_where (start_cond ?a) (start_row ?a) (operations p))"
    using r(1) by (rule start.touched) (simp add: start_cond_def r(2))
  moreover have "op_ID (start_row ?a r) = i" "op_StartedAt (start_row ?a r) \<noteq> None"
    using r by (simp_all add: start_row_def)
  ultimately show ?thesis by (force simp: started_ids_def)
qed

lemma change_attempts_ok: "change st p p' \<Longrightarrow> attempts_ok p \<Longrightarrow> attempts_ok p'"
proof (induction rule: change.induct)
  case (op_inserted row p st)
  then show ?case by (auto simp: attempts_ok_def started_ids_def)
next
  case (op_queued st p i)
  then show ?case
    by (auto simp: attempts_ok_def queued_row_def intro!: started_ids_upd)
next
  case (op_started i p row a n)
  let ?p = "p\<lparr>operations := upd_where (start_cond a) (start_row a) (operations p)\<rparr>"
  have "i \<in> started_ids ?p" using op_started(1,7) started_ids_start by simp
  moreover have "j \<in> started_ids ?p" if "j \<in> started_ids p" for j
    using that op_started(7) by (auto intro!: started_ids_upd simp: start_row_def)
  moreover have "attempt_wf (pg_now p) row" using op_started by (simp add: attempt_wf_def)
  ultimately show ?case using op_started by (auto simp: attempts_ok_def)
next
  case (op_succeeded c i out p st prov lat aid)
  then show ?case
    by (auto simp: attempts_ok_def set_upd_where succeeded_wf succeed_row_def
        intro!: started_ids_upd)
next
  case (op_failed ns c i det p st aid cat)
  then show ?case
    by (auto simp: attempts_ok_def set_upd_where failed_wf fail_row_def
        intro!: started_ids_upd)
next
  case (op_cancelled c i t p st)
  then show ?case
    by (auto simp: attempts_ok_def cancel_row_def intro!: started_ids_upd)
next
  case (time_passed p c st)
  then show ?case
    using pg_now_mono [OF time_passed(1)] attempt_wf_mono by (fastforce simp: attempts_ok_def)
qed (auto simp: attempts_ok_def)

lemma attempts_ok_empty: "attempts_ok empty_platform"
  by (simp add: attempts_ok_def empty_platform_def)

interpretation attempts: invariant attempts_ok
  by unfold_locales (rule attempts_ok_empty, erule (1) change_attempts_ok)

section \<open>Deliveries, keys, usage and the delayed set\<close>

definition delivery_wf :: "delivery_row \<Rightarrow> bool" where
  "delivery_wf d \<longleftrightarrow>
     wd_Status d \<in> {DeliveryPending, DeliveryDelivered, DeliveryFailed} \<and>
     0 \<le> wd_AttemptCount d \<and> (wd_AttemptCount d = 0 \<longleftrightarrow> wd_LastAttemptAt d = None) \<and>
     (wd_LastAttemptAt d = None \<longrightarrow> wd_Status d = DeliveryPending) \<and> wd_NextAttemptAt d \<noteq> None"

definition key_wf :: "api_key_row \<Rightarrow> bool" where
  "key_wf k \<longleftrightarrow>
     ak_Status k \<in> {key_active, key_revoked} \<and> (ak_Status k = key_revoked \<longleftrightarrow> ak_RevokedAt k \<noteq> None)"

definition records_ok :: "platform \<Rightarrow> bool" where
  "records_ok p \<longleftrightarrow>
     (\<forall>d\<in>set (webhook_deliveries p). delivery_wf d) \<and> (\<forall>k\<in>set (api_keys p). key_wf k) \<and>
     (\<forall>e\<in>set (usage_events p). us_RecordedAt e \<le> pg_now p) \<and> zset_ok (redis_state p)"

lemma mark_wf: "delivery_wf d \<Longrightarrow> delivery_wf (mark_set (i, m, n) d)"
  by (cases m) (auto simp: delivery_wf_def mark_set_def)

lemma revoke_wf: "revoke_cond (i, n) k \<Longrightarrow> key_wf k \<Longrightarrow> key_wf (revoke_row (i, n) k)"
  by (simp add: key_wf_def revoke_row_def)

lemma change_records_ok: "change st p p' \<Longrightarrow> records_ok p \<Longrightarrow> records_ok p'"
proof (induction rule: change.induct)
  case (delivery_added row p st)
  then show ?case by (auto simp: records_ok_def delivery_wf_def)
next
  case (key_added row p st)
  then show ?case by (auto simp: records_ok_def key_wf_def)
next
  case (time_passed p c st)
  then show ?case
    using pg_now_mono [OF time_passed(1)] by (fastforce simp: records_ok_def)
qed (auto simp: records_ok_def set_upd_where mark_wf revoke_wf)

lemma records_ok_empty: "records_ok empty_platform"
  by (simp add: records_ok_def empty_platform_def zset_ok_def empty_redis_def)

interpretation records: invariant records_ok
  by unfold_locales (rule records_ok_empty, erule (1) change_records_ok)

section \<open>What a run keeps\<close>

text \<open>No row is ever deleted, and what identifies a row never changes.\<close>

definition records_kept :: "platform \<Rightarrow> platform \<Rightarrow> bool" where
  "records_kept p p' \<longleftrightarrow>
     prefix (tenants p) (tenants p') \<and> prefix (usage_events p) (usage_events p') \<and>
     prefix (webhook_endpoints p) (webhook_endpoints p') \<and>
     prefix (map op_identity (operations p)) (map op_identity (operations p')) \<and>
     prefix (map attempt_identity (operation_attempts p))
            (map attempt_identity (operation_attempts p')) \<and>
     prefix (map key_identity (api_keys p)) (map key_identity (api_keys p')) \<and>
     prefix (map delivery_identity (webhook_deliveries p))
            (map delivery_identity (webhook_deliveries p'))"

lemma change_records_kept: "change st p p' \<Longrightarrow> records_kept p p'"
  by (induction rule: change.induct)
    (auto simp: records_kept_def queued.keys start.keys succeed.keys failing.keys cancel.keys
      attempt_ok.keys attempt_bad.keys marking.keys revoking.keys)

interpretation kept: full_history records_kept
  by unfold_locales
    (auto simp: platform_step_change change_records_kept,
     auto simp: records_kept_def intro: prefix_order.trans)

text \<open>Without the start of an attempt, a terminal operation stays as it is.\<close>

definition terminal_frozen :: "platform \<Rightarrow> platform \<Rightarrow> bool" where
  "terminal_frozen p p' \<longleftrightarrow>
     length (operations p) \<le> length (operations p') \<and>
     (\<forall>n<length (operations p). IsTerminal (op_Status (operations p ! n)) \<longrightarrow>
        operations p' ! n = operations p ! n)"

lemma change_terminal_frozen: "change st p p' \<Longrightarrow> \<not> st \<Longrightarrow> terminal_frozen p p'"
  by (induction rule: change.induct)
    (auto simp: terminal_frozen_def nth_append queued.terminal_position succeed.terminal_position
      failing.terminal_position cancel.terminal_position)

lemma terminal_frozen_trans:
  "terminal_frozen p q \<Longrightarrow> terminal_frozen q r \<Longrightarrow> terminal_frozen p r"
  unfolding terminal_frozen_def by (metis order.strict_trans2 order.trans)

interpretation frozen: guarded_history terminal_frozen
  by unfold_locales
    (auto simp: guarded_step_change change_terminal_frozen intro: terminal_frozen_trans,
     auto simp: terminal_frozen_def)

text \<open>A revoked key stays as it is.\<close>

definition revoked_frozen :: "platform \<Rightarrow> platform \<Rightarrow> bool" where
  "revoked_frozen p p' \<longleftrightarrow>
     (\<forall>k\<in>set (api_keys p). ak_Status k = key_revoked \<longrightarrow> k \<in> set (api_keys p'))"

lemma change_revoked_frozen: "change st p p' \<Longrightarrow> revoked_frozen p p'"
proof (induction rule: change.induct)
  case (key_revoked k i p st)
  then show ?case
    by (auto simp: revoked_frozen_def intro!: revoking.untouched) (simp add: revoke_cond_def)
qed (auto simp: revoked_frozen_def)

interpretation revoked: full_history revoked_frozen
  by unfold_locales
    (auto simp: platform_step_change change_revoked_frozen, auto simp: revoked_frozen_def)

text \<open>The status of an operation moves along the edges of the state machine.\<close>

definition op_edge :: "bool \<Rightarrow> string \<Rightarrow> string \<Rightarrow> bool" where
  "op_edge starts s s' \<longleftrightarrow>
     s' = s \<or>
     s = StatusPending \<and> s' = StatusQueued \<or>
     s = StatusRunning \<and>
       s' \<in> {StatusSucceeded, StatusRetrying, StatusFailed, StatusDeadLettered} \<or>
     s' = StatusCancelled \<and> \<not> IsTerminal s \<or>
     starts \<and> s' = StatusRunning"

lemma change_op_edge:
  "change st p p' \<Longrightarrow>
     length (operations p) \<le> length (operations p') \<and>
     (\<forall>n<length (operations p).
        op_edge st (op_Status (operations p ! n)) (op_Status (operations p' ! n)))"
  by (induction rule: change.induct)
    (auto simp: op_edge_def nth_append upd_where_def op_update_defs IsTerminal_iff)

end
