(* ===== verification/Sample.thy ===== *)
theory Sample
  imports Lifecycle
begin

text \<open>
  Concrete states and worlds: a tenant whose operation runs through its life, an API key and a
  webhook endpoint, each reached by the services' own statements, and the worlds in which every
  call succeeds. The witnesses apply the theorems to them.
\<close>

section \<open>Worlds\<close>

definition sample_turn :: "nat \<Rightarrow> platform turn" where
  "sample_turn n = \<lparr>others = (\<lambda>p. p), outcome = Done, fresh = of_nat (100 + n),
                    entropy = (\<lambda>i. of_nat (n + i)), reply = Some 200\<rparr>"

definition sample_world :: "platform \<Rightarrow> platform world" where
  "sample_world p = \<lparr>store = p, tape = sample_turn, pos = 0\<rparr>"

text \<open>The same world, but the call at a given position is refused, or its reply is this one.\<close>

definition refusing :: "nat \<Rightarrow> platform world \<Rightarrow> platform world" where
  "refusing k w = w\<lparr>tape := (tape w)(k := (tape w k)\<lparr>outcome := Refused\<rparr>)\<rparr>"

definition answering :: "int option \<Rightarrow> platform world \<Rightarrow> platform world" where
  "answering a w = w\<lparr>tape := (\<lambda>n. (tape w n)\<lparr>reply := a\<rparr>)\<rparr>"

lemma sample_world_fields [simp]:
  "store (sample_world p) = p" "pos (sample_world p) = 0" "tape (sample_world p) = sample_turn"
  by (simp_all add: sample_world_def)

lemma sample_turn_fields [simp]:
  "others (sample_turn n) = id" "outcome (sample_turn n) = Done"
  "fresh (sample_turn n) = of_nat (100 + n)" "reply (sample_turn n) = Some 200"
  by (simp_all add: sample_turn_def id_def)

lemma quiet_sample [simp]: "quiet (sample_world p)"
  by (simp add: quiet_def)

lemma quiet_answering [simp]: "quiet (answering a w) = quiet w"
  by (simp add: quiet_def answering_def)

lemma answering_fields [simp]:
  "store (answering a w) = store w" "pos (answering a w) = pos w"
  "reply (tape (answering a w) n) = a"
  by (simp_all add: answering_def)

lemma tame_sample [simp]: "tame S (sample_world p)"
  by (simp add: quiet_tame)

section \<open>States\<close>

definition tenant_a :: platform where
  "tenant_a = snd (tenant_stmt ''acme'' ''standard'' 100 1000 10 1
                     (empty_platform\<lparr>clock := 5000\<rparr>))"

definition op_pending :: platform where
  "op_pending = snd (insert_operation Some (UuidText 1) (Some ''k1'') ''summarize''
                       (Some ''{}'') 3 2 tenant_a)"

definition op_queued :: platform where
  "op_queued = snd (queued_stmt (UuidText 2) 0 op_pending)"

definition op_running :: platform where
  "op_running = snd (start_attempt_tx (UuidText 2) ''w1'' 1 3 op_queued)"

definition op_succeeded :: platform where
  "op_succeeded = snd (success_tx Some (UuidText 2) (UuidText 3) (Some ''{}'') ''gemini'' 12 0
                         op_running)"

definition op_cancelled :: platform where
  "op_cancelled = snd (cancel_stmt (UuidText 1) (UuidText 2) 0 op_running)"

definition hook_added :: platform where
  "hook_added = snd (endpoint_stmt (UuidText 1) ''http://a'' ''s'' 4 op_succeeded)"

definition key_added :: platform where
  "key_added = snd (api_key_stmt (UuidText 1) ''nx_live_'' ''h1'' 5 hook_added)"

definition key_gone :: platform where
  "key_gone = snd (revoke_stmt (UuidText 5) 0 key_added)"

lemma sample_reachable:
  "reachable tenant_a" "reachable op_pending" "reachable op_queued" "reachable op_running"
  "reachable op_succeeded" "reachable op_cancelled" "reachable hook_added" "reachable key_added"
  "reachable key_gone"
proof -
  note gs = reachable_step [OF _ platform_step.guarded]
  have "reachable (empty_platform\<lparr>clock := 5000\<rparr>)"
    by (rule gs [OF reachable_empty guarded_step.time_passes]) (simp add: empty_platform_def)
  then show a: "reachable tenant_a"
    unfolding tenant_a_def by (rule gs) (rule guarded_step.new_tenant)
  then show b: "reachable op_pending"
    unfolding op_pending_def by (rule gs) (rule guarded_step.insert_op)
  then show c: "reachable op_queued"
    unfolding op_queued_def by (rule gs) (rule guarded_step.to_queued)
  then show d: "reachable op_running"
    unfolding op_running_def by (rule reachable_step) (rule platform_step.start_attempt)
  then show e: "reachable op_succeeded"
    unfolding op_succeeded_def by (rule gs) (rule guarded_step.success)
  from d show "reachable op_cancelled"
    unfolding op_cancelled_def by (rule gs) (rule guarded_step.cancelling)
  from e show f: "reachable hook_added"
    unfolding hook_added_def by (rule gs) (rule guarded_step.endpoint)
  then show g: "reachable key_added"
    unfolding key_added_def by (rule gs) (rule guarded_step.new_key)
  then show "reachable key_gone"
    unfolding key_gone_def by (rule gs) (rule guarded_step.revoke)
qed

text \<open>Their rows, evaluated.\<close>

definition sample_op :: operation where
  "sample_op = \<lparr>op_ID = 2, op_TenantID = 1, op_IdempotencyKey = Some ''k1'',
                op_OpType = ''summarize'', op_Status = StatusPending, op_Input = ''{}'',
                op_Output = None, op_ErrorMessage = None, op_AttemptCount = 0, op_MaxRetries = 3,
                op_CreatedAt = 5000, op_StartedAt = None, op_CompletedAt = None\<rparr>"

lemmas sample_defs =
  tenant_a_def op_pending_def op_queued_def op_running_def op_succeeded_def op_cancelled_def
  hook_added_def key_added_def key_gone_def

lemma sample_operations [simp]:
  "operations tenant_a = []"
  "operations op_pending = [sample_op]"
  "operations op_queued = [sample_op\<lparr>op_Status := StatusQueued\<rparr>]"
  "operations op_running =
     [sample_op\<lparr>op_Status := StatusRunning, op_AttemptCount := 1, op_StartedAt := Some 5000\<rparr>]"
  "operations op_succeeded =
     [sample_op\<lparr>op_Status := StatusSucceeded, op_AttemptCount := 1, op_Output := Some ''{}'',
                op_StartedAt := Some 5000, op_CompletedAt := Some 5000\<rparr>]"
  "operations op_cancelled =
     [sample_op\<lparr>op_Status := StatusCancelled, op_AttemptCount := 1, op_StartedAt := Some 5000,
                op_CompletedAt := Some 5000\<rparr>]"
  by (code_simp)+

text \<open>A request with a tenant, a path parameter and a body.\<close>

definition sample_req :: "idtext \<Rightarrow> idtext \<Rightarrow> 'q option \<Rightarrow> 'q request" where
  "sample_req t i b =
     \<lparr>h_tenant = t, h_reqid = ''r1'', h_idem = [], h_quota = [], url_id = i, q_status = [],
      q_limit = [], q_offset = [], decoded = b\<rparr>"

lemma sample_req_fields [simp]:
  "h_tenant (sample_req t i b) = t" "url_id (sample_req t i b) = i"
  "decoded (sample_req t i b) = b" "q_offset (sample_req t i b) = []"
  "q_status (sample_req t i b) = []" "q_limit (sample_req t i b) = []"
  "h_quota (sample_req t i b) = []"
  by (simp_all add: sample_req_def)

abbreviation sample_get :: "idtext \<Rightarrow> idtext \<Rightarrow> unit request" where
  "sample_get t i \<equiv> sample_req t i None"

end
