(* ===== verification/Admission.thy ===== *)
theory Admission
  imports Sample
begin

text \<open>
  Creating an operation: which requests are refused, what a new operation leaves in the tables and
  in the queue, and idempotency, under any interleaving and for replays after any later history.
\<close>

section \<open>Requests\<close>

definition creates :: "createOperationReq request \<Rightarrow> uuid \<Rightarrow> string \<Rightarrow> json option \<Rightarrow> bool" where
  "creates r t ty inp \<longleftrightarrow>
     h_tenant r = UuidText t \<and> ty \<noteq> [] \<and>
     decoded r = Some \<lparr>cr_OpType = ty, cr_Input = inp\<rparr>"

definition idem_of :: "createOperationReq request \<Rightarrow> string option" where
  "idem_of r = (if h_idem r \<noteq> [] then Some (h_idem r) else None)"

text \<open>The operation a response carries, with the status of the response.\<close>

definition op_answer :: "ops_body response \<Rightarrow> (int \<times> operation) option" where
  "op_answer resp =
     (case r_body resp of JSON (OperationBody op) \<Rightarrow> Some (r_status resp, op) | _ \<Rightarrow> None)"

lemma op_answer_iff: "op_answer resp = Some (c, op) \<longleftrightarrow> resp = WriteJSON c (OperationBody op)"
  by (cases resp) (auto simp: op_answer_def WriteJSON_def split: body.splits ops_body.splits)

definition sample_create :: "createOperationReq request" where
  "sample_create =
     \<lparr>h_tenant = UuidText 1, h_reqid = ''r1'', h_idem = ''k1'', h_quota = [], url_id = EmptyText,
      q_status = [], q_limit = [], q_offset = [],
      decoded = Some \<lparr>cr_OpType = ''summarize'', cr_Input = Some ''{}''\<rparr>\<rparr>"

section \<open>Identity\<close>

lemma row_persists:
  assumes "platform_step\<^sup>*\<^sup>* p q" and "r \<in> set (operations p)"
  obtains r' where "r' \<in> set (operations q)" and "op_identity r' = op_identity r"
proof -
  have "prefix (map op_identity (operations p)) (map op_identity (operations q))"
    using kept.run [OF assms(1)] by (simp add: records_kept_def)
  then have "op_identity r \<in> op_identity ` set (operations q)"
    using assms(2) set_mono_prefix by fastforce
  then show ?thesis using that by auto
qed

lemma identity_fields:
  "op_identity r' = op_identity r \<Longrightarrow>
     op_ID r' = op_ID r \<and> op_TenantID r' = op_TenantID r \<and>
     op_IdempotencyKey r' = op_IdempotencyKey r"
  by (simp add: op_identity_def)

lemma same_key_same_row:
  assumes "schema_ok p" and "r \<in> set (operations p)" and "r' \<in> set (operations p)"
    and "op_TenantID r' = op_TenantID r" and "op_IdempotencyKey r = Some k"
    and "op_IdempotencyKey r' = Some k"
  shows "r' = r"
  using assms partial_unique_same [of idem_index "operations p" r' r]
  by (auto simp: schema_ok_def unique_indexes_def idem_index_def)

section \<open>The repository method\<close>

lemma insert_operation_Inr:
  assumes "insert_operation jb t k ty inp n u p = (Inr op, p')"
  shows "t = UuidText (op_TenantID op) \<and> op_IdempotencyKey op = k \<and> op \<in> set (operations p')"
  using assms
  by (auto simp: insert_operation_def with_uuid_def Let_def
      split: idtext.splits option.splits if_splits)

lemma select_by_idem_Inr:
  assumes "select_by_idem t k u p = (Inr op, p')"
  shows "t = UuidText (op_TenantID op) \<and> op_IdempotencyKey op = Some k \<and>
    op \<in> set (operations p') \<and> p' = p"
  using assms
  by (auto simp: select_by_idem_def with_uuid_def reading_def dest: first_row_Inr
      split: idtext.splits)

lemma select_by_idem_NoRows:
  assumes "select_by_idem (UuidText x) k u p = (Inl e, p')"
    and "r \<in> set (operations p)" and "op_TenantID r = x"
  shows "op_IdempotencyKey r \<noteq> Some k"
  using assms by (auto simp: select_by_idem_def reading_def first_row_Inl)

lemma getByIdempotencyKey_Inr:
  assumes "tame S w" and "getByIdempotencyKey t k w = (Inr op, w1)"
  shows "t = UuidText (op_TenantID op) \<and> op_IdempotencyKey op = Some k \<and>
    op \<in> set (operations (store w1))"
proof (rule call_result [OF assms(1) assms(2) [unfolded getByIdempotencyKey_def]])
  fix u p
  assume "select_by_idem t k u p = (Inr op, store w1)"
  then show ?thesis using select_by_idem_Inr by blast
qed simp

lemma insert_call_Inr:
  assumes "tame S w" and "call (insert_operation jb t k ty inp n) w = (Inr op, w1)"
  shows "t = UuidText (op_TenantID op) \<and> op_IdempotencyKey op = k \<and>
    op \<in> set (operations (store w1))"
proof (rule call_result [OF assms])
  fix u p
  assume "insert_operation jb t k ty inp n u p = (Inr op, store w1)"
  then show ?thesis by (rule insert_operation_Inr)
qed simp

context statements
begin

lemma getByIdempotencyKey_moves: "tame S w \<Longrightarrow> moves S w (snd (getByIdempotencyKey t k w))"
  unfolding getByIdempotencyKey_def select_by_idem_def by (rule uuid_reading_moves)

text \<open>The two ways to succeed: the row was there, or the INSERT made it.\<close>

lemma CreateOperation_cases:
  assumes "tame S w" and "CreateOperation jb t ty inp k n w = (Inr (op, existed), w1)"
  obtains (found) key v where "k = Some key" and "existed" and "moves S w v"
      and "getByIdempotencyKey t key v = (Inr op, w1)"
    | (inserted) v where "\<not> existed" and "moves S w v"
      and "call (insert_operation jb t k ty inp n) v = (Inr op, w1)"
      and "\<forall>key. k = Some key \<longrightarrow> (\<exists>e. is_NoRows e \<and> getByIdempotencyKey t key w = (Inl e, v))"
proof -
  define ins where "ins = call (insert_operation jb t k ty inp n)"
  have sel: "moves S v v'" if "tame S v" "getByIdempotencyKey t key v = (x, v')" for key v v' x
    using getByIdempotencyKey_moves [OF that(1), of t key] that(2) by simp
  have "moves S v (snd (ins v))" if "tame S v" for v
    unfolding ins_def by (rule op_call [OF _ has_insert_op]) (rule that)
  then have im: "moves S v v'" if "tame S v" "ins v = (x, v')" for v v' x
    using that by (metis snd_conv)
  note def = assms(2) [unfolded CreateOperation_def Let_def, folded ins_def]
  show ?thesis
  proof (cases k)
    case None
    obtain x v where "ins w = (x, v)" by fastforce
    with def None show ?thesis
      by (auto simp: ins_def split: sum.splits intro: inserted)
  next
    case (Some key)
    obtain x v where s: "getByIdempotencyKey t key w = (x, v)" by fastforce
    note mv = sel [OF assms(1) s]
    note tv = moves_tame [OF mv assms(1)]
    show ?thesis
    proof (cases x)
      case (Inr o1)
      with def Some s show ?thesis by (auto intro: found [OF Some _ moves_refl])
    next
      case (Inl e)
      obtain y v1 where i: "ins v = (y, v1)" by fastforce
      obtain z v2 where g: "getByIdempotencyKey t key v1 = (z, v2)" by fastforce
      from def Some s Inl i g have nr: "is_NoRows e" by (auto split: if_splits)
      note mv1 = moves_trans [OF mv im [OF tv i]]
      show ?thesis
      proof (cases y)
        case (Inr o2)
        with def Some s Inl i nr show ?thesis
          by (auto simp: ins_def intro!: inserted [OF _ mv])
      next
        case (Inl e2)
        with def Some s \<open>x = Inl e\<close> i g nr show ?thesis
          by (auto split: if_splits sum.splits intro!: found [OF Some _ mv1])
      qed
    qed
  qed
qed

lemma CreateOperation_row:
  assumes "tame S w" and "CreateOperation jb t ty inp k n w = (Inr (op, existed), w1)"
  shows "t = UuidText (op_TenantID op) \<and> op_IdempotencyKey op = k \<and>
    op \<in> set (operations (store w1))"
  using assms
proof (cases rule: CreateOperation_cases)
  case (found key v)
  show ?thesis
    using getByIdempotencyKey_Inr [OF moves_tame [OF found(3) assms(1)] found(4)] found(1) by simp
next
  case (inserted v)
  show ?thesis
    using insert_call_Inr [OF moves_tame [OF inserted(2) assms(1)] inserted(3)] by simp
qed

end

text \<open>Once a row has the key, the method finds it.\<close>

lemma CreateOperation_replayed:
  assumes "tame platform_step w" and "r \<in> set (operations (store w))"
    and "op_TenantID r = t" and "op_IdempotencyKey r = Some key"
    and "CreateOperation jb (UuidText t) ty inp (Some key) n w = (Inr (op, existed), w1)"
  shows existed
proof (rule ccontr)
  assume "\<not> existed"
  with assms(1,5) obtain e v where e: "is_NoRows e"
    and g: "getByIdempotencyKey (UuidText t) key w = (Inl e, v)"
    by (cases rule: full.CreateOperation_cases) auto
  show False
  proof (rule call_result [OF assms(1) g [unfolded getByIdempotencyKey_def]])
    fix u p
    assume p: "platform_step\<^sup>*\<^sup>* (store w) p"
      and s: "select_by_idem (UuidText t) key u p = (Inl e, store v)"
    obtain r' where "r' \<in> set (operations p)" "op_identity r' = op_identity r"
      using row_persists [OF p assms(2)] by blast
    then show False
      using select_by_idem_NoRows [OF s] identity_fields [of r' r] assms(3,4) by auto
  qed (use e in auto)
qed

section \<open>The handler\<close>

lemma queued_identity [simp]: "op_identity (op\<lparr>op_Status := s\<rparr>) = op_identity op"
  by (simp add: op_identity_def)

text \<open>A response with an operation, taken apart.\<close>

lemma createOperation_answer:
  assumes "fst (createOperation jb enc r w) = WriteJSON c (OperationBody op)"
  obtains op' existed w1 and req :: createOperationReq where
    "CreateOperation jb (h_tenant r) (cr_OpType req) (cr_Input req) (idem_of r) 3 w =
       (Inr (op', existed), w1)"
    and "op_identity op = op_identity op'" and "c = (if existed then 200 else 202)"
    and "tame platform_step w \<Longrightarrow>
         platform_step\<^sup>*\<^sup>* (store w1) (store (snd (createOperation jb enc r w)))"
proof -
  obtain req where ok: "h_tenant r \<noteq> EmptyText" "decoded r = Some req" "cr_OpType req \<noteq> []"
    using assms by (auto simp: createOperation_def Let_def split: option.splits if_splits)
  obtain x w1 where co:
    "CreateOperation jb (h_tenant r) (cr_OpType req) (cr_Input req) (idem_of r) 3 w = (x, w1)"
    by fastforce
  note co' = co [unfolded idem_of_def]
  obtain op' existed where x: "x = Inr (op', existed)"
    using assms ok co' by (cases x) (auto simp: createOperation_def Let_def)
  define job where "job = \<lparr>j_OperationID = op_ID op', j_TenantID = h_tenant r,
    j_OpType = op_OpType op', j_Attempt = 0, j_EnqueuedAt = clock (store w1)\<rparr>"
  obtain e w2 where en: "Enqueue enc job w1 = (e, w2)" by fastforce
  obtain q w3 where tq: "TransitionToQueued (UuidText (op_ID op')) w2 = (q, w3)" by fastforce
  have resp: "op_identity op = op_identity op'" "c = (if existed then 200 else 202)"
    using assms ok co' x en tq
    by (auto simp: createOperation_def Let_def job_def split: sum.splits if_splits)
  have final: "snd (createOperation jb enc r w) = (if existed then w1 else w3)"
    using assms ok co' x en tq
    by (auto simp: createOperation_def Let_def job_def split: sum.splits if_splits)
  have "platform_step\<^sup>*\<^sup>* (store w1) (store (snd (createOperation jb enc r w)))"
    if t: "tame platform_step w"
  proof -
    have t1: "tame platform_step w1"
      using full.CreateOperation_moves [OF t, of jb "h_tenant r"] co
      by (metis moves_tame snd_conv t)
    have m2: "moves platform_step w1 w2" using full.Enqueue_moves [OF t1] en by (metis snd_conv)
    have m3: "moves platform_step w2 w3"
      using full.TransitionToQueued_moves [OF moves_tame [OF m2 t1]] tq by (metis snd_conv)
    show ?thesis using moves_trans [OF m2 m3] by (simp add: final moves_def)
  qed
  then show ?thesis using that [OF co [unfolded x] resp] by blast
qed

lemma createOperation_row:
  assumes "tame platform_step w" and "fst (createOperation jb enc r w) = WriteJSON c (OperationBody op)"
  obtains row where "row \<in> set (operations (store (snd (createOperation jb enc r w))))"
    and "op_identity row = op_identity op" and "h_tenant r = UuidText (op_TenantID op)"
    and "op_IdempotencyKey op = idem_of r"
proof -
  obtain op' ex w1 and req :: createOperationReq where co:
    "CreateOperation jb (h_tenant r) (cr_OpType req) (cr_Input req) (idem_of r) 3 w = (Inr (op', ex), w1)"
    and i: "op_identity op = op_identity op'"
    and run: "platform_step\<^sup>*\<^sup>* (store w1) (store (snd (createOperation jb enc r w)))"
    using createOperation_answer [OF assms(2)] assms(1) by metis
  note row = full.CreateOperation_row [OF assms(1) co]
  obtain row where "row \<in> set (operations (store (snd (createOperation jb enc r w))))"
    "op_identity row = op_identity op'"
    using row_persists [OF run] row by blast
  then show ?thesis using that row i identity_fields [OF i] by auto
qed

text \<open>C8: Let a create request with a key be answered with an operation. A request of the same tenant with
  the same key after any later history, under any interleaving and any failures, may be answered
  with an error; but if it gets an operation back, it gets the one the first request was answered
  with: status 200, the same id, tenant, key, type, input, retries and creation time.\<close>

theorem create_idempotent:
  assumes "reachable (store w1)" and "tame platform_step w1" and "tame platform_step w2"
    and "h_tenant r2 = h_tenant r1" and "h_idem r2 = h_idem r1" and "h_idem r1 \<noteq> []"
    and "fst (createOperation jb enc r1 w1) = WriteJSON c1 (OperationBody o1)"
    and "platform_step\<^sup>*\<^sup>* (store (snd (createOperation jb enc r1 w1))) (store w2)"
    and "fst (createOperation jb enc r2 w2) = WriteJSON c2 (OperationBody o2)"
  shows "c2 = 200 \<and> op_identity o2 = op_identity o1"
proof -
  obtain row where row: "row \<in> set (operations (store (snd (createOperation jb enc r1 w1))))"
    "op_identity row = op_identity o1" "h_tenant r1 = UuidText (op_TenantID o1)"
    "op_IdempotencyKey o1 = idem_of r1"
    using createOperation_row [OF assms(2,7)] by blast
  obtain row2 where row2: "row2 \<in> set (operations (store w2))" "op_identity row2 = op_identity o1"
    using row_persists [OF assms(8) row(1)] row(2) by metis
  obtain row3 where row3: "row3 \<in> set (operations (store (snd (createOperation jb enc r2 w2))))"
    "op_identity row3 = op_identity o2" "h_tenant r2 = UuidText (op_TenantID o2)"
    "op_IdempotencyKey o2 = idem_of r2"
    using createOperation_row [OF assms(3,9)] by blast
  have m2: "platform_step\<^sup>*\<^sup>* (store w2) (store (snd (createOperation jb enc r2 w2)))"
    using full.createOperation_moves [OF assms(3)] by (simp add: moves_def)
  obtain row4 where row4: "row4 \<in> set (operations (store (snd (createOperation jb enc r2 w2))))"
    "op_identity row4 = op_identity o1"
    using row_persists [OF m2 row2(1)] row2(2) by metis
  have "reachable (store (snd (createOperation jb enc r1 w1)))"
    using reachable_moves [OF assms(1) full.createOperation_moves [OF assms(2)]] .
  then have "reachable (store (snd (createOperation jb enc r2 w2)))"
    using assms(8) m2 by (auto simp: reachable_def)
  then have sch: "schema_ok (store (snd (createOperation jb enc r2 w2)))" by (rule schema.at_reachable)
  note f3 = identity_fields [OF row3(2)] and f4 = identity_fields [OF row4(2)]
    and f2 = identity_fields [OF row2(2)]
  have key: "idem_of r1 = Some (h_idem r1)" "idem_of r2 = Some (h_idem r1)"
    using assms(5,6) by (simp_all add: idem_of_def)
  have "row4 = row3"
    by (rule same_key_same_row [OF sch row3(1) row4(1), where k = "h_idem r1"])
      (use f3 f4 row row3 key assms(4) in auto)
  then have same: "op_identity o2 = op_identity o1" using row3(2) row4(2) by simp
  obtain op' ex w' and req :: createOperationReq where co:
    "CreateOperation jb (h_tenant r2) (cr_OpType req) (cr_Input req) (idem_of r2) 3 w2 =
       (Inr (op', ex), w')"
    and c2: "c2 = (if ex then 200 else 202)"
    using createOperation_answer [OF assms(9)] by metis
  have ex by (rule CreateOperation_replayed [OF assms(3) row2(1)])
      (use f2 row key co assms(4) in auto)
  with c2 same show ?thesis by simp
qed

theorem create_idempotent_witness:
  "let w1 = sample_world tenant_a;
       w2 = sample_world (store (snd (createOperation Some j_OpType sample_create w1)));
       op = sample_op\<lparr>op_ID := 101, op_Status := StatusQueued\<rparr>
   in fst (createOperation Some j_OpType sample_create w1) = WriteJSON 202 (OperationBody op) \<and>
      fst (createOperation Some j_OpType sample_create w2) = WriteJSON 200 (OperationBody op)"
proof -
  let ?c = "\<lambda>p. createOperation Some j_OpType sample_create (sample_world p)"
  let ?op = "sample_op\<lparr>op_ID := 101, op_Status := StatusQueued\<rparr>"
  let ?p = "store (snd (?c tenant_a))"
  have "op_answer (fst (?c tenant_a)) = Some (202, ?op)" by code_simp
  then have a1: "fst (?c tenant_a) = WriteJSON 202 (OperationBody ?op)" by (simp add: op_answer_iff)
  have "map_option snd (op_answer (fst (?c ?p))) = Some ?op" by code_simp
  then obtain c where a2: "fst (?c ?p) = WriteJSON c (OperationBody ?op)"
    by (auto simp: op_answer_iff)
  have "c = 200 \<and> op_identity ?op = op_identity ?op"
    by (rule create_idempotent [OF _ _ _ refl refl _ a1 _ a2])
      (simp_all add: sample_reachable sample_create_def)
  with a1 a2 show ?thesis by simp
qed

section \<open>A new operation\<close>

definition new_operation ::
    "createOperationReq request \<Rightarrow> uuid \<Rightarrow> string \<Rightarrow> json \<Rightarrow> uuid \<Rightarrow> gotime \<Rightarrow> operation" where
  "new_operation r t ty j u now =
     \<lparr>op_ID = u, op_TenantID = t, op_IdempotencyKey = idem_of r, op_OpType = ty,
      op_Status = StatusPending, op_Input = j, op_Output = None, op_ErrorMessage = None,
      op_AttemptCount = 0, op_MaxRetries = 3, op_CreatedAt = now, op_StartedAt = None,
      op_CompletedAt = None\<rparr>"

text \<open>The position of the INSERT among the handler's calls: after the SELECT, if there is a key.\<close>

definition insert_pos :: "createOperationReq request \<Rightarrow> platform world \<Rightarrow> nat" where
  "insert_pos r w = (if h_idem r = [] then pos w else Suc (pos w))"

definition insertable ::
    "(json \<Rightarrow> json option) \<Rightarrow> createOperationReq request \<Rightarrow> uuid \<Rightarrow> string \<Rightarrow> json \<Rightarrow> json \<Rightarrow>
     platform world \<Rightarrow> bool" where
  "insertable jb r t ty i j w \<longleftrightarrow>
     creates r t ty (Some i) \<and> jb i = Some j \<and>
     t \<in> tn_ID ` set (tenants (store w)) \<and> \<not> idem_taken t (idem_of r) (store w) \<and>
     fresh (tape w (insert_pos r w)) \<notin> op_ID ` set (operations (store w)) \<and>
     calm w (pos w) \<and> calm w (insert_pos r w)"

lemma insertable_row:
  assumes "insertable jb r t ty i j w" and "decoded r = Some req"
  defines "row \<equiv> new_operation r t ty j (fresh (tape w (insert_pos r w))) (pg_now (store w))"
  shows "insert_operation jb (h_tenant r) (idem_of r) (cr_OpType req) (cr_Input req) 3
      (fresh (tape w (insert_pos r w))) (store w) =
    (Inr row, (store w)\<lparr>operations := operations (store w) @ [row]\<rparr>)"
  using assms(1,2)
  by (simp add: insertable_def creates_def insert_operation_def int4_ok_def no_tenant_def
      new_operation_def row_def Let_def)

lemma CreateOperation_new:
  assumes "insertable jb r t ty i j w"
  defines "row \<equiv> new_operation r t ty j (fresh (tape w (insert_pos r w))) (pg_now (store w))"
  assumes "decoded r = Some req"
  shows "CreateOperation jb (h_tenant r) (cr_OpType req) (cr_Input req) (idem_of r) 3 w =
    (Inr (row, False),
     w\<lparr>pos := Suc (insert_pos r w), store := (store w)\<lparr>operations := operations (store w) @ [row]\<rparr>\<rparr>)"
proof -
  have c: "calm w (pos w)" "calm w (insert_pos r w)" using assms(1) by (simp_all add: insertable_def)
  have i: "creates r t ty (Some i)" "jb i = Some j"
    using assms(1) by (simp_all add: insertable_def)
  note ins = insertable_row [OF assms(1,3), folded row_def]
  show ?thesis
  proof (cases "h_idem r = []")
    case True
    then show ?thesis
      using ins c by (simp add: CreateOperation_def idem_of_def insert_pos_def call_calm)
  next
    case False
    then have sel: "select_by_idem (h_tenant r) (h_idem r) (fresh (tape w (pos w))) (store w) =
        (Inl NoRows, store w)"
      using assms(1) i
      by (auto simp: select_by_idem_def reading_def first_row_Inl insertable_def idem_taken_def
          idem_of_def creates_def)
    show ?thesis
      using False ins c
      by (simp add: CreateOperation_def idem_of_def insert_pos_def call_calm sel
          getByIdempotencyKey_def)
  qed
qed

definition first_job :: "createOperationReq request \<Rightarrow> operation \<Rightarrow> gotime \<Rightarrow> job" where
  "first_job r op now =
     \<lparr>j_OperationID = op_ID op, j_TenantID = h_tenant r, j_OpType = op_OpType op, j_Attempt = 0,
      j_EnqueuedAt = now\<rparr>"

lemma createOperation_unfold:
  assumes "creates r t ty inp"
    and "CreateOperation jb (h_tenant r) ty inp (idem_of r) 3 w = (Inr (op, False), w1)"
  shows "createOperation jb enc r w =
    (case Enqueue enc (first_job r op (clock (store w1))) w1 of
       (Inl err, w2) \<Rightarrow>
         (WriteError 500 ''internal_error'' (Detail ''failed to enqueue operation'') (h_reqid r), w2)
     | (Inr _, w2) \<Rightarrow>
         (case TransitionToQueued (UuidText (op_ID op)) w2 of
            (Inl err, w3) \<Rightarrow>
              (WriteError 500 ''internal_error'' (Detail ''failed to update operation state'')
                 (h_reqid r), w3)
          | (Inr _, w3) \<Rightarrow>
              (WriteJSON 202 (OperationBody (op\<lparr>op_Status := StatusQueued\<rparr>)), w3)))"
  using assms
  by (simp add: createOperation_def creates_def Let_def idem_of_def first_job_def split: if_splits)

lemma createOperation_new:
  assumes "quiet w" and "insertable jb r t ty i j w"
  defines "row \<equiv> (new_operation r t ty j (fresh (tape w (insert_pos r w))) (pg_now (store w)))
                    \<lparr>op_Status := StatusQueued\<rparr>"
  shows "fst (createOperation jb enc r w) = WriteJSON 202 (OperationBody row) \<and>
    store (snd (createOperation jb enc r w)) =
      (store w)\<lparr>operations := operations (store w) @ [row],
                redis_state := redis_lpush (enc (first_job r row (clock (store w))))
                                 (redis_state (store w))\<rparr>"
proof -
  define u where "u = fresh (tape w (insert_pos r w))"
  define op where "op = new_operation r t ty j u (pg_now (store w))"
  have u: "u \<notin> op_ID ` set (operations (store w))"
    using assms(2) by (simp add: insertable_def u_def)
  have i: "creates r t ty (Some i)" using assms(2) by (simp add: insertable_def)
  then have dec: "decoded r = Some \<lparr>cr_OpType = ty, cr_Input = Some i\<rparr>" by (simp add: creates_def)
  note co = CreateOperation_new [OF assms(2) dec, simplified, folded u_def, folded op_def]
  have op: "op_ID op = u" "op_Status op = StatusPending" by (simp_all add: op_def new_operation_def)
  have row: "row = op\<lparr>op_Status := StatusQueued\<rparr>" by (simp add: row_def op_def u_def)
  have q: "queued_cond u op" "queued_row u op = row"
    using op row by (simp_all add: queued_cond_def queued_row_def)
  have q2: "upd_where (queued_cond u) (queued_row u) (operations (store w)) = operations (store w)"
    using u by (intro upd_where_none) (auto simp: queued_cond_def)
  have "first_job r op n = first_job r row n" for n
    by (simp add: first_job_def row)
  then show ?thesis
    using assms(1) q q2 op row
    by (simp add: createOperation_unfold [OF i co] Enqueue_def TransitionToQueued_def call_quiet
        lpush_stmt_def redis_cmd_def queued_stmt_def)
qed

text \<open>When nothing interferes, a valid request with a key not used before is answered with 202
  and the QUEUED operation: exactly one row is added to the operations, exactly one job is pushed
  behind the jobs in the queue, and nothing else changes.\<close>

theorem create_new:
  assumes "quiet w" and "insertable jb r t ty i j w"
  defines "row \<equiv> (new_operation r t ty j (fresh (tape w (insert_pos r w))) (pg_now (store w)))
                    \<lparr>op_Status := StatusQueued\<rparr>"
  shows "fst (createOperation jb enc r w) = WriteJSON 202 (OperationBody row) \<and>
    store (snd (createOperation jb enc r w)) =
      (store w)\<lparr>operations := operations (store w) @ [row],
                redis_state := redis_lpush (enc (first_job r row (clock (store w))))
                                 (redis_state (store w))\<rparr>"
  unfolding row_def using assms(1,2) by (rule createOperation_new)

theorem create_new_witness:
  "fst (createOperation Some j_OpType sample_create (sample_world tenant_a)) =
     WriteJSON 202 (OperationBody (sample_op\<lparr>op_ID := 101, op_Status := StatusQueued\<rparr>)) \<and>
   main_queue (redis_state (store (snd
     (createOperation Some j_OpType sample_create (sample_world tenant_a))))) = [''summarize'']"
proof -
  have i: "insertable Some sample_create 1 ''summarize'' ''{}'' ''{}'' (sample_world tenant_a)"
  proof -
    have "1 \<in> tn_ID ` set (tenants tenant_a)" by code_simp
    then show ?thesis
      by (simp add: insertable_def creates_def sample_create_def idem_taken_def calm_def)
  qed
  have p: "insert_pos sample_create (sample_world tenant_a) = 1" by code_simp
  have row: "new_operation sample_create 1 ''summarize'' ''{}'' 101 (pg_now tenant_a) =
      sample_op\<lparr>op_ID := 101\<rparr>" by code_simp
  have q: "main_queue (redis_state tenant_a) = []" by code_simp
  show ?thesis
    using create_new [OF quiet_sample i, of j_OpType]
    by (simp add: p row q redis_lpush_def first_job_def) (simp add: sample_op_def)
qed

definition same_key :: "createOperationReq request \<Rightarrow> uuid \<Rightarrow> operation \<Rightarrow> bool" where
  "same_key r t row \<longleftrightarrow> op_TenantID row = t \<and> op_IdempotencyKey row = Some (h_idem r)"

lemma createOperation_found:
  assumes "calm w (pos w)" and "creates r t ty inp" and "h_idem r \<noteq> []"
    and "first_row (same_key r t) (operations (store w)) = Inr row"
  shows "createOperation jb enc r w = (WriteJSON 200 (OperationBody row), w\<lparr>pos := Suc (pos w)\<rparr>)"
  using assms
  by (simp add: createOperation_def creates_def Let_def CreateOperation_def call_calm
      getByIdempotencyKey_def select_by_idem_def reading_def same_key_def [abs_def])

lemma createOperation_stored:
  assumes "calm w (pos w)" and "schema_ok (store w)" and "creates r t ty inp" and "h_idem r \<noteq> []"
    and "row \<in> set (operations (store w))" and "op_TenantID row = t"
    and "op_IdempotencyKey row = Some (h_idem r)"
  shows "createOperation jb enc r w =
    (WriteJSON 200 (OperationBody row), w\<lparr>pos := Suc (pos w)\<rparr>)"
proof (rule createOperation_found [OF assms(1,3,4)])
  show "first_row (same_key r t) (operations (store w)) = Inr row"
  proof (cases "first_row (same_key r t) (operations (store w))")
    case (Inl e)
    with assms(5-7) show ?thesis by (auto simp: first_row_Inl same_key_def)
  next
    case (Inr row')
    then have "row' = row"
      using same_key_same_row [OF assms(2,5)] assms(6,7) first_row_Inr [OF Inr]
      by (auto simp: same_key_def)
    with Inr show ?thesis by simp
  qed
qed

text \<open>When nothing interferes, a replay of a request whose key the tenant has used is answered
  with 200 and the stored operation, and changes neither a table nor the queue, whatever its type
  and input.\<close>

theorem create_replay_no_effect:
  assumes "quiet w" and "schema_ok (store w)" and "creates r t ty inp" and "h_idem r \<noteq> []"
    and "row \<in> set (operations (store w))" and "op_TenantID row = t"
    and "op_IdempotencyKey row = Some (h_idem r)"
  shows "createOperation jb enc r w =
    (WriteJSON 200 (OperationBody row), w\<lparr>pos := Suc (pos w)\<rparr>)"
  using assms by (intro createOperation_stored) (simp_all add: quiet_iff)

theorem create_replay_no_effect_witness:
  "createOperation Some j_OpType sample_create (sample_world op_succeeded) =
     (WriteJSON 200 (OperationBody (hd (operations op_succeeded))),
      (sample_world op_succeeded)\<lparr>pos := Suc 0\<rparr>)"
  using create_replay_no_effect [OF quiet_sample, of op_succeeded sample_create 1 "''summarize''"
      "Some ''{}''" "hd (operations op_succeeded)" Some j_OpType]
    schema.at_reachable [OF sample_reachable(5)]
  by (simp add: creates_def sample_create_def) (simp add: sample_op_def)

section \<open>Failures\<close>

lemma select_by_idem_state: "snd (select_by_idem t k u p) = p"
  by (cases t) (simp_all add: select_by_idem_def with_uuid_def)

lemma insert_operation_Inl:
  "fst (insert_operation jb t k ty inp n u p) = Inl e \<Longrightarrow>
   snd (insert_operation jb t k ty inp n u p) = p"
  by (auto simp: insert_operation_def with_uuid_def Let_def
      split: idtext.splits option.splits if_splits)

lemma CreateOperation_unchanged:
  assumes "quiet w" and "CreateOperation jb t ty inp k n w = (x, w1)"
    and "\<And>op. x \<noteq> Inr (op, False)"
  shows "store w1 = store w"
  using assms
  by (auto simp: CreateOperation_def getByIdempotencyKey_def call_quiet select_by_idem_state
      insert_operation_Inl Let_def split: option.splits sum.splits prod.splits if_splits)

text \<open>When every call completes, creating an operation is all or nothing: the answer is 202, or
  it is 200, 400, 401 or 500 and the platform is as before.\<close>

theorem create_all_or_nothing:
  assumes "quiet w"
  shows "r_status (fst (createOperation jb enc r w)) = 202 \<or>
    r_status (fst (createOperation jb enc r w)) \<in> {200, 400, 401, 500} \<and>
    store (snd (createOperation jb enc r w)) = store w"
proof (cases "h_tenant r = EmptyText \<or> decoded r = None \<or> cr_OpType (the (decoded r)) = []")
  case True
  then show ?thesis by (cases "decoded r") (auto simp: createOperation_def Let_def)
next
  case False
  then obtain req where req: "h_tenant r \<noteq> EmptyText" "decoded r = Some req" "cr_OpType req \<noteq> []"
    by auto
  obtain x w1 where co:
    "CreateOperation jb (h_tenant r) (cr_OpType req) (cr_Input req) (idem_of r) 3 w = (x, w1)"
    by fastforce
  have q: "quiet w1"
    using full.CreateOperation_moves [OF quiet_tame [OF assms], of jb "h_tenant r"] co
    by (metis moves_quiet assms snd_conv)
  note co' = co [unfolded idem_of_def]
  show ?thesis
  proof (cases "\<exists>op. x = Inr (op, False)")
    case True
    then show ?thesis
      using req co' q
      by (auto simp: createOperation_def Let_def Enqueue_def TransitionToQueued_def call_quiet
          lpush_stmt_def redis_cmd_def queued_stmt_def)
  next
    case False
    then have "store w1 = store w" by (intro CreateOperation_unchanged [OF assms co]) auto
    then show ?thesis
      using False req co' by (cases x) (auto simp: createOperation_def Let_def)
  qed
qed

theorem create_all_or_nothing_witness:
  "r_status (fst (createOperation (\<lambda>j. None) j_OpType sample_create (sample_world tenant_a))) = 500 \<and>
   store (snd (createOperation (\<lambda>j. None) j_OpType sample_create (sample_world tenant_a))) = tenant_a"
proof -
  have "r_status (fst (createOperation (\<lambda>j. None) j_OpType sample_create (sample_world tenant_a))) = 500"
    by code_simp
  then show ?thesis
    using create_all_or_nothing [OF quiet_sample [of tenant_a], of "\<lambda>j. None" j_OpType sample_create]
    by simp
qed

text \<open>C34: When Redis refuses the push, the client gets a 500 but the operation stays in the table,
  PENDING and with no job in the queue. Whatever the deployment does from then on, every later
  request of the tenant with that key, whatever its body, that finds the database working is answered
  with 200 and that operation as it then is, and changes nothing: it pushes no job either. So the key
  is bound to an operation that no request gets to a worker.\<close>

theorem create_stranded:
  fixes enc :: "job \<Rightarrow> string"
  assumes "reachable (store w)" and "insertable jb r t ty i j w" and "h_idem r \<noteq> []"
    and "refused w (Suc (insert_pos r w))"
  defines "row \<equiv> new_operation r t ty j (fresh (tape w (insert_pos r w))) (pg_now (store w))"
    and "p1 \<equiv> store (snd (createOperation jb enc r w))"
  shows "r_status (fst (createOperation jb enc r w)) = 500 \<and>
    p1 = (store w)\<lparr>operations := operations (store w) @ [row]\<rparr> \<and> op_Status row = StatusPending \<and>
    (\<forall>w2 r2 ty2 i2. platform_step\<^sup>*\<^sup>* p1 (store w2) \<and> calm w2 (pos w2) \<and>
       creates r2 t ty2 i2 \<and> h_idem r2 = h_idem r \<longrightarrow>
       (\<exists>row2\<in>set (operations (store w2)). op_identity row2 = op_identity row \<and>
          createOperation jb enc r2 w2 =
            (WriteJSON 200 (OperationBody row2), w2\<lparr>pos := Suc (pos w2)\<rparr>)))"
proof -
  have i: "creates r t ty (Some i)" using assms(2) by (simp add: insertable_def)
  then have dec: "decoded r = Some \<lparr>cr_OpType = ty, cr_Input = Some i\<rparr>" by (simp add: creates_def)
  note co = CreateOperation_new [OF assms(2) dec, simplified, folded row_def]
  have run: "createOperation jb enc r w =
     (WriteError 500 ''internal_error'' (Detail ''failed to enqueue operation'') (h_reqid r),
      w\<lparr>pos := Suc (Suc (insert_pos r w)),
        store := (store w)\<lparr>operations := operations (store w) @ [row]\<rparr>\<rparr>)"
    using assms(4) by (simp add: createOperation_unfold [OF i co] Enqueue_def call_refused)
  have "platform_step (store w) p1"
    using platform_step.guarded [OF guarded_step.insert_op, of "store w" jb "h_tenant r" "idem_of r" ty "Some i" 3
        "fresh (tape w (insert_pos r w))"] insertable_row [OF assms(2) dec, folded row_def]
    by (simp add: p1_def run)
  then have "reachable p1" using reachable_step [OF assms(1)] by blast
  have "\<exists>row2\<in>set (operations (store w2)). op_identity row2 = op_identity row \<and>
      createOperation jb enc r2 w2 = (WriteJSON 200 (OperationBody row2), w2\<lparr>pos := Suc (pos w2)\<rparr>)"
    if w2: "platform_step\<^sup>*\<^sup>* p1 (store w2)" "calm w2 (pos w2)" "creates r2 t ty2 i2" "h_idem r2 = h_idem r"
    for w2 r2 ty2 i2
  proof -
    have "row \<in> set (operations p1)" by (simp add: p1_def run)
    then obtain row2 where row2: "row2 \<in> set (operations (store w2))" "op_identity row2 = op_identity row"
      using row_persists [OF w2(1)] by blast
    have "schema_ok (store w2)"
      using \<open>reachable p1\<close> w2(1) unfolding reachable_def
      by (intro schema.at_reachable [unfolded reachable_def]) (rule rtranclp_trans)
    moreover have "op_TenantID row2 = t" "op_IdempotencyKey row2 = Some (h_idem r)"
      using identity_fields [OF row2(2)] assms(3) by (simp_all add: row_def new_operation_def idem_of_def)
    ultimately have "createOperation jb enc r2 w2 =
        (WriteJSON 200 (OperationBody row2), w2\<lparr>pos := Suc (pos w2)\<rparr>)"
      using createOperation_stored [OF w2(2) _ w2(3)] row2(1) assms(3) w2(4) by simp
    then show ?thesis using row2 by blast
  qed
  then have "\<forall>w2 r2 ty2 i2. platform_step\<^sup>*\<^sup>* p1 (store w2) \<and> calm w2 (pos w2) \<and>
       creates r2 t ty2 i2 \<and> h_idem r2 = h_idem r \<longrightarrow>
       (\<exists>row2\<in>set (operations (store w2)). op_identity row2 = op_identity row \<and>
          createOperation jb enc r2 w2 =
            (WriteJSON 200 (OperationBody row2), w2\<lparr>pos := Suc (pos w2)\<rparr>))" by blast
  moreover have "p1 = (store w)\<lparr>operations := operations (store w) @ [row]\<rparr>"
    "r_status (fst (createOperation jb enc r w)) = 500" "op_Status row = StatusPending"
    by (simp_all add: p1_def run) (simp add: row_def new_operation_def)
  ultimately show ?thesis by (intro conjI)
qed

definition other_body :: "createOperationReq request" where
  "other_body = sample_create\<lparr>decoded := Some \<lparr>cr_OpType = ''classify'', cr_Input = None\<rparr>\<rparr>"

lemma other_creates: "creates other_body 1 ''classify'' None" "h_idem other_body = h_idem sample_create"
  by (simp_all add: creates_def other_body_def sample_create_def)

theorem create_stranded_witness:
  "let w = refusing 2 (sample_world tenant_a);
       (resp, w1) = createOperation Some j_OpType sample_create w
   in r_status resp = 500 \<and> operations (store w1) = [sample_op\<lparr>op_ID := 101\<rparr>] \<and>
      main_queue (redis_state (store w1)) = [] \<and>
      fst (createOperation Some j_OpType other_body (sample_world (store w1))) =
        WriteJSON 200 (OperationBody (sample_op\<lparr>op_ID := 101\<rparr>))"
proof -
  let ?w = "refusing 2 (sample_world tenant_a)"
  have i: "insertable Some sample_create 1 ''summarize'' ''{}'' ''{}'' ?w"
  proof -
    have "1 \<in> tn_ID ` set (tenants tenant_a)" by code_simp
    then show ?thesis
      by (simp add: insertable_def creates_def sample_create_def idem_taken_def calm_def
          refusing_def insert_pos_def)
  qed
  have p: "insert_pos sample_create ?w = 1" by code_simp
  have row: "new_operation sample_create 1 ''summarize'' ''{}''
      (fresh (tape ?w (insert_pos sample_create ?w))) (pg_now (store ?w)) =
      sample_op\<lparr>op_ID := 101\<rparr>" by code_simp
  have q: "main_queue (redis_state (store ?w)) = []" "operations (store ?w) = []" by (code_simp, code_simp)
  have rc: "h_idem sample_create \<noteq> []" "refused ?w (Suc (insert_pos sample_create ?w))"
    unfolding p by (simp_all add: refused_def refusing_def sample_create_def numeral_2_eq_2)
  have re: "reachable (store ?w)" using sample_reachable(1) by (simp add: refusing_def)
  let ?w1 = "snd (createOperation Some j_OpType sample_create ?w)"
  from create_stranded [OF re i rc, of j_OpType, unfolded row q]
  have st: "r_status (fst (createOperation Some j_OpType sample_create ?w)) = 500"
    "store ?w1 = (store ?w)\<lparr>operations := [sample_op\<lparr>op_ID := 101\<rparr>]\<rparr>"
    and again: "\<forall>w2 r2 ty2 i2. platform_step\<^sup>*\<^sup>* (store ?w1) (store w2) \<and> calm w2 (pos w2) \<and>
       creates r2 1 ty2 i2 \<and> h_idem r2 = h_idem sample_create \<longrightarrow>
       (\<exists>row2\<in>set (operations (store w2)). op_identity row2 = op_identity (sample_op\<lparr>op_ID := 101\<rparr>) \<and>
          createOperation Some j_OpType r2 w2 =
            (WriteJSON 200 (OperationBody row2), w2\<lparr>pos := Suc (pos w2)\<rparr>))"
    by simp_all
  have "calm (sample_world (store ?w1)) (pos (sample_world (store ?w1)))"
    using quiet_sample by (simp only: quiet_iff)
  then obtain row2 where "row2 \<in> set (operations (store ?w1))"
    "createOperation Some j_OpType other_body (sample_world (store ?w1)) =
      (WriteJSON 200 (OperationBody row2), (sample_world (store ?w1))
        \<lparr>pos := Suc (pos (sample_world (store ?w1)))\<rparr>)"
    using again [rule_format, of "sample_world (store ?w1)" other_body "''classify''" None] other_creates
    by auto
  then have "fst (createOperation Some j_OpType other_body (sample_world (store ?w1))) =
      WriteJSON 200 (OperationBody (sample_op\<lparr>op_ID := 101\<rparr>))"
    by (simp add: st(2))
  then show ?thesis
    using st q by (simp add: case_prod_beta Let_def)
qed


end
