(* ===== verification/Ownership.thy ===== *)
theory Ownership
  imports Sample
begin

text \<open>
  Tenant isolation of the customer's surface of the operations service: what a tenant is shown, what
  it can infer about others, and what its requests change.
\<close>

section \<open>What a tenant is shown\<close>

text \<open>A call's result comes from its statement, run on some state.\<close>

lemma call_from:
  assumes "call f w = (r, w1)" and "r \<noteq> Inl Unavailable"
  obtains u p where "f u p = (r, store w1)"
proof -
  have "tame (\<lambda>_ _. True) w" by (auto simp: tame_def)
  then show ?thesis using that by (rule call_result [OF _ assms])
qed

lemma not_found_Inr [simp]: "not_found r = Inr x \<longleftrightarrow> r = Inr x"
  by (cases r) (auto simp: not_found_def)

lemma GetOperation_own:
  assumes "GetOperation t i w = (Inr op, w1)"
  shows "t = UuidText (op_TenantID op) \<and> i = UuidText (op_ID op)"
proof -
  have "call (select_operation t i) w = (Inr op, w1)"
    using assms by (auto simp: GetOperation_def split: prod.splits)
  then obtain u p where "select_operation t i u p = (Inr op, store w1)"
    by (rule call_from) simp
  then show ?thesis
    by (auto simp: select_operation_def with_uuid_def reading_def dest: first_row_Inr
        split: idtext.splits)
qed

definition listed :: "uuid \<Rightarrow> string \<Rightarrow> platform \<Rightarrow> operation list" where
  "listed t status p =
     filter (\<lambda>r. op_TenantID r = t \<and> (status = [] \<or> op_Status r = status)) (operations p)"

lemma ListOperations_page:
  assumes "ListOperations f w = (Inr ops, w1)"
  obtains t p where "lf_TenantID f = UuidText t"
    and "page (lf_Limit f) (lf_Offset f) (listed t (lf_Status f) p) = Inr ops"
proof -
  obtain u p where "with_uuid (lf_TenantID f) (\<lambda>t. reading (\<lambda>p.
      page (lf_Limit f) (lf_Offset f) (listed t (lf_Status f) p))) u p = (Inr ops, store w1)"
    using assms unfolding ListOperations_def listed_def by (rule call_from) simp
  then show ?thesis using that
    by (auto simp: with_uuid_def reading_def split: idtext.splits)
qed

lemma list_limit_bounds: "1 \<le> list_limit q \<and> list_limit q \<le> 100"
  by (auto simp: list_limit_def Let_def)

lemma page_Inr:
  assumes "page l off rs = Inr ops"
  shows "set ops \<subseteq> set rs" and "length ops \<le> nat l"
    and "sorted_wrt (\<lambda>a b. op_CreatedAt b \<le> op_CreatedAt a) ops"
  using assms set_limit_offset [of l off "order_desc op_CreatedAt rs"]
    length_limit_offset [of l off "order_desc op_CreatedAt rs"]
    sorted_limit_offset [OF sorted_order_desc [of op_CreatedAt rs], of l off]
  by (auto simp: page_def split: if_splits)

text \<open>Whatever happens meanwhile, an operation a tenant is shown is its own: the operation of
  GET by id has the tenant of the request's header and the id of its path.\<close>

theorem get_own:
  assumes "fst (getOperation r w) = WriteJSON 200 (OperationBody op)"
  shows "h_tenant r = UuidText (op_TenantID op) \<and> url_id r = UuidText (op_ID op)"
  using assms
  by (auto simp: getOperation_def split: sum.splits prod.splits dest: GetOperation_own)

theorem get_own_witness:
  "h_tenant (sample_get (UuidText 1) (UuidText 2)) =
     UuidText (op_TenantID (hd (operations op_running)))"
proof -
  have "fst (getOperation (sample_get (UuidText 1) (UuidText 2)) (sample_world op_running)) =
      WriteJSON 200 (OperationBody (hd (operations op_running)))"
    by (simp add: getOperation_def GetOperation_def select_operation_def call_quiet sample_op_def
        first_row_def reading_def not_found_def)
  from get_own [OF this] show ?thesis by (rule conjunct1)
qed

text \<open>Whatever happens meanwhile, a page of the list holds operations of the tenant of the
  request's header only, all with the status asked for if one was, newest first, at most 100 and
  at most as many as the limit the answer states.\<close>

theorem list_own:
  assumes "fst (listOperations r w) = WriteJSON 200 (OperationsPage ops limit offset)"
  shows "(\<forall>op\<in>set ops. h_tenant r = UuidText (op_TenantID op) \<and>
           (q_status r = [] \<or> op_Status op = q_status r)) \<and>
    sorted_wrt (\<lambda>a b. op_CreatedAt b \<le> op_CreatedAt a) ops \<and>
    length ops \<le> nat limit \<and> 1 \<le> limit \<and> limit \<le> 100"
proof -
  let ?f = "\<lparr>lf_TenantID = h_tenant r, lf_Status = q_status r, lf_Limit = list_limit (q_limit r),
    lf_Offset = atoi (q_offset r)\<rparr>"
  obtain w1 where "ListOperations ?f w = (Inr ops, w1)" and l: "limit = list_limit (q_limit r)"
    using assms by (auto simp: listOperations_def Let_def split: sum.splits prod.splits)
  then obtain t p where t: "h_tenant r = UuidText t"
    and pg: "page limit (atoi (q_offset r)) (listed t (q_status r) p) = Inr ops"
    by (auto elim!: ListOperations_page)
  show ?thesis
    using page_Inr [OF pg] list_limit_bounds [of "q_limit r"] t l
    by (auto simp: listed_def)
qed

theorem list_own_witness:
  "length (operations op_running) \<le> 25"
proof -
  have "fst (listOperations (sample_get (UuidText 1) EmptyText) (sample_world op_running)) =
      WriteJSON 200 (OperationsPage (operations op_running) 25 0)"
    by (simp add: listOperations_def ListOperations_def call_quiet sample_op_def list_limit_def
        atoi_def page_def limit_offset_def order_desc_def)
  from list_own [OF this] show ?thesis by simp
qed

text \<open>When nothing interferes, a first page with room for all of them is exactly the tenant's
  operations with the status asked for.\<close>

lemma list_complete:
  assumes "quiet w" and "h_tenant r = UuidText t" and "q_offset r = []"
    and "int (length (listed t (q_status r) (store w))) \<le> list_limit (q_limit r)"
  shows "\<exists>ops. fst (listOperations r w) =
      WriteJSON 200 (OperationsPage ops (list_limit (q_limit r)) 0) \<and>
    set ops = set (listed t (q_status r) (store w))"
proof -
  have "limit_offset (list_limit (q_limit r)) 0
      (order_desc op_CreatedAt (listed t (q_status r) (store w))) =
      order_desc op_CreatedAt (listed t (q_status r) (store w))"
    using assms(4) by (simp add: limit_offset_def)
  then show ?thesis
    using assms(1-3) list_limit_bounds [of "q_limit r"]
    by (simp add: listOperations_def ListOperations_def call_quiet Let_def atoi_def page_def
        listed_def)
qed

section \<open>What a tenant can infer\<close>

definition own_rows :: "uuid \<Rightarrow> platform \<Rightarrow> operation list" where
  "own_rows t p = filter (\<lambda>r. op_TenantID r = t) (operations p)"

lemma listed_own: "listed t s p = filter (\<lambda>r. s = [] \<or> op_Status r = s) (own_rows t p)"
  by (simp add: listed_def own_rows_def conj_commute)

lemma first_row_own:
  "first_row (\<lambda>r. op_ID r = i \<and> op_TenantID r = t) (operations p) =
   first_row (\<lambda>r. op_ID r = i) (own_rows t p)"
  by (simp add: own_rows_def conj_commute flip: first_row_filter)

lemma cancel_count_own:
  "length (filter (cancel_cond (i, t, now)) (operations p)) = 0 \<longleftrightarrow>
   (\<forall>r\<in>set (own_rows t p). op_ID r = i \<longrightarrow> IsTerminal (op_Status r))"
  by (auto simp: filter_empty_conv own_rows_def cancel_cond_def IsTerminal_iff)

text \<open>C13: Non-interference: with calls that complete, what a tenant is answered by GET by id, by the
  list and by cancel is a function of its own operations alone. Two platforms that agree on the
  rows of the tenant, and differ in anything else, give the same three answers.\<close>

theorem tenant_noninterference:
  assumes "quiet w" and "quiet v" and "h_tenant r = UuidText t"
    and "own_rows t (store w) = own_rows t (store v)"
  shows "fst (getOperation r w) = fst (getOperation r v) \<and>
    fst (listOperations r w) = fst (listOperations r v) \<and>
    fst (cancelOperation r w) = fst (cancelOperation r v)"
proof (intro conjI)
  have "fst (GetOperation (UuidText t) (url_id r) w) = fst (GetOperation (UuidText t) (url_id r) v)"
    using assms
    by (cases "url_id r")
      (simp_all add: GetOperation_def call_quiet select_operation_def with_uuid_def first_row_own)
  then show "fst (getOperation r w) = fst (getOperation r v)"
    by (simp add: getOperation_def assms(3) case_prod_beta split: sum.split)
  show "fst (listOperations r w) = fst (listOperations r v)"
    using assms
    by (simp add: listOperations_def ListOperations_def call_quiet Let_def case_prod_beta
        listed_own flip: listed_def split: sum.split)
  show "fst (cancelOperation r w) = fst (cancelOperation r v)"
    using assms cancel_count_own
    by (cases "url_id r")
      (simp_all add: cancelOperation_def CancelOperation_def call_quiet cancel_stmt_def Let_def
        with_uuid_def)
qed

theorem tenant_noninterference_witness:
  "let other = op_running\<lparr>operations :=
         sample_op\<lparr>op_ID := 9, op_TenantID := 7\<rparr> # operations op_running\<rparr>;
       r = sample_get (UuidText 1) (UuidText 9)
   in fst (cancelOperation r (sample_world op_running)) =
      fst (cancelOperation r (sample_world other))"
  using tenant_noninterference [OF quiet_sample quiet_sample,
      of "sample_get (UuidText 1) (UuidText 9)" 1 op_running
         "op_running\<lparr>operations := sample_op\<lparr>op_ID := 9, op_TenantID := 7\<rparr> # operations op_running\<rparr>"]
  by (simp add: own_rows_def Let_def)

section \<open>What a tenant changes\<close>

definition cancelled_row :: "uuid \<Rightarrow> uuid \<Rightarrow> gotime \<Rightarrow> operation \<Rightarrow> operation" where
  "cancelled_row t i now row =
     (if op_ID row = i \<and> op_TenantID row = t \<and> \<not> IsTerminal (op_Status row)
      then row\<lparr>op_Status := StatusCancelled, op_CompletedAt := Some now\<rparr> else row)"

text \<open>When nothing interferes, a cancel is answered with 204 exactly if the tenant has a
  non-terminal operation with the id of the path, and then that operation becomes CANCELLED and
  completed now; otherwise the answer is 409. No other row and nothing else changes.\<close>

theorem cancel_effect:
  assumes "quiet w" and "h_tenant r = UuidText t" and "url_id r = UuidText i"
  shows "r_status (fst (cancelOperation r w)) =
      (if \<exists>row\<in>set (operations (store w)).
            op_ID row = i \<and> op_TenantID row = t \<and> \<not> IsTerminal (op_Status row)
       then 204 else 409) \<and>
    store (snd (cancelOperation r w)) =
      (store w)\<lparr>operations := map (cancelled_row t i (pg_now (store w))) (operations (store w))\<rparr>"
proof -
  have upd: "upd_where (cancel_cond (i, t, n)) (cancel_row (i, t, n)) rs =
      map (cancelled_row t i n) rs" for n rs
    by (simp add: upd_where_def cancelled_row_def cancel_cond_def cancel_row_def IsTerminal_iff)
  show ?thesis
    using assms cancel_count_own [of i t "pg_now (store w)" "store w"]
    by (auto simp: cancelOperation_def CancelOperation_def call_quiet cancel_stmt_def Let_def upd
        own_rows_def)
qed

theorem cancel_effect_witness:
  "r_status (fst (cancelOperation (sample_get (UuidText 1) (UuidText 2))
      (sample_world op_running))) = 204"
proof -
  have "\<exists>row\<in>set (operations op_running).
      op_ID row = 2 \<and> op_TenantID row = 1 \<and> \<not> IsTerminal (op_Status row)"
    by (simp add: sample_op_def)
  then show ?thesis
    using cancel_effect [OF quiet_sample, of "sample_get (UuidText 1) (UuidText 2)" 1 2]
    by simp
qed

end
