(* ===== verification/Processing.thy ===== *)
theory Processing
  imports Sample
begin

text \<open>
  The workers' surface of the operations service: what the start and the completion of an attempt do
  to the operation, the attempt, the queue and the concurrency counter, and the decision between
  success, retry and terminal failure.
\<close>

section \<open>The calls of the handlers, undisturbed\<close>

text \<open>From here on undisturbed.\<close>

definition calm_from :: "'s world \<Rightarrow> bool" where
  "calm_from w \<longleftrightarrow> (\<forall>n\<ge>pos w. calm w n)"

lemma quiet_calm_from [simp]: "quiet w \<Longrightarrow> calm_from w"
  by (simp add: calm_from_def quiet_iff)

lemma calm_from_store [simp]: "calm_from (w\<lparr>store := s\<rparr>) = calm_from w"
  and calm_from_later [simp]: "calm_from w \<Longrightarrow> pos w \<le> n \<Longrightarrow> calm_from (w\<lparr>pos := n\<rparr>)"
  by (simp_all add: calm_from_def)

lemma call_calm_from:
  assumes "calm_from w"
  shows "call f w =
    (fst (f (fresh (tape w (pos w))) (store w)),
     w\<lparr>pos := Suc (pos w), store := snd (f (fresh (tape w (pos w))) (store w))\<rparr>)"
  by (rule call_calm) (use assms in \<open>simp add: calm_from_def\<close>)

definition freed :: "uuid \<Rightarrow> redis \<Rightarrow> redis" where
  "freed t r = set_counter t (max 0 (counter t r - 1)) r"

lemma set_counter_twice [simp]: "set_counter t n (set_counter t m r) = set_counter t n r"
  by (simp add: set_counter_def)

lemma DecrConcurrency_calm:
  assumes "calm_from w"
  shows "store (snd (DecrConcurrency t w)) =
      (store w)\<lparr>redis_state := freed t (redis_state (store w))\<rparr>"
    and "calm_from (snd (DecrConcurrency t w))"
  using assms
  by (auto simp: DecrConcurrency_def call_calm_from decr_stmt_def set_stmt_def redis_cmd_def freed_def
      max_def)

lemma IncrConcurrency_quiet:
  assumes "quiet w"
  shows "store (snd (IncrConcurrency t w)) =
    (store w)\<lparr>redis_state := set_counter t (counter t (redis_state (store w)) + 1)
                                (redis_state (store w))\<rparr>"
  using assms by (simp add: IncrConcurrency_def call_quiet incr_stmt_def redis_cmd_def)

lemma first_row_by_id:
  assumes "distinct (map op_ID rs)" and "row \<in> set rs" and "op_ID row = i"
  shows "first_row (\<lambda>r. op_ID r = i) rs = Inr row"
  using assms by (intro first_row_unique [where k = op_ID]) auto

lemma GetOperationAnyTenant_calm:
  assumes "calm_from w" and "distinct (map op_ID (operations (store w)))"
    and "row \<in> set (operations (store w))" and "op_ID row = i"
  shows "GetOperationAnyTenant (UuidText i) w = (Inr row, w\<lparr>pos := Suc (pos w)\<rparr>)"
  using assms first_row_by_id [OF assms(2-4)]
  by (simp add: GetOperationAnyTenant_def call_calm_from select_operation_any_def reading_def not_found_def)

lemma schema_op_ids: "schema_ok p \<Longrightarrow> distinct (map op_ID (operations p))"
  by (simp add: schema_ok_def primary_keys_def)

section \<open>The start of an attempt\<close>

definition new_attempt :: "uuid \<Rightarrow> uuid \<Rightarrow> startAttemptReq \<Rightarrow> gotime \<Rightarrow> attempt" where
  "new_attempt u i req now =
     \<lparr>at_ID = u, at_OperationID = i, at_AttemptNumber = sa_AttemptNumber req,
      at_WorkerID = Some (sa_WorkerID req), at_ProviderUsed = None, at_StartedAt = now,
      at_FinishedAt = None, at_Success = None, at_ErrorCategory = None, at_ErrorDetail = None,
      at_LatencyMs = None\<rparr>"

definition started_row :: "uuid \<Rightarrow> int \<Rightarrow> gotime \<Rightarrow> operation \<Rightarrow> operation" where
  "started_row i n now r =
     (if op_ID r = i
      then r\<lparr>op_Status := StatusRunning, op_AttemptCount := n,
             op_StartedAt := Some (case op_StartedAt r of None \<Rightarrow> now | Some s \<Rightarrow> s)\<rparr>
      else r)"

lemma upd_started: "upd_where (start_cond (i, n, t)) (start_row (i, n, t)) rs = map (started_row i n t) rs"
  by (simp add: upd_where_def started_row_def start_cond_def start_row_def)

lemma started_row_id [simp]: "op_ID (started_row i n t r) = op_ID r"
  "op_TenantID (started_row i n t r) = op_TenantID r"
  by (simp_all add: started_row_def)

definition startable :: "startAttemptReq request \<Rightarrow> uuid \<Rightarrow> startAttemptReq \<Rightarrow> platform world \<Rightarrow> bool" where
  "startable r i req w \<longleftrightarrow>
     quiet w \<and> schema_ok (store w) \<and> decoded r = Some req \<and> url_id r = UuidText i \<and>
     int4_ok (sa_AttemptNumber req) \<and>
     fresh (tape w (pos w)) \<notin> at_ID ` set (operation_attempts (store w))"

lemma startAttempt_effect:
  assumes "startable r i req w" and "row \<in> set (operations (store w))" and "op_ID row = i"
  defines "p \<equiv> store w" and "u \<equiv> fresh (tape w (pos w))" and "t \<equiv> op_TenantID row"
  shows "fst (startAttempt r w) = WriteJSON 200 (AttemptIdBody u) \<and>
    store (snd (startAttempt r w)) =
      p\<lparr>operations := map (started_row i (sa_AttemptNumber req) (pg_now p)) (operations p),
        operation_attempts := operation_attempts p @ [new_attempt u i req (pg_now p)],
        redis_state := set_counter t (counter t (redis_state p) + 1) (redis_state p)\<rparr>"
proof -
  have q: "quiet w" using assms(1) by (simp add: startable_def)
  let ?p1 = "p\<lparr>operations := map (started_row i (sa_AttemptNumber req) (pg_now p)) (operations p),
      operation_attempts := operation_attempts p @ [new_attempt u i req (pg_now p)]\<rparr>"
  have sa: "StartAttempt (UuidText i) (sa_WorkerID req) (sa_AttemptNumber req) w =
      (Inr u, w\<lparr>pos := Suc (pos w), store := ?p1\<rparr>)"
    using assms(1-3) q
    by (auto simp: StartAttempt_def call_quiet start_attempt_tx_def no_operation_def Let_def
        upd_started startable_def p_def u_def new_attempt_def)
  let ?row = "started_row i (sa_AttemptNumber req) (pg_now p) row"
  have ids: "map op_ID (operations ?p1) = map op_ID (operations p)" by (simp add: comp_def)
  have "distinct (map op_ID (operations ?p1))"
    unfolding ids using assms(1) schema_op_ids by (simp add: startable_def p_def)
  moreover have "?row \<in> set (operations ?p1)" using assms(2) by (simp add: p_def)
  ultimately have g: "GetOperationAnyTenant (UuidText i) (w\<lparr>pos := Suc (pos w), store := ?p1\<rparr>) =
      (Inr ?row, w\<lparr>pos := Suc (Suc (pos w)), store := ?p1\<rparr>)"
    using q assms(3) by (subst GetOperationAnyTenant_calm) simp_all
  show ?thesis
    using assms(1) q sa g by (simp add: startAttempt_def startable_def IncrConcurrency_quiet t_def)
qed

text \<open>Undisturbed, the start of an attempt of any existing operation answers with the new
  attempt's id; the operation is RUNNING with the number the worker sent and keeps its first start
  time, the attempt is recorded as open, and the tenant's counter goes up by one. Nothing else
  changes.\<close>

theorem start_effect:
  assumes "startable r i req w" and "row \<in> set (operations (store w))" and "op_ID row = i"
  defines "p \<equiv> store w" and "u \<equiv> fresh (tape w (pos w))" and "t \<equiv> op_TenantID row"
  shows "fst (startAttempt r w) = WriteJSON 200 (AttemptIdBody u) \<and>
    store (snd (startAttempt r w)) =
      p\<lparr>operations := map (started_row i (sa_AttemptNumber req) (pg_now p)) (operations p),
        operation_attempts := operation_attempts p @ [new_attempt u i req (pg_now p)],
        redis_state := set_counter t (counter t (redis_state p) + 1) (redis_state p)\<rparr>"
  unfolding p_def t_def u_def
  using assms(1-3) by (rule startAttempt_effect)

section \<open>The completion of an attempt\<close>

definition completes ::
    "completeAttemptReq request \<Rightarrow> uuid \<Rightarrow> uuid \<Rightarrow> completeAttemptReq \<Rightarrow> operation \<Rightarrow>
     platform world \<Rightarrow> bool" where
  "completes r i a req row w \<longleftrightarrow>
     calm_from w \<and> schema_ok (store w) \<and> decoded r = Some req \<and> url_id r = UuidText i \<and>
     ca_AttemptID req = UuidText a \<and> row \<in> set (operations (store w)) \<and> op_ID row = i"

definition succeeded_row :: "uuid \<Rightarrow> json option \<Rightarrow> gotime \<Rightarrow> operation \<Rightarrow> operation" where
  "succeeded_row i out now r =
     (if op_ID r = i \<and> op_Status r = StatusRunning
      then r\<lparr>op_Status := StatusSucceeded, op_Output := out, op_CompletedAt := Some now,
             op_ErrorMessage := None\<rparr>
      else r)"

definition finished_ok :: "uuid \<Rightarrow> completeAttemptReq \<Rightarrow> gotime \<Rightarrow> attempt \<Rightarrow> attempt" where
  "finished_ok a req now b =
     (if at_ID b = a
      then b\<lparr>at_FinishedAt := Some now, at_Success := Some True,
             at_ProviderUsed := Some (ca_Provider req), at_LatencyMs := Some (ca_LatencyMs req)\<rparr>
      else b)"

definition output_ok :: "(json \<Rightarrow> json option) \<Rightarrow> completeAttemptReq \<Rightarrow> bool" where
  "output_ok jb req \<longleftrightarrow>
     int4_ok (ca_LatencyMs req) \<and> (case ca_Output req of None \<Rightarrow> True | Some j \<Rightarrow> jb j \<noteq> None)"

lemma completeAttempt_succeeds:
  assumes "completes r i a req row w" and "ca_Success req" and "output_ok jb req"
  defines "p \<equiv> store w" and "t \<equiv> op_TenantID row" and "out \<equiv> Option.bind (ca_Output req) jb"
  shows "fst (completeAttempt jb enc r w) =
      (WriteJSON 200 (StatusBody StatusSucceeded), [GoNotifySuccess t i (ca_Output req)]) \<and>
    store (snd (completeAttempt jb enc r w)) =
      p\<lparr>operations := map (succeeded_row i out (pg_now p)) (operations p),
        operation_attempts := map (finished_ok a req (pg_now p)) (operation_attempts p),
        redis_state := freed t (redis_state p)\<rparr>"
proof -
  have q: "calm_from w" using assms(1) by (simp add: completes_def)
  have g: "GetOperationAnyTenant (UuidText i) w = (Inr row, w\<lparr>pos := Suc (pos w)\<rparr>)"
    using assms(1) schema_op_ids by (intro GetOperationAnyTenant_calm) (auto simp: completes_def)
  let ?w2 = "snd (DecrConcurrency t (w\<lparr>pos := Suc (pos w)\<rparr>))"
  have w2: "calm_from ?w2" "store ?w2 = p\<lparr>redis_state := freed t (redis_state p)\<rparr>"
    using q by (simp_all add: DecrConcurrency_calm p_def)
  have tx: "success_tx jb (UuidText i) (UuidText a) (ca_Output req) (ca_Provider req)
      (ca_LatencyMs req) v (store ?w2) =
      (Inr (), p\<lparr>operations := map (succeeded_row i out (pg_now p)) (operations p),
        operation_attempts := map (finished_ok a req (pg_now p)) (operation_attempts p),
        redis_state := freed t (redis_state p)\<rparr>)" for v
    using assms(3)
    by (auto simp: success_tx_def w2 output_ok_def upd_where_def succeeded_row_def finished_ok_def
        finish_cond_def attempt_succeeded_def succeed_cond_def succeed_row_def out_def Let_def
        split: option.splits)
  show ?thesis
    using assms(1,2) g w2(1) tx
    by (simp add: completeAttempt_def completes_def CompleteAttemptSuccess_def call_calm_from Let_def
        t_def)
qed

text \<open>Undisturbed, a report of success answers SUCCEEDED and starts the goroutine that bills and
  notifies; the operation becomes SUCCEEDED with the output if it is RUNNING and is left alone
  otherwise, the attempt is closed, and the tenant's slot is freed.\<close>

theorem complete_success_effect:
  assumes "completes r i a req row w" and "ca_Success req" and "output_ok jb req"
  defines "p \<equiv> store w" and "t \<equiv> op_TenantID row" and "out \<equiv> Option.bind (ca_Output req) jb"
  shows "fst (completeAttempt jb enc r w) =
      (WriteJSON 200 (StatusBody StatusSucceeded), [GoNotifySuccess t i (ca_Output req)]) \<and>
    store (snd (completeAttempt jb enc r w)) =
      p\<lparr>operations := map (succeeded_row i out (pg_now p)) (operations p),
        operation_attempts := map (finished_ok a req (pg_now p)) (operation_attempts p),
        redis_state := freed t (redis_state p)\<rparr>"
  unfolding p_def t_def out_def
  using assms(1-3) by (rule completeAttempt_succeeds)

definition failed_row :: "uuid \<Rightarrow> string \<Rightarrow> string \<Rightarrow> gotime \<Rightarrow> operation \<Rightarrow> operation" where
  "failed_row i s det now r =
     (if op_ID r = i \<and> op_Status r = StatusRunning
      then r\<lparr>op_Status := s, op_ErrorMessage := Some det,
             op_CompletedAt := (if IsTerminal s then Some now else op_CompletedAt r)\<rparr>
      else r)"

definition finished_bad :: "uuid \<Rightarrow> completeAttemptReq \<Rightarrow> gotime \<Rightarrow> attempt \<Rightarrow> attempt" where
  "finished_bad a req now b =
     (if at_ID b = a
      then b\<lparr>at_FinishedAt := Some now, at_Success := Some False,
             at_ErrorCategory := Some (ca_ErrorCategory req),
             at_ErrorDetail := Some (ca_ErrorDetail req)\<rparr>
      else b)"

definition decided :: "completeAttemptReq \<Rightarrow> operation \<Rightarrow> string" where
  "decided req row = next_status (ca_ErrorCategory req) (will_retry req row)"

lemma decided_cases:
  "decided req row =
     (if ca_ErrorCategory req = ''transient'' \<and> op_AttemptCount row < op_MaxRetries row
      then StatusRetrying
      else if ca_ErrorCategory req = ''permanent'' then StatusFailed else StatusDeadLettered)"
  by (simp add: decided_def next_status_def will_retry_def)

lemma decided_terminal: "IsTerminal (decided req row) \<longleftrightarrow> \<not> will_retry req row"
  and decided_failed: "decided req row \<in> {''FAILED'', ''DEAD_LETTERED''} \<longleftrightarrow> \<not> will_retry req row"
  by (auto simp: decided_def next_status_def status_defs IsTerminal_iff)

definition retry_ready :: "operation \<Rightarrow> gotime \<Rightarrow> int" where
  "retry_ready row now = unix (now + BackoffDelay (op_AttemptCount row) now)"

definition retried :: "(job \<Rightarrow> string) \<Rightarrow> completeAttemptReq \<Rightarrow> operation \<Rightarrow> gotime \<Rightarrow> redis \<Rightarrow> redis" where
  "retried enc req row now r =
     (if will_retry req row then redis_zadd (retry_ready row now) (enc (retry_job row now)) r
      else r)"

lemma completeAttempt_fails:
  assumes "completes r i a req row w" and "\<not> ca_Success req"
  defines "p \<equiv> store w" and "t \<equiv> op_TenantID row" and "s \<equiv> decided req row"
  shows "fst (completeAttempt jb enc r w) =
      (WriteJSON 200 (StatusBody s),
       if s = StatusRetrying then [] else [GoNotifyTerminalFailure t i s]) \<and>
    store (snd (completeAttempt jb enc r w)) =
      p\<lparr>operations := map (failed_row i s (ca_ErrorDetail req) (pg_now p)) (operations p),
        operation_attempts := map (finished_bad a req (pg_now p)) (operation_attempts p),
        redis_state := retried enc req row (clock p) (freed t (redis_state p))\<rparr>"
proof -
  have q: "calm_from w" using assms(1) by (simp add: completes_def)
  have g: "GetOperationAnyTenant (UuidText i) w = (Inr row, w\<lparr>pos := Suc (pos w)\<rparr>)"
    using assms(1) schema_op_ids by (intro GetOperationAnyTenant_calm) (auto simp: completes_def)
  let ?w2 = "snd (DecrConcurrency t (w\<lparr>pos := Suc (pos w)\<rparr>))"
  let ?p3 = "p\<lparr>operations := map (failed_row i s (ca_ErrorDetail req) (pg_now p)) (operations p),
        operation_attempts := map (finished_bad a req (pg_now p)) (operation_attempts p),
        redis_state := freed t (redis_state p)\<rparr>"
  have w2: "calm_from ?w2" "store ?w2 = p\<lparr>redis_state := freed t (redis_state p)\<rparr>"
    using q by (simp_all add: DecrConcurrency_calm p_def)
  have sn: "next_status (ca_ErrorCategory req) (will_retry req row) = s"
    by (simp add: s_def decided_def)
  have tx: "failure_tx (UuidText i) (UuidText a) (ca_ErrorCategory req) (ca_ErrorDetail req)
      (will_retry req row) v (store ?w2) = (Inr s, ?p3)" for v
    using decided_failed [of req row] decided_terminal [of req row]
    by (simp add: failure_tx_def w2 upd_where_def failed_row_def finished_bad_def finish_cond_def
        attempt_failed_def fail_cond_def fail_row_def Let_def sn s_def [symmetric] cong: if_cong)
  have st: "s = StatusRetrying \<longleftrightarrow> will_retry req row"
    "s = StatusFailed \<or> s = StatusDeadLettered \<longleftrightarrow> \<not> will_retry req row"
    by (auto simp: s_def decided_def next_status_def)
  have cl: "clock ?p3 = clock p" by simp
  show ?thesis
    using assms(1,2) g w2(1) tx st
    by (simp add: completeAttempt_def complete_failed_def completes_def CompleteAttemptFailure_def
        call_calm_from Let_def t_def ScheduleRetry_def zadd_stmt_def redis_cmd_def retried_def
        retry_ready_def)
qed

text \<open>C29: Undisturbed, a report of failure decides once between retry and terminal failure: RETRYING
  if the error is transient and attempts remain, else FAILED for a permanent error and DEAD_LETTERED
  for any other. The operation takes that status if it is RUNNING and is left alone otherwise;
  exactly in the first case one job is put into the delayed set, due after the backoff, and exactly
  in the other two the terminal notification starts; the attempt is closed and the slot freed.\<close>

theorem complete_failure_effect:
  assumes "completes r i a req row w" and "\<not> ca_Success req"
  defines "p \<equiv> store w" and "t \<equiv> op_TenantID row" and "s \<equiv> decided req row"
  shows "fst (completeAttempt jb enc r w) =
      (WriteJSON 200 (StatusBody s),
       if s = StatusRetrying then [] else [GoNotifyTerminalFailure t i s]) \<and>
    store (snd (completeAttempt jb enc r w)) =
      p\<lparr>operations := map (failed_row i s (ca_ErrorDetail req) (pg_now p)) (operations p),
        operation_attempts := map (finished_bad a req (pg_now p)) (operation_attempts p),
        redis_state := retried enc req row (clock p) (freed t (redis_state p))\<rparr>"
  unfolding p_def t_def s_def
  using assms(1-2) by (rule completeAttempt_fails)

section \<open>From the start to the completion\<close>

text \<open>What a started attempt leaves for its completion.\<close>

lemma startAttempt_after:
  assumes "startable r i req w" and "row \<in> set (operations (store w))" and "op_ID row = i"
  defines "w1 \<equiv> snd (startAttempt r w)"
  shows "quiet w1" and "schema_ok (store w1)"
    and "started_row i (sa_AttemptNumber req) (pg_now (store w)) row \<in> set (operations (store w1))"
proof -
  have q: "quiet w" "schema_ok (store w)" using assms(1) by (simp_all add: startable_def)
  note m = full.startAttempt_moves [OF quiet_tame [OF q(1)], of r]
  show "quiet w1" unfolding w1_def using moves_quiet [OF m q(1)] .
  show "schema_ok (store w1)" unfolding w1_def using schema.of_moves [OF m] q(2) by simp
  show "started_row i (sa_AttemptNumber req) (pg_now (store w)) row \<in> set (operations (store w1))"
    using startAttempt_effect [OF assms(1-3)] assms(2) by (simp add: w1_def)
qed

lemma pg_now_quiet_start:
  assumes "startable r i req w" and "row \<in> set (operations (store w))" and "op_ID row = i"
  shows "clock (store (snd (startAttempt r w))) = clock (store w)"
  using startAttempt_effect [OF assms] by simp

text \<open>An attempt with the next number that fails transiently moves the operation one attempt
  further: it is RETRYING while the number is below the maximum and DEAD_LETTERED when it reaches
  it. So an operation whose attempts all fail transiently is dead-lettered after exactly
  \<open>max_retries\<close> attempts, not before and not later.\<close>

theorem retry_cycle:
  fixes jb :: "json \<Rightarrow> json option" and enc :: "job \<Rightarrow> string"
  assumes "startable r1 i q1 w" and "row \<in> set (operations (store w))" and "op_ID row = i"
    and "sa_AttemptNumber q1 = op_AttemptCount row + 1"
    and "decoded r2 = Some q2" and "url_id r2 = UuidText i" and "ca_AttemptID q2 = UuidText a"
    and "\<not> ca_Success q2" and "ca_ErrorCategory q2 = ''transient''"
  defines "w2 \<equiv> snd (completeAttempt jb enc r2 (snd (startAttempt r1 w)))"
  shows "\<exists>row'\<in>set (operations (store w2)). op_ID row' = i \<and>
    op_AttemptCount row' = op_AttemptCount row + 1 \<and> op_MaxRetries row' = op_MaxRetries row \<and>
    op_Status row' = (if op_AttemptCount row + 1 < op_MaxRetries row then StatusRetrying
                      else StatusDeadLettered)"
proof -
  let ?w1 = "snd (startAttempt r1 w)"
  let ?row = "started_row i (sa_AttemptNumber q1) (pg_now (store w)) row"
  note a = startAttempt_after [OF assms(1-3)]
  have c: "completes r2 i a q2 ?row ?w1"
    using a assms(3,5-7) by (simp add: completes_def)
  have "failed_row i (decided q2 ?row) (ca_ErrorDetail q2) (pg_now (store ?w1)) ?row
      \<in> set (operations (store w2))"
    using completeAttempt_fails [OF c assms(8), of jb enc] a(3) by (simp add: w2_def)
  then show ?thesis
    by (rule rev_bexI)
      (use assms(3,4,9) in \<open>simp add: failed_row_def started_row_def decided_cases\<close>)
qed

lemma cancelOperation_effect:
  assumes "quiet w" and "h_tenant r = UuidText (op_TenantID row)" and "url_id r = UuidText (op_ID row)"
    and "row \<in> set (operations (store w))" and "\<not> IsTerminal (op_Status row)"
  shows "r_status (fst (cancelOperation r w)) = 204"
    and "cancel_row (op_ID row, op_TenantID row, pg_now (store w)) row
         \<in> set (operations (store (snd (cancelOperation r w))))"
proof -
  let ?a = "(op_ID row, op_TenantID row, pg_now (store w))"
  have c: "cancel_cond ?a row" using assms(5) by (simp add: cancel_cond_def IsTerminal_iff)
  have "filter (cancel_cond ?a) (operations (store w)) \<noteq> []"
    using c assms(4) by (auto simp: filter_empty_conv)
  then have run: "cancelOperation r w = (WriteHeader 204, w\<lparr>pos := Suc (pos w), store := (store w)
      \<lparr>operations := upd_where (cancel_cond ?a) (cancel_row ?a) (operations (store w))\<rparr>\<rparr>)"
    using assms(1-3) by (simp add: cancelOperation_def CancelOperation_def call_quiet cancel_stmt_def
        Let_def)
  show "r_status (fst (cancelOperation r w)) = 204" by (simp add: run)
  show "cancel_row ?a row \<in> set (operations (store (snd (cancelOperation r w))))"
    using cancel.touched [OF assms(4) c] by (simp add: run)
qed

text \<open>C33: An acknowledged cancellation does not hold against a worker that has already looked at the
  operation: if the start of its attempt comes after the cancel, the operation is RUNNING again and
  its success makes it SUCCEEDED, bills it and notifies the customer.\<close>

theorem cancelled_then_succeeds:
  fixes jb :: "json \<Rightarrow> json option" and enc :: "job \<Rightarrow> string"
  assumes "quiet w" and "schema_ok (store w)"
    and "row \<in> set (operations (store w))" and "\<not> IsTerminal (op_Status row)"
    and "h_tenant r0 = UuidText (op_TenantID row)" and "url_id r0 = UuidText (op_ID row)"
  defines "w1 \<equiv> snd (cancelOperation r0 w)"
  assumes "startable r1 (op_ID row) q1 w1"
  defines "w2 \<equiv> snd (startAttempt r1 w1)"
  assumes "decoded r2 = Some q2" and "url_id r2 = UuidText (op_ID row)"
    and "ca_AttemptID q2 = UuidText a" and "ca_Success q2" and "output_ok jb q2"
  defines "w3 \<equiv> snd (completeAttempt jb enc r2 w2)"
  shows "r_status (fst (cancelOperation r0 w)) = 204 \<and>
    (\<exists>row'\<in>set (operations (store w1)). op_ID row' = op_ID row \<and> op_Status row' = StatusCancelled) \<and>
    (\<exists>row'\<in>set (operations (store w3)). op_ID row' = op_ID row \<and> op_Status row' = StatusSucceeded) \<and>
    snd (fst (completeAttempt jb enc r2 w2)) =
      [GoNotifySuccess (op_TenantID row) (op_ID row) (ca_Output q2)]"
proof -
  note c = cancelOperation_effect [OF assms(1,5,6,3,4), folded w1_def]
  define row1 where "row1 = cancel_row (op_ID row, op_TenantID row, pg_now (store w)) row"
  have row1: "row1 \<in> set (operations (store w1))" "op_ID row1 = op_ID row"
    "op_TenantID row1 = op_TenantID row" "op_Status row1 = StatusCancelled"
    using c(2) by (simp_all add: row1_def cancel_row_def)
  note s = startAttempt_after [OF assms(8) row1(1,2), folded w2_def]
  define row2 where "row2 = started_row (op_ID row) (sa_AttemptNumber q1) (pg_now (store w1)) row1"
  have row2: "row2 \<in> set (operations (store w2))" "op_ID row2 = op_ID row"
    "op_TenantID row2 = op_TenantID row" "op_Status row2 = StatusRunning"
    using s(3) row1 by (simp_all add: row2_def started_row_def)
  have "completes r2 (op_ID row) a q2 row2 w2"
    using s row2 assms(10-12) by (simp add: completes_def)
  note f = completeAttempt_succeeds [OF this assms(13,14), of enc, folded w3_def]
  have "succeeded_row (op_ID row) (Option.bind (ca_Output q2) jb) (pg_now (store w2)) row2
      \<in> set (operations (store w3))"
    using f row2(1) by simp
  then have ok: "\<exists>row'\<in>set (operations (store w3)). op_ID row' = op_ID row \<and>
      op_Status row' = StatusSucceeded"
    by (rule rev_bexI) (use row2 in \<open>simp add: succeeded_row_def\<close>)
  have gone: "\<exists>row'\<in>set (operations (store w1)). op_ID row' = op_ID row \<and>
      op_Status row' = StatusCancelled"
    using row1 by blast
  have "snd (fst (completeAttempt jb enc r2 w2)) =
      [GoNotifySuccess (op_TenantID row) (op_ID row) (ca_Output q2)]"
    using f row2(3) by simp
  with c(1) gone ok show ?thesis by blast
qed

text \<open>A report of success for an operation that is not RUNNING, a duplicate or one after a
  cancellation, changes no operation, and yet it is answered with SUCCEEDED and starts the goroutine
  that bills and notifies.\<close>

theorem late_success:
  assumes "completes r i a req row w" and "ca_Success req" and "output_ok jb req"
    and "op_Status row \<noteq> StatusRunning"
  shows "operations (store (snd (completeAttempt jb enc r w))) = operations (store w) \<and>
    fst (completeAttempt jb enc r w) =
      (WriteJSON 200 (StatusBody StatusSucceeded),
       [GoNotifySuccess (op_TenantID row) i (ca_Output req)])"
proof -
  have "inj_on op_ID (set (operations (store w)))"
    using assms(1) schema_op_ids by (auto simp: completes_def distinct_map)
  then have "r' = row" if "r' \<in> set (operations (store w))" "op_ID r' = i" for r'
    using that assms(1) by (auto simp: completes_def dest: inj_onD)
  then have "map (succeeded_row i out n) (operations (store w)) = operations (store w)" for out n
    using assms(4) by (intro map_idI) (auto simp: succeeded_row_def)
  then show ?thesis using completeAttempt_succeeds [OF assms(1-3), of enc] by simp
qed

text \<open>C19: Undisturbed, an attempt of an existing operation that starts and is then completed, whatever its
  outcome, leaves every tenant's concurrency counter as it was, if the counter of the operation's
  tenant was not negative and the report can be stored.\<close>

theorem slot_balance:
  fixes jb :: "json \<Rightarrow> json option" and enc :: "job \<Rightarrow> string"
  assumes "startable r1 i q1 w" and "row \<in> set (operations (store w))" and "op_ID row = i"
    and "decoded r2 = Some q2" and "url_id r2 = UuidText i" and "ca_AttemptID q2 = UuidText a"
    and "output_ok jb q2" and "0 \<le> counter (op_TenantID row) (redis_state (store w))"
  shows "counter t (redis_state (store (snd (completeAttempt jb enc r2 (snd (startAttempt r1 w)))))) =
    counter t (redis_state (store w))"
proof -
  let ?w1 = "snd (startAttempt r1 w)"
  let ?row = "started_row i (sa_AttemptNumber q1) (pg_now (store w)) row"
  note a = startAttempt_after [OF assms(1-3)]
  have c: "completes r2 i a q2 ?row ?w1"
    using a assms(3-6) by (simp add: completes_def)
  have z: "counter t (retried enc req row' n red) = counter t red" for req row' n red
    by (simp add: retried_def counter_def redis_zadd_def)
  have f: "counter t (freed t' red) = (if t = t' then max 0 (counter t red - 1) else counter t red)"
    for t' red by (simp add: freed_def)
  show ?thesis
    using startAttempt_effect [OF assms(1-3)] completeAttempt_succeeds [OF c _ assms(7), of enc]
      completeAttempt_fails [OF c, of jb enc] assms(8)
    by (cases "ca_Success q2") (auto simp: z f)
qed

section \<open>Examples\<close>

definition sample_start :: "startAttemptReq request" where
  "sample_start = sample_req EmptyText (UuidText 2)
                    (Some \<lparr>sa_WorkerID = ''w1'', sa_AttemptNumber = 1\<rparr>)"

definition sample_report :: "bool \<Rightarrow> uuid \<Rightarrow> string \<Rightarrow> completeAttemptReq request" where
  "sample_report ok a cat = sample_req EmptyText (UuidText 2)
     (Some \<lparr>ca_AttemptID = UuidText a, ca_Success = ok, ca_Output = (if ok then Some ''{}'' else None),
            ca_Provider = ''gemini'', ca_LatencyMs = 12, ca_ErrorCategory = cat,
            ca_ErrorDetail = ''timeout''\<rparr>)"

lemma sample_startable:
  assumes "quiet w" and "schema_ok (store w)"
    and "fresh (tape w (pos w)) \<notin> at_ID ` set (operation_attempts (store w))"
  shows "startable sample_start 2 \<lparr>sa_WorkerID = ''w1'', sa_AttemptNumber = 1\<rparr> w"
  using assms by (simp add: startable_def sample_start_def int4_ok_def)

lemma sample_completes:
  assumes "reachable p" and "row \<in> set (operations p)" and "op_ID row = 2"
  shows "completes (sample_report ok a cat) 2 a (the (decoded (sample_report ok a cat))) row
           (sample_world p)"
  using assms by (simp add: completes_def sample_report_def schema.at_reachable)

lemma sample_output_ok: "output_ok Some (the (decoded (sample_report ok a cat)))"
  by (simp add: output_ok_def sample_report_def int4_ok_def)

lemma sample_queued_start:
  "startable sample_start 2 \<lparr>sa_WorkerID = ''w1'', sa_AttemptNumber = 1\<rparr> (sample_world op_queued)"
proof (rule sample_startable)
  show "fresh (tape (sample_world op_queued) (pos (sample_world op_queued)))
      \<notin> at_ID ` set (operation_attempts (store (sample_world op_queued)))"
    by code_simp
qed (simp_all add: schema.at_reachable sample_reachable)

lemma sample_queued_row: "hd (operations op_queued) \<in> set (operations op_queued)"
  "op_ID (hd (operations op_queued)) = 2" "op_TenantID (hd (operations op_queued)) = 1"
  "op_AttemptCount (hd (operations op_queued)) = 0" "op_MaxRetries (hd (operations op_queued)) = 3"
  by (simp_all add: sample_op_def)

lemma sample_running_row: "hd (operations op_running) \<in> set (operations op_running)"
  "op_ID (hd (operations op_running)) = 2" "op_TenantID (hd (operations op_running)) = 1"
  "op_AttemptCount (hd (operations op_running)) = 1" "op_MaxRetries (hd (operations op_running)) = 3"
  by (simp_all add: sample_op_def)

theorem start_effect_witness:
  "operations (store (snd (startAttempt sample_start (sample_world op_queued)))) =
     map (started_row 2 1 (pg_now op_queued)) (operations op_queued)"
  using start_effect [OF sample_queued_start, of "hd (operations op_queued)"] sample_queued_row
  by simp

theorem complete_success_effect_witness:
  "fst (completeAttempt Some j_OpType (sample_report True 3 []) (sample_world op_running)) =
     (WriteJSON 200 (StatusBody StatusSucceeded), [GoNotifySuccess 1 2 (Some ''{}'')])"
  using complete_success_effect [OF sample_completes [OF sample_reachable(4) sample_running_row(1,2)]
      _ sample_output_ok, of True 3 "[]" j_OpType]
  by (simp add: sample_report_def sample_op_def)

theorem complete_failure_effect_witness:
  "fst (completeAttempt Some j_OpType (sample_report False 3 ''permanent'') (sample_world op_running)) =
     (WriteJSON 200 (StatusBody StatusFailed), [GoNotifyTerminalFailure 1 2 StatusFailed])"
  using complete_failure_effect [OF sample_completes [OF sample_reachable(4) sample_running_row(1,2)],
      of False 3 "''permanent''" Some j_OpType]
  by (simp add: decided_cases) (simp add: sample_report_def sample_op_def decided_cases)

theorem retry_cycle_witness:
  "\<exists>row'\<in>set (operations (store (snd (completeAttempt Some j_OpType
       (sample_report False 100 ''transient'')
       (snd (startAttempt sample_start (sample_world op_queued))))))).
     op_ID row' = 2 \<and> op_AttemptCount row' = 1 \<and> op_Status row' = StatusRetrying"
proof -
  have d: "decoded (sample_report False 100 ''transient'') =
      Some (the (decoded (sample_report False 100 ''transient'')))"
    "url_id (sample_report False 100 ''transient'') = UuidText 2"
    "ca_AttemptID (the (decoded (sample_report False 100 ''transient''))) = UuidText 100"
    "\<not> ca_Success (the (decoded (sample_report False 100 ''transient'')))"
    "ca_ErrorCategory (the (decoded (sample_report False 100 ''transient''))) = ''transient''"
    by (simp_all add: sample_report_def)
  have n: "sa_AttemptNumber \<lparr>sa_WorkerID = ''w1'', sa_AttemptNumber = 1\<rparr> =
      op_AttemptCount (hd (operations op_queued)) + 1"
    using sample_queued_row by simp
  have r: "hd (operations op_queued) \<in> set (operations (store (sample_world op_queued)))"
    using sample_queued_row by simp
  show ?thesis
    using retry_cycle [OF sample_queued_start r sample_queued_row(2) n d, of Some j_OpType]
      sample_queued_row by auto
qed

theorem cancelled_then_succeeds_witness:
  "let w1 = snd (cancelOperation (sample_get (UuidText 1) (UuidText 2)) (sample_world op_running));
       w2 = snd (startAttempt sample_start w1);
       w3 = snd (completeAttempt Some j_OpType (sample_report True 101 []) w2)
   in (\<exists>row\<in>set (operations (store w1)). op_ID row = 2 \<and> op_Status row = StatusCancelled) \<and>
      (\<exists>row\<in>set (operations (store w3)). op_ID row = 2 \<and> op_Status row = StatusSucceeded)"
proof -
  let ?r0 = "sample_get (UuidText 1) (UuidText 2)"
  let ?row = "hd (operations op_running)"
  let ?w = "sample_world op_running"
  let ?w1 = "snd (cancelOperation ?r0 ?w)"
  have q: "quiet ?w1" by (rule moves_quiet [OF guarded.cancelOperation_moves]) simp_all
  have "schema_ok (store ?w1)" by code_simp
  moreover have "fresh (tape ?w1 (pos ?w1)) \<notin> at_ID ` set (operation_attempts (store ?w1))" by code_simp
  ultimately have st: "startable sample_start (op_ID ?row) \<lparr>sa_WorkerID = ''w1'', sa_AttemptNumber = 1\<rparr> ?w1"
    using sample_startable [OF q] sample_running_row by simp
  have nt: "\<not> IsTerminal (op_Status ?row)" by (simp add: sample_op_def)
  have r: "?row \<in> set (operations (store ?w))" using sample_running_row by simp
  have d: "decoded (sample_report True 101 []) = Some (the (decoded (sample_report True 101 [])))"
    "url_id (sample_report True 101 []) = UuidText (op_ID ?row)"
    "ca_AttemptID (the (decoded (sample_report True 101 []))) = UuidText 101"
    "ca_Success (the (decoded (sample_report True 101 [])))"
    using sample_running_row by (simp_all add: sample_report_def)
  have h: "h_tenant ?r0 = UuidText (op_TenantID ?row)" "url_id ?r0 = UuidText (op_ID ?row)"
    using sample_running_row by simp_all
  show ?thesis
    using cancelled_then_succeeds [OF quiet_sample _ r nt h st d sample_output_ok, of j_OpType]
      schema.at_reachable [OF sample_reachable(4)] sample_running_row
    by (simp add: Let_def)
qed

theorem late_success_witness:
  "operations (store (snd (completeAttempt Some j_OpType (sample_report True 3 [])
     (sample_world op_cancelled)))) = operations op_cancelled"
  using late_success [OF sample_completes [OF sample_reachable(6),
        of "hd (operations op_cancelled)"] _ sample_output_ok, of True 3 "[]" j_OpType]
  by (simp add: sample_report_def) (simp add: sample_op_def)

theorem slot_balance_witness:
  "counter 1 (redis_state (store (snd (completeAttempt Some j_OpType
      (sample_report False 100 ''transient'')
      (snd (startAttempt sample_start (sample_world op_queued))))))) =
   counter 1 (redis_state op_queued)"
proof -
  have r: "hd (operations op_queued) \<in> set (operations (store (sample_world op_queued)))"
    using sample_queued_row by simp
  have d: "decoded (sample_report False 100 ''transient'') =
      Some (the (decoded (sample_report False 100 ''transient'')))"
    "url_id (sample_report False 100 ''transient'') = UuidText 2"
    "ca_AttemptID (the (decoded (sample_report False 100 ''transient''))) = UuidText 100"
    by (simp_all add: sample_report_def)
  have "0 \<le> counter (op_TenantID (hd (operations op_queued)))
      (redis_state (store (sample_world op_queued)))" by code_simp
  then show ?thesis
    using slot_balance [OF sample_queued_start r sample_queued_row(2) d sample_output_ok,
        of 1 j_OpType] by simp
qed

end
