(* ===== verification/Scheduling.thy ===== *)
theory Scheduling
  imports Sample "HOL-Library.Multiset"
begin

text \<open>
  The queue and the retry scheduler: jobs leave the queue in the order they came, a delayed job is
  released exactly when its backoff has elapsed, none is lost or doubled on the way, and the backoff
  grows up to its cap.
\<close>

section \<open>Order\<close>

text \<open>The examples have one job in the queue and two delayed ones.\<close>

definition busy_redis :: redis where
  "busy_redis = \<lparr>main_queue = [''a''], delayed = [ZEntry 9 ''c'', ZEntry 3 ''b''],
                 concurrency = Map.empty\<rparr>"

definition busy_world :: "platform world" where
  "busy_world = sample_world (empty_platform\<lparr>redis_state := busy_redis, clock := 5 * second\<rparr>)"

lemma busy_world_simps [simp]:
  "quiet busy_world" "redis_state (store busy_world) = busy_redis"
  "clock (store busy_world) = 5 * second" "zset_ok busy_redis"
  by (simp_all add: busy_world_def zset_ok_def busy_redis_def)

text \<open>The queue is first in, first out: on an empty queue, popping as often as was pushed gives
  back the pushed jobs in the order of the pushes.\<close>

lemma queue_fifo:
  assumes "main_queue r = []"
  shows "fst (main.pops (length js) (fold redis_lpush (map enc js) r)) = map enc js"
  using main.pops_in_order [of r "map enc js"] assms by simp

section \<open>Promotion\<close>

lemma PromoteDueRetries_quiet:
  assumes "quiet w"
  defines "r \<equiv> redis_state (store w)" and "ms \<equiv> redis_zrangebyscore 0 (unix (clock (store w)))
    (redis_state (store w))"
  shows "fst (PromoteDueRetries w) = (int (length ms), None)"
    and "store (snd (PromoteDueRetries w)) = (store w)\<lparr>redis_state := promote ms r\<rparr>"
  using assms
  by (auto simp: PromoteDueRetries_def call_quiet reading_def promote_stmt_def redis_cmd_def
      promote_def Let_def)

definition all_jobs :: "redis \<Rightarrow> string multiset" where
  "all_jobs r = mset (main_queue r) + mset (map z_member (delayed r))"

lemma mset_zrangebyscore:
  "mset (redis_zrangebyscore 0 n r) = image_mset z_member (filter_mset (due n) (mset (delayed r)))"
proof -
  have "filter (\<lambda>e. 0 \<le> z_score e \<and> z_score e \<le> n) (delayed r) = filter (due n) (delayed r)"
    by (rule filter_cong) (auto simp: due_def)
  then show ?thesis
    by (simp add: redis_zrangebyscore_def mset_filter)
qed

lemma mset_split: "filter_mset P M + filter_mset (\<lambda>x. \<not> P x) M = M"
  by (metis multiset_partition)

lemma promote_all_jobs:
  assumes "zset_ok r"
  shows "all_jobs (promote (redis_zrangebyscore 0 n r) r) = all_jobs r"
proof -
  have d: "image_mset z_member (mset (delayed (promote (redis_zrangebyscore 0 n r) r))) =
      image_mset z_member (filter_mset (\<lambda>e. \<not> due n e) (mset (delayed r)))"
    unfolding not_due_stay [OF assms] by simp
  have "all_jobs (promote (redis_zrangebyscore 0 n r) r) =
      mset (main_queue r) + (image_mset z_member (filter_mset (due n) (mset (delayed r))) +
        image_mset z_member (filter_mset (\<lambda>e. \<not> due n e) (mset (delayed r))))"
    by (simp add: all_jobs_def promote_main_queue mset_zrangebyscore d)
  also have "image_mset z_member (filter_mset (due n) (mset (delayed r))) +
        image_mset z_member (filter_mset (\<lambda>e. \<not> due n e) (mset (delayed r))) =
      image_mset z_member (mset (delayed r))"
    by (simp only: mset_split flip: image_mset_union)
  finally show ?thesis by (simp add: all_jobs_def)
qed

text \<open>Undisturbed, a tick of the scheduler pushes exactly the delayed jobs that are due, in the
  order of their times, behind the jobs in the queue, keeps exactly the others delayed, and neither
  loses nor doubles a job. It changes nothing else and reports the number of jobs moved.\<close>

theorem promote_due:
  assumes "quiet w" and "zset_ok (redis_state (store w))"
  defines "r \<equiv> redis_state (store w)" and "n \<equiv> unix (clock (store w))"
    and "r' \<equiv> redis_state (store (snd (PromoteDueRetries w)))"
  shows "rev (main_queue r') = rev (main_queue r) @ redis_zrangebyscore 0 n r \<and>
    delayed r' = filter (\<lambda>e. \<not> due n e) (delayed r) \<and> all_jobs r' = all_jobs r \<and>
    store (snd (PromoteDueRetries w)) = (store w)\<lparr>redis_state := r'\<rparr> \<and>
    fst (PromoteDueRetries w) = (int (length (filter (due n) (delayed r))), None)"
proof -
  have "redis_state (store w) = r" by (simp add: r_def)
  have "r' = promote (redis_zrangebyscore 0 n r) r"
    using PromoteDueRetries_quiet [OF assms(1)] by (simp add: r'_def r_def n_def)
  moreover have "length (redis_zrangebyscore 0 n r) = length (filter (due n) (delayed r))"
    by (metis mset_zrangebyscore mset_filter size_image_mset size_mset)
  ultimately show ?thesis
    using PromoteDueRetries_quiet [OF assms(1)] assms(2) promote_all_jobs not_due_stay
    by (simp add: promote_main_queue r_def n_def)
qed

theorem promote_due_witness:
  "rev (main_queue (redis_state (store (snd (PromoteDueRetries busy_world))))) = [''a'', ''b''] \<and>
   delayed (redis_state (store (snd (PromoteDueRetries busy_world)))) = [ZEntry 9 ''c'']"
proof -
  have "redis_zrangebyscore 0 (unix (clock (store busy_world))) (redis_state (store busy_world)) =
      [''b'']"
    by code_simp
  moreover have "\<not> due (unix (5 * second)) (ZEntry 9 ''c'')" "due (unix (5 * second)) (ZEntry 3 ''b'')"
    by (code_simp, code_simp)
  ultimately show ?thesis
    using promote_due [OF busy_world_simps(1), unfolded busy_world_simps, OF busy_world_simps(4)]
    by (simp add: busy_redis_def)
qed

text \<open>C22: If nobody else touches the platform during a tick, and the delayed set holds no member twice, as in
  every reachable state, then whichever of the tick's calls fail, before or after taking effect, it
  loses no job and invents none: queue and delayed set together hold the same jobs. (A second
  scheduler between the tick's two calls would push the due jobs twice.)\<close>

theorem promote_never_loses:
  assumes "\<forall>k. others (tape w k) = id" and "zset_ok (redis_state (store w))"
  shows "all_jobs (redis_state (store (snd (PromoteDueRetries w)))) =
    all_jobs (redis_state (store w))"
proof -
  let ?n = "unix (clock (store w))" and ?r = "redis_state (store w)"
  have "redis_state (store (snd (PromoteDueRetries w))) \<in>
      {?r, promote (redis_zrangebyscore 0 ?n ?r) ?r}"
    using assms(1)
    by (auto simp: PromoteDueRetries_def call_def reading_def promote_stmt_def redis_cmd_def Let_def
        split: outcome.splits)
  then show ?thesis using promote_all_jobs [OF assms(2)] by auto
qed

theorem promote_never_loses_witness:
  "all_jobs (redis_state (store (snd (PromoteDueRetries (refusing 1 busy_world))))) =
   {#''a'', ''b'', ''c''#}"
  using promote_never_loses [of "refusing 1 busy_world"]
  by (simp add: refusing_def busy_world_def all_jobs_def) (simp add: busy_redis_def)

text \<open>A scheduled retry is released exactly when its delay has elapsed, to the second: at a tick
  at time \<open>c\<close> the job is in the queue if its time has come, and still delayed otherwise.\<close>

theorem retry_released:
  fixes c :: gotime and enc :: "job \<Rightarrow> string"
  assumes "quiet w" and "zset_ok (redis_state (store w))"
    and "enc j \<notin> set (main_queue (redis_state (store w)))" and "0 \<le> clock (store w) + d"
  defines "w1 \<equiv> snd (ScheduleRetry enc j d w)"
  defines "w2 \<equiv> snd (PromoteDueRetries (w1\<lparr>store := (store w1)\<lparr>clock := c\<rparr>\<rparr>))"
  shows "(enc j \<in> set (main_queue (redis_state (store w2))) \<longleftrightarrow>
      unix (clock (store w) + d) \<le> unix c) \<and>
    (enc j \<in> z_member ` set (delayed (redis_state (store w2))) \<longleftrightarrow>
      unix c < unix (clock (store w) + d))"
proof -
  let ?s = "unix (clock (store w) + d)"
  let ?r1 = "redis_zadd ?s (enc j) (redis_state (store w))"
  have s: "0 \<le> ?s" using assms(4) by (simp add: unix_def second_def pos_imp_zdiv_nonneg_iff)
  have w1: "store w1 = (store w)\<lparr>redis_state := ?r1\<rparr>" "quiet w1"
    using assms(1) by (simp_all add: w1_def ScheduleRetry_def call_quiet zadd_stmt_def redis_cmd_def)
  have z: "zset_ok ?r1" using assms(2) by (rule zset_ok_zadd)
  have r2: "redis_state (store w2) = promote (redis_zrangebyscore 0 (unix c) ?r1) ?r1"
    using PromoteDueRetries_quiet(2) [of "w1\<lparr>store := (store w1)\<lparr>clock := c\<rparr>\<rparr>"] w1
    by (simp add: w2_def)
  have only: "e \<in> set (delayed ?r1) \<and> z_member e = enc j \<longleftrightarrow> e = ZEntry ?s (enc j)" for e
    by (auto simp: redis_zadd_def)
  have mem: "enc j \<in> z_member ` {e \<in> set (delayed ?r1). Q e} \<longleftrightarrow> Q (ZEntry ?s (enc j))" for Q
    using only by (auto simp: image_iff) metis+
  have "main_queue ?r1 = main_queue (redis_state (store w))" by (simp add: redis_zadd_def)
  then have "enc j \<in> set (main_queue (redis_state (store w2))) \<longleftrightarrow> due (unix c) (ZEntry ?s (enc j))"
    using assms(3) mem [of "due (unix c)"]
    by (simp add: r2 promote_main_queue set_zrangebyscore)
  then have "enc j \<in> set (main_queue (redis_state (store w2))) \<longleftrightarrow> ?s \<le> unix c"
    using s by (simp add: due_def)
  moreover
  have "enc j \<in> z_member ` set (delayed (redis_state (store w2))) \<longleftrightarrow>
      \<not> due (unix c) (ZEntry ?s (enc j))"
    using mem [of "\<lambda>e. \<not> due (unix c) e"] by (simp add: r2 not_due_stay [OF z])
  then have "enc j \<in> z_member ` set (delayed (redis_state (store w2))) \<longleftrightarrow> unix c < ?s"
    using s by (auto simp: due_def)
  ultimately show ?thesis by blast
qed

theorem retry_released_witness:
  "''job'' \<in> set (main_queue (redis_state (store (snd (PromoteDueRetries
      ((snd (ScheduleRetry (\<lambda>j. ''job'') undefined (2 * second) busy_world))
         \<lparr>store := (store (snd (ScheduleRetry (\<lambda>j. ''job'') undefined (2 * second) busy_world)))
            \<lparr>clock := 7 * second\<rparr>\<rparr>))))))"
  using retry_released [of busy_world "\<lambda>j. ''job''" undefined "2 * second" "7 * second"]
  by (simp add: second_def unix_def) (simp add: busy_redis_def)

section \<open>Backoff\<close>

text \<open>C30: The backoff of attempt \<open>a\<close> is two seconds doubled \<open>a\<close> times, at most a minute, plus at
  most a fifth of that as jitter; so it is between 2 and 72 seconds.\<close>

theorem backoff_bounds:
  assumes "0 \<le> a" and "a \<le> 32" and "0 \<le> nanos"
  defines "d \<equiv> min (60 * second) (2 * second * 2 ^ nat a)"
  shows "d \<le> BackoffDelay a nanos \<and> 5 * BackoffDelay a nanos \<le> 6 * d \<and>
    2 * second \<le> BackoffDelay a nanos \<and> BackoffDelay a nanos \<le> 72 * second"
  using BackoffDelay_near_base [OF assms(1-3)] base_delay_bounds [OF assms(1,2)]
    base_delay_eq [OF assms(1,2)]
  by (auto simp: d_def)

theorem backoff_bounds_witness:
  "60 * second \<le> BackoffDelay 7 123 \<and> BackoffDelay 7 123 \<le> 72 * second"
  using backoff_bounds [of 7 123] by (simp add: second_def)

text \<open>Until the cap is reached, a later attempt always waits longer than an earlier one, whatever
  the jitters.\<close>

theorem backoff_grows:
  assumes "0 \<le> a" and "a < b" and "b \<le> 5" and "0 \<le> n" and "0 \<le> n'"
  shows "BackoffDelay a n < BackoffDelay b n'"
proof -
  have a: "base_delay a = 2 * second * 2 ^ nat a"
  proof -
    have "(2::int) ^ nat a \<le> 2 ^ 4" by (rule power_increasing) (use assms in auto)
    then show ?thesis using base_delay_eq [of a] assms by (simp add: second_def)
  qed
  have "5 * BackoffDelay a n \<le> 6 * base_delay a"
    using BackoffDelay_near_base [of a n] assms by simp
  moreover have "base_delay b \<le> BackoffDelay b n'"
    using BackoffDelay_near_base [of b n'] assms by simp
  moreover have "6 * base_delay a < 5 * base_delay b"
  proof -
    define x y where "x = (2::int) ^ nat a" and "y = (2::int) ^ nat b"
    have "x \<le> 2 ^ 4" unfolding x_def by (rule power_increasing) (use assms in auto)
    moreover have "2 * x \<le> y"
    proof -
      have "2 * x = 2 ^ Suc (nat a)" by (simp add: x_def)
      also have "\<dots> \<le> y" unfolding y_def by (rule power_increasing) (use assms in auto)
      finally show ?thesis .
    qed
    moreover have "1 \<le> x" by (simp add: x_def)
    ultimately show ?thesis
      using a base_delay_eq [of b] assms
      by (simp add: second_def min_def flip: x_def y_def)
  qed
  ultimately show ?thesis by linarith
qed

theorem backoff_grows_witness: "BackoffDelay 1 999 < BackoffDelay 2 0"
  using backoff_grows [of 1 2 999 0] by simp

text \<open>From attempt 33 on the shift leaves the range of a 64-bit duration: the delay of attempt 33
  is negative, and that of attempt 64 is zero, so such a retry would be due at once.\<close>

lemma backoff_wraps:
  "BackoffDelay 33 0 < 0 \<and> base_delay 64 = 0 \<and> BackoffDelay 64 n = 0"
proof -
  have z: "base_delay 64 = 0" and n: "base_delay 33 = - 1266874889709551616"
    by (code_simp, code_simp)
  have j: "jitter d 0 = 0" "jitter 0 m = 0" for d m
    by (simp_all add: jitter_def jitterFraction_def go_rem_def f64_def f64_trunc_def)
  show ?thesis by (simp add: BackoffDelay_def z n j wrap64_def)
qed

end
