(* ===== verification/Delivery.thy ===== *)
theory Delivery
  imports Sample "HOL-Library.Multiset"
begin

text \<open>
  Webhook delivery: which requests the dispatcher sends, to whom and with which signature, how an
  answer decides the fate of a delivery, and that a delivery is not attempted for ever.
\<close>

section \<open>One attempt\<close>

definition request_to :: "string \<Rightarrow> string \<Rightarrow> json \<Rightarrow> gotime \<Rightarrow> webhook_request" where
  "request_to url secret body now =
     \<lparr>wr_URL = url, wr_Body = body, wr_Signature = sign secret body,
      wr_Timestamp = now div 1000000000\<rparr>"

definition is_2xx :: "int option \<Rightarrow> bool" where
  "is_2xx resp \<longleftrightarrow> (case resp of None \<Rightarrow> False | Some code \<Rightarrow> 200 \<le> code \<and> code < 300)"

definition verdict :: "bool \<Rightarrow> int option \<Rightarrow> int \<Rightarrow> gotime \<Rightarrow> mark" where
  "verdict sendable resp attempt now =
     (if \<not> sendable then MarkPermanent
      else if is_2xx resp then MarkSuccess
      else if 5 \<le> attempt then MarkPermanent
      else MarkReschedule (now + attempt * attempt * 5 * second))"

definition marked :: "uuid \<Rightarrow> mark \<Rightarrow> platform \<Rightarrow> platform" where
  "marked d m p =
     p\<lparr>webhook_deliveries :=
        map (\<lambda>r. if wd_ID r = d then mark_row m (pg_now p) r else r) (webhook_deliveries p)\<rparr>"

definition countable :: "uuid \<Rightarrow> platform \<Rightarrow> bool" where
  "countable d p \<longleftrightarrow> (\<forall>r\<in>set (webhook_deliveries p). wd_ID r = d \<longrightarrow> int4_ok (wd_AttemptCount r + 1))"

lemma mark_stmt_marked: "countable d p \<Longrightarrow> mark_stmt d m u p = (Inr (), marked d m p)"
  by (auto simp: mark_stmt_def countable_def marked_def mark_cond_def mark_set_def upd_where_def
      Let_def)

lemma webhook_backoff_small:
  "0 \<le> a \<Longrightarrow> a < 5 \<Longrightarrow> webhook_backoff a = a * a * 5 * second"
proof -
  assume "0 \<le> a" "a < 5"
  then have "a = 0 \<or> a = 1 \<or> a = 2 \<or> a = 3 \<or> a = 4" by linarith
  then show ?thesis by (auto simp: webhook_backoff_def wrap64_def second_def)
qed

lemma attemptDelivery_quiet:
  assumes "quiet w" and "countable d (store w)" and "0 \<le> n"
  shows "fst (attemptDelivery uok d url sec body n w) =
      (if uok url then [request_to url sec body (clock (store w))] else [])"
    and "store (snd (attemptDelivery uok d url sec body n w)) =
      marked d (verdict (uok url) (reply (tape w (pos w))) n (clock (store w))) (store w)"
    and "quiet (snd (attemptDelivery uok d url sec body n w))"
    and "tape (snd (attemptDelivery uok d url sec body n w)) = tape w"
    and "pos w < pos (snd (attemptDelivery uok d url sec body n w))"
  using assms
  by (auto simp: attemptDelivery_def Let_def MarkDeliverySuccess_def maxAttempts_def
      MarkDeliveryPermanentlyFailed_def MarkDeliveryFailedAndReschedule_def call_quiet http_do_quiet
      mark_stmt_marked verdict_def is_2xx_def request_to_def webhook_backoff_small
      split: option.splits)

text \<open>An undisturbed attempt of a delivery sends one POST, signed with the endpoint's secret over
  the body, and settles the delivery by the answer: DELIVERED on a 2xx status, FAILED on anything
  else at the fifth attempt or when the URL does not parse, and otherwise PENDING again, due after
  \<open>5 n\<^sup>2\<close> seconds. It counts as one attempt, and no other delivery changes.\<close>

theorem attempt_verdict:
  assumes "quiet w" and "countable d (store w)" and "0 \<le> n"
  shows "fst (attemptDelivery uok d url sec body n w) =
      (if uok url then [request_to url sec body (clock (store w))] else []) \<and>
    store (snd (attemptDelivery uok d url sec body n w)) =
      marked d (verdict (uok url) (reply (tape w (pos w))) n (clock (store w))) (store w)"
  using attemptDelivery_quiet [OF assms] by simp

section \<open>The retry sweep\<close>

definition request_for :: "gotime \<Rightarrow> DueDelivery \<Rightarrow> webhook_request" where
  "request_for now i = request_to (dd_URL i) (dd_Secret i) (dd_Payload i) now"

definition settled :: "delivery_row \<Rightarrow> bool" where
  "settled r \<longleftrightarrow> 0 \<le> wd_AttemptCount r \<and> wd_AttemptCount r \<le> 5 \<and>
     (wd_Status r = DeliveryPending \<longrightarrow> wd_AttemptCount r \<le> 4)"

definition bounded :: "platform \<Rightarrow> bool" where
  "bounded p \<longleftrightarrow> (\<forall>r\<in>set (webhook_deliveries p). settled r)"

text \<open>What the sweep has read is still so when it comes to an item.\<close>

definition current :: "platform \<Rightarrow> DueDelivery \<Rightarrow> bool" where
  "current p i \<longleftrightarrow> 0 \<le> dd_AttemptCount i \<and> dd_AttemptCount i \<le> 4 \<and>
     (\<forall>r\<in>set (webhook_deliveries p). wd_ID r = dd_ID i \<longrightarrow> wd_AttemptCount r = dd_AttemptCount i)"

lemma marked_fields [simp]:
  "clock (marked d m p) = clock p" "webhook_endpoints (marked d m p) = webhook_endpoints p"
  "usage_events (marked d m p) = usage_events p" "operations (marked d m p) = operations p"
  "tenants (marked d m p) = tenants p" "pg_now (marked d m p) = pg_now p"
  by (simp_all add: marked_def pg_now_def)

lemma mark_row_id [simp]: "wd_ID (mark_row m n r) = wd_ID r"
  "wd_AttemptCount (mark_row m n r) = wd_AttemptCount r + 1"
  "wd_WebhookID (mark_row m n r) = wd_WebhookID r"
  by (cases m; simp)+

lemma current_countable: "current p i \<Longrightarrow> countable (dd_ID i) p"
  by (auto simp: current_def countable_def int4_ok_def)

lemma current_marked: "current p i \<Longrightarrow> dd_ID i \<noteq> d \<Longrightarrow> current (marked d m p) i"
  by (auto simp: current_def marked_def)

lemma verdict_pending:
  "wd_Status (mark_row (verdict s resp n now) t r) = DeliveryPending \<Longrightarrow> n < 5"
  by (auto simp: verdict_def split: if_splits)

lemma bounded_marked:
  assumes "bounded p" and "current p i" and "n = dd_AttemptCount i + 1"
  shows "bounded (marked (dd_ID i) (verdict s resp n now) p)"
  using assms verdict_pending [of s resp n now "pg_now p"]
  by (fastforce simp: bounded_def marked_def settled_def current_def)

lemma retry_loop_quiet:
  assumes "quiet w" and "bounded (store w)" and "\<forall>i\<in>set items. current (store w) i"
    and "distinct (map dd_ID items)"
  shows "fst (retry_loop uok items w) =
      map (request_for (clock (store w))) (filter (\<lambda>i. uok (dd_URL i)) items) \<and>
    bounded (store (snd (retry_loop uok items w)))"
  using assms
proof (induction items arbitrary: w)
  case Nil
  then show ?case by simp
next
  case (Cons i items)
  let ?n = "dd_AttemptCount i + 1"
  let ?a = "attemptDelivery uok (dd_ID i) (dd_URL i) (dd_Secret i) (dd_Payload i) ?n w"
  have c: "current (store w) i" using Cons.prems by simp
  note q = attemptDelivery_quiet [OF Cons.prems(1) current_countable [OF c],
      of ?n uok "dd_URL i" "dd_Secret i" "dd_Payload i"]
  have n: "0 \<le> ?n" using c by (simp add: current_def)
  note q = q [OF n]
  have "bounded (store (snd ?a))"
    unfolding q(2) by (rule bounded_marked [OF Cons.prems(2) c refl])
  moreover have "\<forall>j\<in>set items. current (store (snd ?a)) j"
  proof
    fix j
    assume j: "j \<in> set items"
    with Cons.prems(4) have "dd_ID j \<noteq> dd_ID i" by (metis distinct.simps(2) image_eqI list.simps(9) set_map)
    with j Cons.prems(3) show "current (store (snd ?a)) j"
      unfolding q(2) by (auto intro: current_marked)
  qed
  ultimately have "fst (retry_loop uok items (snd ?a)) =
      map (request_for (clock (store (snd ?a)))) (filter (\<lambda>i. uok (dd_URL i)) items) \<and>
    bounded (store (snd (retry_loop uok items (snd ?a))))"
    using Cons.IH [of "snd ?a"] Cons.prems(4) q(3) by simp
  moreover have "clock (store (snd ?a)) = clock (store w)" by (simp add: q(2))
  ultimately show ?case using q(1) by (simp add: case_prod_beta request_for_def)
qed

lemma join_endpoint_items:
  assumes "distinct (map we_ID (webhook_endpoints p))"
  shows "length (join_endpoint p d) \<le> 1"
    and "i \<in> set (join_endpoint p d) \<Longrightarrow>
      dd_ID i = wd_ID d \<and> dd_AttemptCount i = wd_AttemptCount d \<and> dd_Payload i = wd_Payload d \<and>
      (\<exists>e\<in>set (webhook_endpoints p). we_ID e = wd_WebhookID d \<and> we_URL e = dd_URL i \<and>
         we_Secret e = dd_Secret i)"
proof -
  have "length (filter (\<lambda>e. we_ID e = x) es) \<le> 1" if "distinct (map we_ID es)"
    for x and es :: "endpoint_with_secret list"
    using that by (induction es) (auto simp: filter_empty_conv image_iff)
  then show "length (join_endpoint p d) \<le> 1" using assms by (simp add: join_endpoint_def)
qed (auto simp: join_endpoint_def)

lemma distinct_joined:
  assumes e: "distinct (map we_ID (webhook_endpoints p))" and "distinct (map wd_ID ds)"
  shows "distinct (map dd_ID (concat (map (join_endpoint p) ds)))"
  using assms(2)
proof (induction ds)
  case Nil
  then show ?case by simp
next
  case (Cons d ds)
  have "distinct (map dd_ID (join_endpoint p d))"
    using join_endpoint_items(1) [OF e, of d] by (cases "join_endpoint p d") auto
  then show ?case
    using Cons join_endpoint_items(2) [OF e] by (fastforce simp: image_iff)
qed

lemma due_joined_items:
  assumes "i \<in> set (due_joined k p)" and "distinct (map we_ID (webhook_endpoints p))"
  obtains d where "d \<in> set (webhook_deliveries p)" and "due_at (pg_now p) d"
    and "i \<in> set (join_endpoint p d)"
proof -
  have "i \<in> set (concat (map (join_endpoint p)
      (sort_key next_attempt_key (filter (due_at (pg_now p)) (webhook_deliveries p)))))"
    using assms(1) unfolding due_joined_def by (rule in_set_takeD)
  then show ?thesis using that by auto
qed

lemma due_joined_distinct:
  assumes "schema_ok p"
  shows "distinct (map dd_ID (due_joined k p))"
proof -
  have "distinct (map wd_ID (sort_key next_attempt_key
      (filter (due_at (pg_now p)) (webhook_deliveries p))))"
    using assms by (auto simp: schema_ok_def primary_keys_def distinct_map intro: inj_on_subset)
  then show ?thesis
    using distinct_joined assms
    by (simp add: due_joined_def schema_ok_def primary_keys_def distinct_take flip: take_map)
qed

lemma due_joined_current:
  assumes "schema_ok p" and "bounded p" and "i \<in> set (due_joined k p)"
  shows "current p i"
proof -
  have e: "distinct (map we_ID (webhook_endpoints p))" and inj: "inj_on wd_ID (set (webhook_deliveries p))"
    using assms(1) by (auto simp: schema_ok_def primary_keys_def distinct_map)
  obtain d where d: "d \<in> set (webhook_deliveries p)" "due_at (pg_now p) d" "i \<in> set (join_endpoint p d)"
    using due_joined_items [OF assms(3) e] .
  have i: "dd_ID i = wd_ID d" "dd_AttemptCount i = wd_AttemptCount d"
    using join_endpoint_items(2) [OF e d(3)] by auto
  have "settled d" using assms(2) d(1) by (simp add: bounded_def)
  then show ?thesis
    using d(1,2) i inj by (auto simp: current_def settled_def due_at_def dest: inj_onD)
qed

lemma RetryDue_quiet:
  assumes "quiet w" and "schema_ok (store w)" and "bounded (store w)"
  defines "items \<equiv> due_joined 50 (store w)"
  shows "fst (RetryDue uok w) = Inr (int (length items),
      map (request_for (clock (store w))) (filter (\<lambda>i. uok (dd_URL i)) items))"
    and "bounded (store (snd (RetryDue uok w)))"
proof -
  have read: "DueDeliveriesWithEndpoint 50 w = (Inr items, w\<lparr>pos := Suc (pos w)\<rparr>)"
    using assms(1) by (simp add: DueDeliveriesWithEndpoint_def call_quiet reading_def items_def)
  have "\<forall>i\<in>set items. current (store (w\<lparr>pos := Suc (pos w)\<rparr>)) i" "distinct (map dd_ID items)"
    using assms(2,3) by (auto simp: items_def due_joined_current due_joined_distinct)
  from retry_loop_quiet [OF _ _ this, of uok] assms(1,3)
  show "fst (RetryDue uok w) = Inr (int (length items),
      map (request_for (clock (store w))) (filter (\<lambda>i. uok (dd_URL i)) items))"
    and "bounded (store (snd (RetryDue uok w)))"
    by (simp_all add: RetryDue_def read case_prod_beta)
qed

text \<open>An undisturbed sweep resends exactly the deliveries that are PENDING and due, earliest
  first and at most 50, each once: to its own endpoint's URL, with the payload stored for it and a
  fresh signature by the endpoint's secret.\<close>

theorem sweep_sends_due:
  assumes "quiet w" and "schema_ok (store w)" and "bounded (store w)"
  defines "items \<equiv> due_joined 50 (store w)"
  shows "fst (RetryDue uok w) = Inr (int (length items),
      map (request_for (clock (store w))) (filter (\<lambda>i. uok (dd_URL i)) items)) \<and>
    length items \<le> 50 \<and> distinct (map dd_ID items) \<and>
    (\<forall>i\<in>set items. \<exists>d\<in>set (webhook_deliveries (store w)). \<exists>e\<in>set (webhook_endpoints (store w)).
       due_at (pg_now (store w)) d \<and> dd_ID i = wd_ID d \<and> dd_Payload i = wd_Payload d \<and>
       we_ID e = wd_WebhookID d \<and> dd_URL i = we_URL e \<and> dd_Secret i = we_Secret e)"
proof -
  have e: "distinct (map we_ID (webhook_endpoints (store w)))"
    using assms(2) by (simp add: schema_ok_def primary_keys_def)
  have "length items \<le> 50" by (simp add: items_def due_joined_def)
  moreover have "distinct (map dd_ID items)" using assms(2) by (simp add: items_def due_joined_distinct)
  moreover have "\<exists>d\<in>set (webhook_deliveries (store w)). \<exists>e\<in>set (webhook_endpoints (store w)).
       due_at (pg_now (store w)) d \<and> dd_ID i = wd_ID d \<and> dd_Payload i = wd_Payload d \<and>
       we_ID e = wd_WebhookID d \<and> dd_URL i = we_URL e \<and> dd_Secret i = we_Secret e"
    if "i \<in> set items" for i
    using that unfolding items_def
    by (rule due_joined_items [OF _ e]) (use join_endpoint_items(2) [OF e] in metis)
  ultimately show ?thesis using RetryDue_quiet [OF assms(1-3)] by (simp add: items_def)
qed

text \<open>Sweeps at the given times, one after the other.\<close>

definition sweeps :: "(string \<Rightarrow> bool) \<Rightarrow> gotime list \<Rightarrow> platform world \<Rightarrow> platform world" where
  "sweeps uok cs w = fold (\<lambda>c w. retryLoop_tick uok (w\<lparr>store := (store w)\<lparr>clock := c\<rparr>\<rparr>)) cs w"

text \<open>C23: Sweeps do not attempt a delivery for ever: if no delivery has more than five attempts and
  no PENDING one more than four, that is so after any number of sweeps at any times, if they run one
  after the other and undisturbed. (When attempts overlap, as in \<open>Overlaps\<close>, the count is not bounded by
  the code.)\<close>

theorem deliveries_bounded:
  assumes "quiet w" and "schema_ok (store w)" and "bounded (store w)"
  shows "bounded (store (sweeps uok cs w))"
  using assms
proof (induction cs arbitrary: w)
  case Nil
  then show ?case by (simp add: sweeps_def)
next
  case (Cons c cs)
  let ?v = "w\<lparr>store := (store w)\<lparr>clock := c\<rparr>\<rparr>"
  have v: "quiet ?v" "schema_ok (store ?v)" "bounded (store ?v)"
    using Cons.prems by (simp_all add: schema_defs bounded_def)
  note m = full.RetryDue_moves [OF quiet_tame [OF v(1)], of uok]
  have "sweeps uok (c # cs) w = sweeps uok cs (snd (RetryDue uok ?v))"
    by (simp add: sweeps_def retryLoop_tick_def)
  then show ?case
    using Cons.IH [OF moves_quiet [OF m v(1)]] schema.of_moves [OF m] v(2) RetryDue_quiet(2) [OF v]
    by simp
qed

section \<open>Dispatch\<close>

definition event_for :: "idtext \<Rightarrow> idtext \<Rightarrow> string \<Rightarrow> json option \<Rightarrow> gotime \<Rightarrow> eventPayload" where
  "event_for t i ev data now =
     \<lparr>ep_EventType = ev, ep_OperationID = i, ep_TenantID = t, ep_Timestamp = now, ep_Data = data\<rparr>"

definition addressed ::
    "(eventPayload \<Rightarrow> json option) \<Rightarrow> idtext \<Rightarrow> idtext \<Rightarrow> string \<Rightarrow> json option \<Rightarrow>
     endpoint_with_secret list \<Rightarrow> webhook_request \<Rightarrow> bool" where
  "addressed enc t i ev data es q \<longleftrightarrow>
     (\<exists>e\<in>set es. \<exists>now. wr_URL q = we_URL e \<and> enc (event_for t i ev data now) = Some (wr_Body q) \<and>
        wr_Signature q = sign (we_Secret e) (wr_Body q))"

lemma attemptDelivery_request:
  "q \<in> set (fst (attemptDelivery uok d url sec body n w)) \<Longrightarrow>
     wr_URL q = url \<and> wr_Body q = body \<and> wr_Signature q = sign sec body"
  by (auto simp: attemptDelivery_def Let_def split: prod.splits if_splits)

lemma addressed_Cons: "addressed enc t i ev data es q \<Longrightarrow> addressed enc t i ev data (e # es) q"
  by (auto simp: addressed_def)

lemma dispatch_loop_addressed:
  "q \<in> set (fst (dispatch_loop jb enc uok t i ev data es w)) \<Longrightarrow> addressed enc t i ev data es q"
proof (induction es arbitrary: w)
  case Nil
  then show ?case by simp
next
  case (Cons e es)
  let ?ev = "event_for t i ev data (clock (store w))"
  let ?loop = "dispatch_loop jb enc uok t i ev data es"
  show ?case
  proof (cases "enc ?ev")
    case None
    then have "q \<in> set (fst (?loop w))" using Cons.prems by (simp add: event_for_def Let_def)
    then show ?thesis by (intro addressed_Cons Cons.IH)
  next
    case (Some body)
    obtain r w1 where c: "CreateDelivery jb (we_ID e) i ev body w = (r, w1)" by fastforce
    show ?thesis
    proof (cases r)
      case (Inl err)
      then have "q \<in> set (fst (?loop w1))" using Cons.prems Some c by (simp add: event_for_def Let_def)
      then show ?thesis by (intro addressed_Cons Cons.IH)
    next
      case (Inr d)
      let ?a = "attemptDelivery uok d (we_URL e) (we_Secret e) body 1 w1"
      have "q \<in> set (fst ?a) \<or> q \<in> set (fst (?loop (snd ?a)))"
        using Cons.prems Some c Inr by (simp add: event_for_def case_prod_beta Let_def)
      then show ?thesis
      proof
        assume "q \<in> set (fst ?a)"
        then show ?thesis using attemptDelivery_request Some by (force simp: addressed_def)
      next
        assume "q \<in> set (fst (?loop (snd ?a)))"
        then show ?thesis by (intro addressed_Cons Cons.IH)
      qed
    qed
  qed
qed

text \<open>Whatever happens meanwhile, a dispatch sends only to endpoints that were active endpoints
  of the tenant when it looked them up, and each request carries the event's JSON and the signature
  of exactly that body with that endpoint's secret.\<close>

theorem dispatch_addresses:
  assumes "tame platform_step w" and "Dispatch jb enc uok t i ev data w = (Inr reqs, w')"
  shows "\<exists>x p. t = UuidText x \<and> platform_step\<^sup>*\<^sup>* (store w) p \<and>
    (\<forall>q\<in>set reqs. addressed enc t i ev data (active_endpoints x p) q)"
proof -
  obtain es w1 where a: "ActiveWebhooksForTenant t w = (Inr es, w1)"
    and reqs: "reqs = fst (dispatch_loop jb enc uok t i ev data es w1)"
    using assms(2) by (auto simp: Dispatch_def split: sum.splits prod.splits)
  show ?thesis
  proof (rule call_result [OF assms(1) a [unfolded ActiveWebhooksForTenant_def]])
    fix u p
    assume p: "platform_step\<^sup>*\<^sup>* (store w) p"
      and "with_uuid t (\<lambda>t. reading (\<lambda>p. Inr (active_endpoints t p))) u p = (Inr es, store w1)"
    then obtain x where "t = UuidText x" "es = active_endpoints x p"
      by (auto simp: with_uuid_def reading_def split: idtext.splits)
    then show ?thesis using p dispatch_loop_addressed reqs by blast
  qed simp
qed

section \<open>An example of a delivery\<close>

definition first_delivery :: platform where
  "first_delivery = snd (delivery_stmt Some 4 (UuidText 2) ''operation.succeeded'' ''{}'' 50 hook_added)"

definition delivery_states :: "platform \<Rightarrow> (string \<times> int) list" where
  "delivery_states p = map (\<lambda>r. (wd_Status r, wd_AttemptCount r)) (webhook_deliveries p)"

lemma first_delivery_due:
  "due_joined 50 first_delivery =
     [\<lparr>dd_ID = 50, dd_URL = ''http://a'', dd_Secret = ''s'', dd_Payload = ''{}'', dd_AttemptCount = 0\<rparr>]"
  "delivery_states first_delivery = [(DeliveryPending, 0)]"
  "map wd_ID (webhook_deliveries first_delivery) = [50]"
  by (code_simp, code_simp, code_simp)

lemma first_delivery_row:
  obtains r where "webhook_deliveries first_delivery = [r]" and "wd_ID r = 50"
    and "wd_AttemptCount r = 0"
  using first_delivery_due(2,3) that by (auto simp: delivery_states_def)

section \<open>The two queries of due deliveries\<close>

text \<open>
  What \<open>ORDER BY k LIMIT n\<close> promises: \<open>n\<close> of the rows, or all if there are fewer, in the order of \<open>k\<close>,
  and none of those left out comes before one of them. Which of two rows with the same key comes
  first, or is left out, is open.
\<close>

definition ordered_limit :: "('r \<Rightarrow> int) \<Rightarrow> nat \<Rightarrow> 'r list \<Rightarrow> 'r list \<Rightarrow> bool" where
  "ordered_limit k n rows rs \<longleftrightarrow>
     (\<exists>rest. mset rows = mset (rs @ rest) \<and> (\<forall>r\<in>set rs. \<forall>x\<in>set rest. k r \<le> k x)) \<and>
     sorted (map k rs) \<and> length rs = min n (length rows)"

lemma ordered_limit_take: "ordered_limit k n rows (take n (sort_key k rows))"
proof -
  let ?s = "sort_key k rows"
  have "sorted (map k (take n ?s @ drop n ?s))" unfolding append_take_drop_id by simp
  then have "sorted (map k (take n ?s))" "\<forall>r\<in>set (take n ?s). \<forall>x\<in>set (drop n ?s). k r \<le> k x"
    unfolding map_append sorted_append by auto
  moreover have "mset rows = mset (take n ?s @ drop n ?s)" unfolding append_take_drop_id by simp
  ultimately show ?thesis unfolding ordered_limit_def by (intro conjI exI [of _ "drop n ?s"]) auto
qed

text \<open>A join that adds something to each row has the same answers, with what it adds.\<close>

lemma ordered_limit_pairs:
  fixes rows :: "'r list" and f :: "'r \<Rightarrow> 'b"
  shows "ordered_limit (\<lambda>x. k (fst x)) n (map (\<lambda>r. (r, f r)) rows) ps \<longleftrightarrow>
    (\<exists>rs. ordered_limit k n rows rs \<and> ps = map (\<lambda>r. (r, f r)) rs)" (is "?l \<longleftrightarrow> ?r")
proof
  let ?g = "\<lambda>r. (r, f r)"
  assume l: ?l
  then obtain rest where m: "mset (map ?g rows) = mset (ps @ rest)"
    and o: "\<forall>x\<in>set ps. \<forall>y\<in>set rest. k (fst x) \<le> k (fst y)"
    by (auto simp: ordered_limit_def)
  have "set ps \<subseteq> set (map ?g rows)" using m [THEN mset_eq_setD] by simp
  then have ps: "ps = map ?g (map fst ps)" by (induction ps) auto
  have "image_mset fst (mset (map ?g rows)) = image_mset fst (mset (ps @ rest))" by (simp only: m)
  then have "mset rows = mset (map fst ps @ map fst rest)" by (simp add: image_mset.compositionality o_def)
  then have "ordered_limit k n rows (map fst ps)"
    using l o unfolding ordered_limit_def
    by (intro conjI exI [of _ "map fst rest"]) (simp_all add: o_def)
  then show ?r using ps by blast
next
  let ?g = "\<lambda>r. (r, f r)"
  assume ?r
  then obtain rs rest where m: "mset rows = mset (rs @ rest)" and ps: "ps = map ?g rs"
    and o: "\<forall>r\<in>set rs. \<forall>x\<in>set rest. k r \<le> k x" "sorted (map k rs)" "length rs = min n (length rows)"
    by (auto simp: ordered_limit_def)
  have "mset (map ?g rows) = mset (ps @ map ?g rest)" using m by (simp add: ps)
  then show ?l using o unfolding ordered_limit_def ps
    by (intro conjI exI [of _ "map ?g rest"]) (simp_all add: o_def)
qed

text \<open>The answers SQL allows for the plain query, and for the join with the endpoints.\<close>

definition due_answer :: "int \<Rightarrow> platform \<Rightarrow> delivery_row list \<Rightarrow> bool" where
  "due_answer k p rs \<longleftrightarrow>
     ordered_limit next_attempt_key (nat k) (filter (due_at (pg_now p)) (webhook_deliveries p)) rs"

definition joined_answer :: "int \<Rightarrow> platform \<Rightarrow> DueDelivery list \<Rightarrow> bool" where
  "joined_answer k p is \<longleftrightarrow>
     (\<exists>ps. is = map snd ps \<and>
        ordered_limit (\<lambda>x. next_attempt_key (fst x)) (nat k)
          (concat (map (\<lambda>d. map (Pair d) (join_endpoint p d))
             (filter (due_at (pg_now p)) (webhook_deliveries p)))) ps)"

lemma join_single:
  assumes "schema_ok p" and "r \<in> set (webhook_deliveries p)"
  shows "join_endpoint p r = [hd (join_endpoint p r)]"
proof -
  have "wd_WebhookID r \<in> we_ID ` set (webhook_endpoints p)"
    using assms by (auto simp: schema_ok_def foreign_keys_def)
  then have "join_endpoint p r \<noteq> []" by (auto simp: join_endpoint_def filter_empty_conv)
  moreover have "length (join_endpoint p r) \<le> 1"
    using assms(1) by (intro join_endpoint_items) (simp add: schema_ok_def primary_keys_def)
  ultimately show ?thesis by (cases "join_endpoint p r") auto
qed

text \<open>What the join adds to a delivery: address and secret of its endpoint.\<close>

definition item_of :: "platform \<Rightarrow> delivery_row \<Rightarrow> DueDelivery \<Rightarrow> bool" where
  "item_of p d i \<longleftrightarrow>
     dd_ID i = wd_ID d \<and> dd_AttemptCount i = wd_AttemptCount d \<and> dd_Payload i = wd_Payload d \<and>
     (\<exists>e\<in>set (webhook_endpoints p).
        we_ID e = wd_WebhookID d \<and> dd_URL i = we_URL e \<and> dd_Secret i = we_Secret e)"

lemma item_of_iff:
  assumes "schema_ok p" and "d \<in> set (webhook_deliveries p)"
  shows "item_of p d i \<longleftrightarrow> i = hd (join_endpoint p d)"
proof -
  have "item_of p d i \<longleftrightarrow> i \<in> set (join_endpoint p d)"
    by (cases i) (auto simp: item_of_def join_endpoint_def image_iff)
  then show ?thesis using join_single [OF assms] by (metis list.set_intros(1) list.set(1,2) singletonD)
qed

lemma due_joined_rows:
  assumes "schema_ok p"
  shows "due_joined k p = map (\<lambda>r. hd (join_endpoint p r)) (due_rows k p)"
    and "list_all2 (item_of p) (due_rows k p) (due_joined k p)"
proof -
  have "concat (map (join_endpoint p) rs) = map (\<lambda>r. hd (join_endpoint p r)) rs"
    if "set rs \<subseteq> set (webhook_deliveries p)" for rs
    using that join_single [OF assms] by (induction rs) auto
  then show j: "due_joined k p = map (\<lambda>r. hd (join_endpoint p r)) (due_rows k p)"
    by (auto simp: due_joined_def due_rows_def take_map)
  have "set (due_rows k p) \<subseteq> set (webhook_deliveries p)"
    by (auto simp: due_rows_def dest: in_set_takeD)
  then show "list_all2 (item_of p) (due_rows k p) (due_joined k p)"
    by (auto simp: j list_all2_map2 item_of_iff [OF assms] intro!: list.rel_refl_strong)
qed

lemma joined_answers:
  assumes "schema_ok p"
  shows "joined_answer k p is \<longleftrightarrow> (\<exists>rs. due_answer k p rs \<and> list_all2 (item_of p) rs is)"
proof -
  let ?due = "filter (due_at (pg_now p)) (webhook_deliveries p)" and ?f = "\<lambda>r. hd (join_endpoint p r)"
  have "concat (map (\<lambda>d. map (Pair d) (join_endpoint p d)) ds) = map (\<lambda>d. (d, ?f d)) ds"
    if "set ds \<subseteq> set (webhook_deliveries p)" for ds
    using that
  proof (induction ds)
    case (Cons d ds)
    then have "join_endpoint p d = [?f d]" using join_single [OF assms] by simp
    then have "map (Pair d) (join_endpoint p d) = [(d, ?f d)]" by (metis list.simps(8,9))
    then show ?case using Cons by simp
  qed simp
  then have c: "concat (map (\<lambda>d. map (Pair d) (join_endpoint p d)) ?due) = map (\<lambda>d. (d, ?f d)) ?due"
    by simp
  have i: "list_all2 (item_of p) rs is \<longleftrightarrow> is = map ?f rs" if d: "due_answer k p rs" for rs
  proof -
    obtain rest where "mset ?due = mset (rs @ rest)"
      using d unfolding due_answer_def ordered_limit_def by blast
    then have "set ?due = set (rs @ rest)" by (rule mset_eq_setD)
    then have "set rs \<subseteq> set (webhook_deliveries p)" by auto
    then have "list_all2 (item_of p) rs is \<longleftrightarrow> list_all2 (\<lambda>d i. i = ?f d) rs is"
      by (intro list.rel_cong refl) (auto simp: item_of_iff [OF assms])
    then show ?thesis by (auto simp: list_all2_conv_all_nth list_eq_iff_nth_eq)
  qed
  have pairs: "ordered_limit (\<lambda>x. next_attempt_key (fst x)) (nat k) (map (\<lambda>d. (d, ?f d)) ?due) ps \<longleftrightarrow>
      (\<exists>rs. ordered_limit next_attempt_key (nat k) ?due rs \<and> ps = map (\<lambda>d. (d, ?f d)) rs)" for ps
    by (rule ordered_limit_pairs)
  have "joined_answer k p is \<longleftrightarrow> (\<exists>rs. due_answer k p rs \<and> is = map ?f rs)"
  proof
    assume "joined_answer k p is"
    then show "\<exists>rs. due_answer k p rs \<and> is = map ?f rs"
      unfolding joined_answer_def c pairs due_answer_def by (auto simp: o_def)
  next
    assume "\<exists>rs. due_answer k p rs \<and> is = map ?f rs"
    then obtain rs where rs: "due_answer k p rs" "is = map snd (map (\<lambda>d. (d, ?f d)) rs)"
      by (auto simp: o_def)
    then show "joined_answer k p is" unfolding joined_answer_def c pairs due_answer_def by blast
  qed
  then show ?thesis using i by blast
qed

text \<open>C24: Equivalence: whatever happens meanwhile, and however the database orders deliveries that are due
  at the same time, the answers it may give to the join the retry sweep works on are those it may
  give to the plain query of due deliveries, each row with the address and secret of its endpoint: no
  more, no fewer, each once. The model's two calls give such answers, fail with the same errors and
  change nothing.\<close>

theorem due_queries_agree:
  fixes k :: int
  assumes "reachable (store w)" and "tame platform_step w"
  defines "p \<equiv> store (snd (DueDeliveriesWithEndpoint k w))"
  shows "(\<forall>is. joined_answer k p is \<longleftrightarrow> (\<exists>rs. due_answer k p rs \<and> list_all2 (item_of p) rs is)) \<and>
    rel_sum (=) (\<lambda>ds is. joined_answer k p is \<and>
        (\<exists>rs. due_answer k p rs \<and> ds = map webhook_delivery.truncate rs))
      (fst (DuePendingDeliveries k w)) (fst (DueDeliveriesWithEndpoint k w)) \<and>
    snd (DuePendingDeliveries k w) = snd (DueDeliveriesWithEndpoint k w) \<and>
    p = others (tape w (pos w)) (store w)"
proof -
  let ?p = "others (tape w (pos w)) (store w)"
  have "reachable ?p"
    using assms(1,2) unfolding reachable_def tame_def by (meson rtranclp_trans)
  then have sc: "schema_ok ?p" by (rule schema.at_reachable)
  have p: "p = ?p"
    by (auto simp: p_def DueDeliveriesWithEndpoint_def call_def reading_def Let_def split: outcome.splits)
  have d: "due_answer k ?p (due_rows k ?p)"
    by (simp add: due_answer_def due_rows_def ordered_limit_take)
  then have "joined_answer k ?p (due_joined k ?p)"
    using due_joined_rows(2) [OF sc] joined_answers [OF sc] by blast
  then have "rel_sum (=) (\<lambda>ds is. joined_answer k p is \<and>
        (\<exists>rs. due_answer k p rs \<and> ds = map webhook_delivery.truncate rs))
      (fst (DuePendingDeliveries k w)) (fst (DueDeliveriesWithEndpoint k w))"
    "snd (DuePendingDeliveries k w) = snd (DueDeliveriesWithEndpoint k w)"
    using d unfolding p
    by (auto simp: DuePendingDeliveries_def DueDeliveriesWithEndpoint_def call_def reading_def Let_def
        split: outcome.splits)
  then show ?thesis using joined_answers [OF sc, of k] p by simp
qed

theorem due_queries_agree_witness:
  "joined_answer 50 first_delivery
     [\<lparr>dd_ID = 50, dd_URL = ''http://a'', dd_Secret = ''s'', dd_Payload = ''{}'', dd_AttemptCount = 0\<rparr>] \<and>
   (\<exists>rs. due_answer 50 first_delivery rs \<and> fst (DuePendingDeliveries 50 (sample_world first_delivery)) =
       Inr (map webhook_delivery.truncate rs))"
proof -
  have "reachable (store (sample_world first_delivery))"
    using reachable_step [OF sample_reachable(7) platform_step.guarded [OF guarded_step.delivery]]
    by (simp add: first_delivery_def)
  note agree = due_queries_agree [OF this tame_sample, of 50]
  have q: "fst (DueDeliveriesWithEndpoint 50 (sample_world first_delivery)) = Inr (due_joined 50 first_delivery)"
    "fst (DuePendingDeliveries 50 (sample_world first_delivery)) =
      Inr (map webhook_delivery.truncate (due_rows 50 first_delivery))"
    "store (snd (DueDeliveriesWithEndpoint 50 (sample_world first_delivery))) = first_delivery"
    by (simp_all add: DueDeliveriesWithEndpoint_def DuePendingDeliveries_def call_quiet reading_def)
  show ?thesis using agree unfolding q rel_sum_simps first_delivery_due(1) by blast
qed

section \<open>Examples\<close>

lemma first_delivery_ok: "schema_ok first_delivery" "bounded first_delivery"
  "countable 50 first_delivery"
proof -
  have "reachable first_delivery"
    unfolding first_delivery_def
    by (rule reachable_step [OF sample_reachable(7) platform_step.guarded]) (rule guarded_step.delivery)
  then show "schema_ok first_delivery" by (rule schema.at_reachable)
  have "\<forall>r\<in>set (webhook_deliveries first_delivery). wd_AttemptCount r = 0"
    using first_delivery_due(2) by (auto simp: delivery_states_def)
  then show "bounded first_delivery" "countable 50 first_delivery"
    by (simp_all add: bounded_def settled_def countable_def int4_ok_def)
qed

theorem attempt_verdict_witness:
  "store (snd (attemptDelivery (\<lambda>u. True) 50 ''http://a'' ''s'' ''{}'' 5
      (answering (Some 503) (sample_world first_delivery)))) =
   marked 50 MarkPermanent first_delivery"
  using attempt_verdict [of "answering (Some 503) (sample_world first_delivery)" 50 5
      "\<lambda>u. True" "''http://a''" "''s''" "''{}''"] first_delivery_ok
  by (simp add: verdict_def is_2xx_def)

theorem sweep_sends_due_witness:
  "fst (RetryDue (\<lambda>u. True) (sample_world first_delivery)) =
     Inr (1, [request_to ''http://a'' ''s'' ''{}'' (clock first_delivery)])"
  using sweep_sends_due [of "sample_world first_delivery" "\<lambda>u. True"] first_delivery_ok
  by (simp add: first_delivery_due request_for_def)

theorem deliveries_bounded_witness:
  "bounded (store (sweeps (\<lambda>u. True) [6000, 99000]
     (answering None (sample_world first_delivery))))"
  using deliveries_bounded [of "answering None (sample_world first_delivery)"] first_delivery_ok
  by simp

theorem dispatch_addresses_witness:
  "\<exists>reqs w'. Dispatch Some (\<lambda>ev. Some ''{}'') (\<lambda>u. True) (UuidText 1) (UuidText 2) ''e'' None
       (sample_world hook_added) = (Inr reqs, w') \<and>
     (\<exists>x p. (UuidText 1 :: idtext) = UuidText x \<and> platform_step\<^sup>*\<^sup>* hook_added p \<and>
        (\<forall>q\<in>set reqs. addressed (\<lambda>ev. Some ''{}'') (UuidText 1) (UuidText 2) ''e'' None
           (active_endpoints x p) q))"
proof -
  let ?d = "Dispatch Some (\<lambda>ev. Some ''{}'') (\<lambda>u. True) (UuidText 1) (UuidText 2) ''e'' None
       (sample_world hook_added)"
  have "\<exists>reqs. fst ?d = Inr reqs"
    by (simp add: Dispatch_def ActiveWebhooksForTenant_def call_quiet reading_def case_prod_beta)
  then obtain reqs where "?d = (Inr reqs, snd ?d)" by (metis prod.collapse)
  from dispatch_addresses [OF tame_sample this] this show ?thesis by auto
qed

end
