(* ===== verification/Settling.thy ===== *)
theory Settling
  imports Delivery
begin

text \<open>
  Webhook delivery comes to an end: sweep by sweep every pending delivery is tried until it is
  delivered or given up, however many there are.
\<close>

section \<open>Counting down\<close>

text \<open>
  A loop whose iterations, each with an input that suits the state, keep an invariant and bring a
  rank down until the goal is reached, which then stays.
\<close>

fun suited :: "('d \<Rightarrow> 's \<Rightarrow> bool) \<Rightarrow> ('d \<Rightarrow> 's \<Rightarrow> 's) \<Rightarrow> 'd list \<Rightarrow> 's \<Rightarrow> bool" where
  "suited ok step [] s = True"
| "suited ok step (d # ds) s = (ok d s \<and> suited ok step ds (step d s))"

locale countdown =
  fixes step :: "'d \<Rightarrow> 's \<Rightarrow> 's" and ok :: "'d \<Rightarrow> 's \<Rightarrow> bool" and inv :: "'s \<Rightarrow> bool"
    and goal :: "'s \<Rightarrow> bool" and rank :: "'s \<Rightarrow> nat"
  assumes keeps: "inv s \<Longrightarrow> ok d s \<Longrightarrow> inv (step d s)"
    and stays: "inv s \<Longrightarrow> goal s \<Longrightarrow> ok d s \<Longrightarrow> goal (step d s)"
    and nearer: "inv s \<Longrightarrow> ok d s \<Longrightarrow> \<not> goal s \<Longrightarrow> rank (step d s) < rank s"
    and ends: "inv s \<Longrightarrow> rank s = 0 \<Longrightarrow> goal s"
begin

lemma goal_stays: "inv s \<Longrightarrow> suited ok step ds s \<Longrightarrow> goal s \<Longrightarrow> goal (fold step ds s)"
  by (induction ds arbitrary: s) (auto intro: keeps stays)

lemma reaches:
  "inv s \<Longrightarrow> suited ok step ds s \<Longrightarrow> rank s \<le> length ds \<Longrightarrow> goal (fold step ds s)"
proof (induction ds arbitrary: s)
  case Nil
  then show ?case by (simp add: ends)
next
  case (Cons d ds)
  show ?case
  proof (cases "goal s")
    case True
    then show ?thesis using goal_stays [OF Cons.prems(1,2)] by simp
  next
    case False
    then have "rank (step d s) \<le> length ds" using Cons.prems nearer by fastforce
    then show ?thesis using Cons.IH [of "step d s"] Cons.prems keeps by simp
  qed
qed

end

section \<open>What a sweep does to the rows\<close>

text \<open>The same delivery, apart from its progress.\<close>

definition same_event :: "delivery_row \<Rightarrow> delivery_row \<Rightarrow> bool" where
  "same_event r r' \<longleftrightarrow>
     wd_ID r' = wd_ID r \<and> wd_WebhookID r' = wd_WebhookID r \<and> wd_OperationID r' = wd_OperationID r \<and>
     wd_EventType r' = wd_EventType r \<and> wd_Payload r' = wd_Payload r"

lemma same_event_trans: "same_event r1 r2 \<Longrightarrow> same_event r2 r3 \<Longrightarrow> same_event r1 r3"
  by (simp add: same_event_def)

lemma same_event_refl [simp]: "same_event r r"
  by (simp add: same_event_def)

lemma same_event_mark [simp]: "same_event r (mark_row m now r)"
  by (cases m) (simp_all add: same_event_def)

lemma same_event_id: "same_event r r' \<Longrightarrow> wd_ID r' = wd_ID r"
  by (simp add: same_event_def)

text \<open>One more attempt at a delivery, at the time \<open>c\<close>; a good one succeeds.\<close>

definition tried :: "bool \<Rightarrow> gotime \<Rightarrow> delivery_row \<Rightarrow> delivery_row \<Rightarrow> bool" where
  "tried good c r r' \<longleftrightarrow>
     same_event r r' \<and> wd_AttemptCount r' = wd_AttemptCount r + 1 \<and>
     wd_Status r' \<in> {DeliveryPending, DeliveryDelivered, DeliveryFailed} \<and>
     (wd_Status r' = DeliveryPending \<longrightarrow>
        (\<exists>t. wd_NextAttemptAt r' = Some (pg_time t) \<and> t \<le> c + 80 * second)) \<and>
     (good \<longrightarrow> wd_Status r' = DeliveryDelivered)"

text \<open>The rows of the given ids tried, all others as they were.\<close>

definition swept :: "uuid set \<Rightarrow> bool \<Rightarrow> gotime \<Rightarrow> delivery_row \<Rightarrow> delivery_row \<Rightarrow> bool" where
  "swept ids good c r r' \<longleftrightarrow> (if wd_ID r \<in> ids then tried good c r r' else r' = r)"

definition helpful :: "(string \<Rightarrow> bool) \<Rightarrow> platform world \<Rightarrow> bool" where
  "helpful uok w \<longleftrightarrow> (\<forall>n. is_2xx (reply (tape w n))) \<and> (\<forall>u. uok u)"

lemma mark_tried:
  assumes "1 \<le> n" and "good \<longrightarrow> s \<and> is_2xx resp"
  shows "tried good c r (mark_row (verdict s resp n c) now r)"
proof -
  have "n * n * 5 * second \<le> 80 * second" if "n < 5"
  proof -
    have "n = 1 \<or> n = 2 \<or> n = 3 \<or> n = 4" using assms(1) that by linarith
    then show ?thesis by (auto simp: second_def)
  qed
  then show ?thesis using assms(2) by (auto simp: tried_def verdict_def not_le)
qed

lemma swept_then:
  assumes "swept {i} good c r1 r2" and "swept ids good c r2 r3" and "i \<notin> ids"
  shows "swept (insert i ids) good c r1 r3"
  using assms by (auto simp: swept_def tried_def dest: same_event_id split: if_splits)

lemma marked_swept:
  assumes "1 \<le> n" and "good \<longrightarrow> s \<and> is_2xx resp"
  shows "list_all2 (swept {i} good c) (webhook_deliveries p)
    (webhook_deliveries (marked i (verdict s resp n c) p))"
  using mark_tried [OF assms]
  by (auto simp: marked_def swept_def list_all2_map2 intro: list.rel_refl_strong)

lemma retry_loop_rows:
  assumes "quiet w" and "bounded (store w)" and "\<forall>i\<in>set items. current (store w) i"
    and "distinct (map dd_ID items)" and "good \<longrightarrow> helpful uok w"
  defines "w' \<equiv> snd (retry_loop uok items w)"
  shows "list_all2 (swept (set (map dd_ID items)) good (clock (store w)))
      (webhook_deliveries (store w)) (webhook_deliveries (store w')) \<and>
    clock (store w') = clock (store w) \<and> tape w' = tape w"
  using assms(1-5) unfolding w'_def
proof (induction items arbitrary: w)
  case Nil
  then show ?case by (simp add: list_all2_same swept_def)
next
  case (Cons i items)
  let ?a = "attemptDelivery uok (dd_ID i) (dd_URL i) (dd_Secret i) (dd_Payload i) (dd_AttemptCount i + 1) w"
  let ?v = "verdict (uok (dd_URL i)) (reply (tape w (pos w))) (dd_AttemptCount i + 1) (clock (store w))"
  let ?w = "snd (retry_loop uok items (snd ?a))"
  have cur: "current (store w) i" "0 \<le> dd_AttemptCount i" using Cons.prems(3) by (auto simp: current_def)
  note q = attemptDelivery_quiet [OF Cons.prems(1) current_countable [OF cur(1)], of "dd_AttemptCount i + 1" uok
      "dd_URL i" "dd_Secret i" "dd_Payload i"]
  have s: "store (snd ?a) = marked (dd_ID i) ?v (store w)" and qt: "quiet (snd ?a)" "tape (snd ?a) = tape w"
    using q cur(2) by simp_all
  have b: "bounded (store (snd ?a))" unfolding s by (rule bounded_marked [OF Cons.prems(2) cur(1)]) simp
  have c: "\<forall>j\<in>set items. current (store (snd ?a)) j"
  proof
    fix j assume j: "j \<in> set items"
    then have "dd_ID j \<noteq> dd_ID i" using Cons.prems(4) by (metis distinct.simps(2) image_eqI list.simps(9) set_map)
    then show "current (store (snd ?a)) j" using j Cons.prems(3) by (simp add: s current_marked)
  qed
  have d: "distinct (map dd_ID items)" "dd_ID i \<notin> set (map dd_ID items)" using Cons.prems(4) by auto
  have g: "good \<longrightarrow> helpful uok (snd ?a)" using Cons.prems(5) by (simp add: helpful_def qt(2))
  have ck: "clock (store (snd ?a)) = clock (store w)" by (simp add: s)
  note rest = Cons.IH [OF qt(1) b c d(1) g, unfolded ck]
  have "list_all2 (swept {dd_ID i} good (clock (store w)))
      (webhook_deliveries (store w)) (webhook_deliveries (store (snd ?a)))"
    unfolding s using cur(2) Cons.prems(5) by (intro marked_swept) (auto simp: helpful_def)
  then have "list_all2 (swept (insert (dd_ID i) (set (map dd_ID items))) good (clock (store w)))
      (webhook_deliveries (store w)) (webhook_deliveries (store ?w))"
    using conjunct1 [OF rest] by (rule list_all2_trans [rotated]) (rule swept_then [OF _ _ d(2)])
  moreover have "snd (retry_loop uok (i # items) w) = ?w" by (simp add: case_prod_beta)
  ultimately show ?case using rest qt(2) by simp
qed

lemma joined_ids:
  assumes "schema_ok p"
  shows "map dd_ID (due_joined k p) = map wd_ID (due_rows k p)"
proof -
  have "list_all2 (\<lambda>d i. dd_ID i = wd_ID d) (due_rows k p) (due_joined k p)"
    by (rule list_all2_mono [OF due_joined_rows(2) [OF assms]]) (simp add: item_of_def)
  then show ?thesis by (induction rule: list_all2_induct) auto
qed

section \<open>The countdown\<close>

text \<open>Each pending delivery is due within 80 seconds, the longest backoff.\<close>

definition scheduled :: "platform \<Rightarrow> bool" where
  "scheduled p \<longleftrightarrow> (\<forall>r\<in>set (webhook_deliveries p). wd_Status r = DeliveryPending \<longrightarrow>
     (\<exists>t. wd_NextAttemptAt r = Some (pg_time t) \<and> t \<le> clock p + 80 * second))"

definition sweepable :: "platform world \<Rightarrow> bool" where
  "sweepable w \<longleftrightarrow> quiet w \<and> schema_ok (store w) \<and> bounded (store w) \<and> scheduled (store w)"

definition none_pending :: "platform world \<Rightarrow> bool" where
  "none_pending w \<longleftrightarrow> (\<forall>r\<in>set (webhook_deliveries (store w)). wd_Status r \<noteq> DeliveryPending)"

definition row_left :: "delivery_row \<Rightarrow> nat" where
  "row_left r = (if wd_Status r = DeliveryPending then nat (5 - wd_AttemptCount r) else 0)"

definition attempts_left :: "platform \<Rightarrow> nat" where
  "attempts_left p = sum_list (map row_left (webhook_deliveries p))"

definition sweep_at :: "(string \<Rightarrow> bool) \<Rightarrow> gotime \<Rightarrow> platform world \<Rightarrow> platform world" where
  "sweep_at uok c w = retryLoop_tick uok (w\<lparr>store := (store w)\<lparr>clock := c\<rparr>\<rparr>)"

fun spaced :: "gotime \<Rightarrow> gotime list \<Rightarrow> bool" where
  "spaced t [] = True"
| "spaced t (c # cs) = (t + 80 * second \<le> c \<and> spaced c cs)"

definition later_by_80 :: "gotime \<Rightarrow> platform world \<Rightarrow> bool" where
  "later_by_80 c w \<longleftrightarrow> clock (store w) + 80 * second \<le> c"

lemma pg_time_mono: "a \<le> b \<Longrightarrow> pg_time a \<le> pg_time b"
  by (simp add: pg_time_def zdiv_mono1)

text \<open>The rows before and after one sweep.\<close>

lemma sweep_rows:
  fixes c :: gotime
  assumes "sweepable w" and "good \<longrightarrow> helpful uok w"
  defines "p \<equiv> (store w)\<lparr>clock := c\<rparr>"
  shows "list_all2 (swept (set (map wd_ID (due_rows 50 p))) good c)
      (webhook_deliveries (store w)) (webhook_deliveries (store (sweep_at uok c w)))"
    and "clock (store (sweep_at uok c w)) = c" and "tape (sweep_at uok c w) = tape w"
    and "quiet (sweep_at uok c w)" and "schema_ok (store (sweep_at uok c w))"
    and "bounded (store (sweep_at uok c w))"
proof -
  let ?v = "w\<lparr>store := p\<rparr>"
  have v: "quiet ?v" "schema_ok (store ?v)" "bounded (store ?v)"
    using assms(1) by (simp_all add: sweepable_def schema_defs bounded_def p_def)
  define items where "items = due_joined 50 p"
  have read: "DueDeliveriesWithEndpoint 50 ?v = (Inr items, ?v\<lparr>pos := Suc (pos w)\<rparr>)"
    using v(1) by (simp add: DueDeliveriesWithEndpoint_def call_quiet reading_def items_def)
  have t: "sweep_at uok c w = snd (retry_loop uok items (?v\<lparr>pos := Suc (pos w)\<rparr>))"
    unfolding sweep_at_def retryLoop_tick_def p_def [symmetric]
    by (simp add: RetryDue_def read case_prod_beta)
  have "\<forall>i\<in>set items. current p i" "distinct (map dd_ID items)"
    using v by (auto simp: items_def due_joined_current due_joined_distinct)
  moreover have "good \<longrightarrow> helpful uok (?v\<lparr>pos := Suc (pos w)\<rparr>)" using assms(2) by (simp add: helpful_def)
  ultimately have "list_all2 (swept (set (map dd_ID items)) good (clock p))
      (webhook_deliveries p) (webhook_deliveries (store (sweep_at uok c w))) \<and>
    clock (store (sweep_at uok c w)) = clock p \<and> tape (sweep_at uok c w) = tape w"
    using retry_loop_rows [of "?v\<lparr>pos := Suc (pos w)\<rparr>" items good uok] v unfolding t by simp
  moreover have "map dd_ID items = map wd_ID (due_rows 50 p)"
    using joined_ids [of p 50] v(2) by (simp add: items_def)
  ultimately show "list_all2 (swept (set (map wd_ID (due_rows 50 p))) good c)
      (webhook_deliveries (store w)) (webhook_deliveries (store (sweep_at uok c w)))"
    and "clock (store (sweep_at uok c w)) = c" and "tape (sweep_at uok c w) = tape w"
    by (simp_all add: p_def)
  note m = full.RetryDue_moves [OF quiet_tame [OF v(1)], of uok]
  have s: "sweep_at uok c w = snd (RetryDue uok ?v)" by (simp add: sweep_at_def retryLoop_tick_def p_def)
  show "quiet (sweep_at uok c w)" "schema_ok (store (sweep_at uok c w))"
    using moves_quiet [OF m v(1)] schema.of_moves [OF m] v(2) by (simp_all add: s)
  show "bounded (store (sweep_at uok c w))" using RetryDue_quiet(2) [OF v, of uok] by (simp add: s)
qed

text \<open>At a time at least 80 seconds later every pending delivery is due.\<close>

lemma pending_due:
  assumes "sweepable w" and "later_by_80 c w" and "r \<in> set (webhook_deliveries (store w))"
  shows "wd_Status r = DeliveryPending \<longleftrightarrow> due_at (pg_now ((store w)\<lparr>clock := c\<rparr>)) r"
proof -
  have "pg_time t \<le> pg_time c" if "t \<le> clock (store w) + 80 * second" for t
    using that assms(2) by (intro pg_time_mono) (simp add: later_by_80_def)
  then show ?thesis
    using assms(1,3) by (force simp: due_at_def sweepable_def scheduled_def pg_now_def)
qed

lemma due_rows_pending:
  assumes "r \<in> set (due_rows k p)"
  shows "r \<in> set (webhook_deliveries p)" and "wd_Status r = DeliveryPending"
  using assms by (auto simp: due_rows_def due_at_def dest: in_set_takeD)

lemma same_id_row:
  assumes "schema_ok p" and "r \<in> set (webhook_deliveries p)" and "r' \<in> set (webhook_deliveries p)"
    and "wd_ID r = wd_ID r'"
  shows "r = r'"
  using assms by (auto simp: schema_ok_def primary_keys_def distinct_map dest: inj_onD)

lemma list_all2_origin:
  assumes "list_all2 P xs ys" and "y \<in> set ys"
  obtains x where "x \<in> set xs" and "P x y"
  using assms by (induction rule: list_all2_induct) auto

lemma sum_list_all2_less:
  assumes "list_all2 P xs ys" and "\<And>x y. P x y \<Longrightarrow> x \<in> set xs \<Longrightarrow> f y \<le> (f x :: nat)" and "x \<in> set xs"
    and "\<And>y. P x y \<Longrightarrow> f y < f x"
  shows "sum_list (map f ys) < sum_list (map f xs)"
  using assms
proof (induction rule: list_all2_induct)
  case Nil
  then show ?case by simp
next
  case (Cons a as b bs)
  have le: "sum_list (map f bs) \<le> sum_list (map f as)"
    using Cons(2) Cons.prems(1) by (induction rule: list_all2_induct) (fastforce intro: add_mono)+
  show ?case
  proof (cases "x = a")
    case True
    then show ?thesis using le Cons(1) Cons.prems(3) [of b] by simp
  next
    case False
    then have "sum_list (map f bs) < sum_list (map f as)"
      using Cons.IH Cons.prems by simp
    then show ?thesis using Cons.prems(1) [of a b] Cons(1) by simp
  qed
qed

lemma row_left_tried:
  assumes "settled r" and "wd_Status r = DeliveryPending" and "tried good c r r'"
  shows "row_left r' < row_left r"
  using assms by (auto simp: row_left_def tried_def settled_def)

lemma swept_pending:
  assumes "sweepable w" and "a \<in> set (webhook_deliveries (store w))"
    and "wd_ID a \<in> set (map wd_ID (due_rows 50 ((store w)\<lparr>clock := c\<rparr>)))"
  shows "wd_Status a = DeliveryPending"
proof -
  from assms(3) obtain d where d: "d \<in> set (due_rows 50 ((store w)\<lparr>clock := c\<rparr>))" "wd_ID d = wd_ID a"
    by auto
  then have "d = a"
    using same_id_row [of "store w"] due_rows_pending(1) assms(1,2) by (fastforce simp: sweepable_def)
  then show ?thesis using due_rows_pending(2) [OF d(1)] by simp
qed

text \<open>Every row after a sweep comes from one before it.\<close>

lemma sweep_origin:
  assumes "sweepable w" and "b \<in> set (webhook_deliveries (store (sweep_at uok c w)))"
  obtains a where "a \<in> set (webhook_deliveries (store w))"
    and "swept (set (map wd_ID (due_rows 50 ((store w)\<lparr>clock := c\<rparr>)))) False c a b"
proof -
  have "False \<longrightarrow> helpful uok w" by simp
  then show ?thesis
    using list_all2_origin [OF sweep_rows(1) [OF assms(1)] assms(2)] that by metis
qed

lemma sweep_keeps:
  assumes w: "sweepable w" and c: "later_by_80 c w"
  shows "sweepable (sweep_at uok c w)"
proof -
  have "False \<longrightarrow> helpful uok w" by simp
  note r = sweep_rows [OF w this, of c]
  let ?ids = "set (map wd_ID (due_rows 50 ((store w)\<lparr>clock := c\<rparr>)))"
  have "scheduled (store (sweep_at uok c w))"
    unfolding scheduled_def
  proof (intro ballI impI)
    fix b assume b: "b \<in> set (webhook_deliveries (store (sweep_at uok c w)))" "wd_Status b = DeliveryPending"
    obtain a where a: "a \<in> set (webhook_deliveries (store w))" "swept ?ids False c a b"
      by (rule sweep_origin [OF w b(1)])
    show "\<exists>t. wd_NextAttemptAt b = Some (pg_time t) \<and> t \<le> clock (store (sweep_at uok c w)) + 80 * second"
    proof (cases "wd_ID a \<in> ?ids")
      case True
      then show ?thesis using a b(2) r(2) by (simp add: swept_def tried_def)
    next
      case False
      then have "b = a" using a by (simp add: swept_def)
      then obtain t where "wd_NextAttemptAt b = Some (pg_time t)" "t \<le> clock (store w) + 80 * second"
        using w a(1) b(2) by (auto simp: sweepable_def scheduled_def)
      moreover have "clock (store w) \<le> c" using c by (simp add: later_by_80_def second_def)
      ultimately show ?thesis using r(2) by fastforce
    qed
  qed
  then show ?thesis using r(4-6) by (simp add: sweepable_def)
qed

lemma sweep_stays:
  assumes w: "sweepable w" and np: "none_pending w"
  shows "none_pending (sweep_at uok c w)"
  unfolding none_pending_def
proof
  fix b assume "b \<in> set (webhook_deliveries (store (sweep_at uok c w)))"
  then obtain a where "a \<in> set (webhook_deliveries (store w))"
    "swept (set (map wd_ID (due_rows 50 ((store w)\<lparr>clock := c\<rparr>)))) False c a b"
    by (rule sweep_origin [OF w])
  then show "wd_Status b \<noteq> DeliveryPending"
    using np swept_pending [OF w, of a c] by (auto simp: none_pending_def swept_def split: if_splits)
qed

lemma sweep_nearer:
  assumes w: "sweepable w" and c: "later_by_80 c w" and np: "\<not> none_pending w"
  shows "attempts_left (store (sweep_at uok c w)) < attempts_left (store w)"
proof -
  have "False \<longrightarrow> helpful uok w" by simp
  note r = sweep_rows [OF w this, of c]
  let ?ids = "set (map wd_ID (due_rows 50 ((store w)\<lparr>clock := c\<rparr>)))"
  have ok: "bounded (store w)" using w by (simp add: sweepable_def)
  obtain a where a: "a \<in> set (webhook_deliveries (store w))" "wd_Status a = DeliveryPending"
    using np by (auto simp: none_pending_def)
  have "filter (due_at (pg_now ((store w)\<lparr>clock := c\<rparr>))) (webhook_deliveries (store w)) \<noteq> []"
    using a pending_due [OF w c a(1)] by (auto simp: filter_empty_conv)
  then have "due_rows 50 ((store w)\<lparr>clock := c\<rparr>) \<noteq> []"
    by (simp add: due_rows_def flip: length_greater_0_conv)
  then obtain d where d: "d \<in> set (due_rows 50 ((store w)\<lparr>clock := c\<rparr>))"
    using hd_in_set by blast
  have dw: "d \<in> set (webhook_deliveries (store w))" using due_rows_pending(1) [OF d] by simp
  have fewer: "row_left y < row_left x"
    if "swept ?ids False c x y" "x \<in> set (webhook_deliveries (store w))" "wd_ID x \<in> ?ids" for x y
    using that ok by (intro row_left_tried swept_pending [OF w, where c = c]) (auto simp: swept_def bounded_def)
  have "row_left y \<le> row_left x"
    if "swept ?ids False c x y" "x \<in> set (webhook_deliveries (store w))" for x y
  proof (cases "wd_ID x \<in> ?ids")
    case True
    then show ?thesis using fewer [OF that] by simp
  next
    case False
    then show ?thesis using that(1) by (simp add: swept_def)
  qed
  moreover have "wd_ID d \<in> ?ids" using d by simp
  ultimately show ?thesis
    unfolding attempts_left_def using sum_list_all2_less [OF r(1) _ dw] fewer [OF _ dw] by blast
qed

interpretation sweeping: countdown "sweep_at uok" later_by_80 sweepable none_pending
  "\<lambda>w. attempts_left (store w)" for uok
proof
  fix w assume w: "sweepable w" and z: "attempts_left (store w) = 0"
  have "row_left r = 0" if "r \<in> set (webhook_deliveries (store w))" for r
    using z that by (auto simp: attempts_left_def)
  then show "none_pending w"
    using w by (force simp: none_pending_def sweepable_def bounded_def settled_def row_left_def)
qed (rule sweep_keeps sweep_stays sweep_nearer; assumption)+

section \<open>Every delivery is settled\<close>

definition onward :: "bool \<Rightarrow> delivery_row \<Rightarrow> delivery_row \<Rightarrow> bool" where
  "onward good r r' \<longleftrightarrow>
     (if wd_Status r = DeliveryPending
      then same_event r r' \<and> wd_Status r' \<in> {DeliveryPending, DeliveryDelivered, DeliveryFailed} \<and>
        (good \<longrightarrow> wd_Status r' \<noteq> DeliveryFailed)
      else r' = r)"

lemma onward_trans: "onward good r1 r2 \<Longrightarrow> onward good r2 r3 \<Longrightarrow> onward good r1 r3"
  by (auto simp: onward_def split: if_splits intro: same_event_trans)

lemma swept_onward:
  assumes "swept ids good c r r'" and "wd_ID r \<in> ids \<longrightarrow> wd_Status r = DeliveryPending"
  shows "onward good r r'"
  using assms by (auto simp: swept_def tried_def onward_def split: if_splits)

lemma spaced_suited:
  assumes "sweepable w" and "spaced (clock (store w)) cs"
  shows "suited later_by_80 (sweep_at uok) cs w"
  using assms
proof (induction cs arbitrary: w)
  case Nil
  then show ?case by simp
next
  case (Cons c cs)
  have c: "later_by_80 c w" using Cons.prems(2) by (simp add: later_by_80_def)
  have "False \<longrightarrow> helpful uok w" by simp
  then have "clock (store (sweep_at uok c w)) = c" by (rule sweep_rows(2) [OF Cons.prems(1)])
  then show ?case
    using Cons.IH [OF sweeping.keeps [OF Cons.prems(1) c, of uok]] Cons.prems(2) c by simp
qed

lemma sweeps_onward:
  assumes "sweepable w" and "spaced (clock (store w)) cs" and "good \<longrightarrow> helpful uok w"
  shows "list_all2 (onward good) (webhook_deliveries (store w))
    (webhook_deliveries (store (fold (sweep_at uok) cs w)))"
  using assms
proof (induction cs arbitrary: w)
  case Nil
  then show ?case by (simp add: list_all2_same onward_def)
next
  case (Cons c cs)
  have c: "later_by_80 c w" using Cons.prems(2) by (simp add: later_by_80_def)
  note r = sweep_rows [OF Cons.prems(1,3), of c]
  have "good \<longrightarrow> helpful uok (sweep_at uok c w)" using Cons.prems(3) r(3) by (simp add: helpful_def)
  then have "list_all2 (onward good) (webhook_deliveries (store (sweep_at uok c w)))
      (webhook_deliveries (store (fold (sweep_at uok) cs (sweep_at uok c w))))"
    using Cons.IH [OF sweeping.keeps [OF Cons.prems(1) c, of uok]] Cons.prems(2) r(2) by simp
  moreover have "list_all2 (onward good) (webhook_deliveries (store w))
      (webhook_deliveries (store (sweep_at uok c w)))"
    using r(1) by (rule list.rel_mono_strong) (blast intro: swept_onward swept_pending [OF Cons.prems(1)])
  ultimately show ?case by (auto intro: list_all2_trans [OF onward_trans])
qed

text \<open>How a delivery ends: nothing changes a settled one.\<close>

definition ended :: "bool \<Rightarrow> delivery_row \<Rightarrow> delivery_row \<Rightarrow> bool" where
  "ended good r r' \<longleftrightarrow>
     (if wd_Status r = DeliveryPending
      then same_event r r' \<and>
        (wd_Status r' = DeliveryDelivered \<or> \<not> good \<and> wd_Status r' = DeliveryFailed)
      else r' = r)"

lemma settles:
  assumes "quiet w" and "schema_ok (store w)" and "bounded (store w)" and "scheduled (store w)"
    and "spaced (clock (store w)) cs" and "attempts_left (store w) \<le> length cs"
  shows "list_all2 (ended (helpful uok w)) (webhook_deliveries (store w))
    (webhook_deliveries (store (sweeps uok cs w)))"
proof -
  have w: "sweepable w" using assms by (simp add: sweepable_def)
  have f: "sweeps uok cs w = fold (sweep_at uok) cs w" by (simp add: sweeps_def sweep_at_def [abs_def])
  have "none_pending (sweeps uok cs w)"
    unfolding f using sweeping.reaches [OF w spaced_suited [OF w assms(5)] assms(6)] .
  moreover have "list_all2 (onward (helpful uok w)) (webhook_deliveries (store w))
      (webhook_deliveries (store (sweeps uok cs w)))"
    unfolding f by (rule sweeps_onward [OF w assms(5)]) simp
  ultimately show ?thesis
    by (auto simp: none_pending_def onward_def ended_def split: if_splits elim!: list.rel_mono_strong)
qed

text \<open>C17: Webhook delivery comes to an end. Let undisturbed sweeps run 80 seconds apart or more, as many
  as there are attempts left over all pending deliveries. Then none is pending any more: each has
  been delivered or has failed for good, those settled before are as they were, and if the customers
  answer every request with a 2xx status and all addresses parse, each has been delivered. The limit
  of 50 a sweep starves none of them.\<close>

theorem deliveries_settle:
  assumes "quiet w" and "schema_ok (store w)" and "bounded (store w)" and "scheduled (store w)"
    and "spaced (clock (store w)) cs" and "attempts_left (store w) \<le> length cs"
  shows "list_all2 (ended (helpful uok w)) (webhook_deliveries (store w))
    (webhook_deliveries (store (sweeps uok cs w)))"
  using assms by (rule settles)

theorem deliveries_settle_witness:
  "map wd_Status (webhook_deliveries (store (sweeps (\<lambda>u. True)
     (map (\<lambda>k. k * 100 * second) [1, 2, 3, 4, 5]) (sample_world first_delivery)))) = [DeliveryDelivered]"
proof (rule first_delivery_row)
  fix r
  assume r: "webhook_deliveries first_delivery = [r]" "wd_ID r = 50" "wd_AttemptCount r = 0"
  then have p: "wd_Status r = DeliveryPending"
    using first_delivery_due(2) by (simp add: delivery_states_def)
  have n: "clock first_delivery = 5000" "map wd_NextAttemptAt (webhook_deliveries first_delivery) = [Some 5000]"
    by code_simp+
  have "scheduled first_delivery" using n r by (auto simp: scheduled_def pg_time_def second_def intro!: exI [of _ 5000])
  moreover have "helpful (\<lambda>u. True) (sample_world first_delivery)"
    by (simp add: helpful_def is_2xx_def)
  moreover have "attempts_left first_delivery = 5" using r p by (simp add: attempts_left_def row_left_def)
  ultimately show ?thesis
    using deliveries_settle [of "sample_world first_delivery"
        "map (\<lambda>k. k * 100 * second) [1, 2, 3, 4, 5]" "\<lambda>u. True"] first_delivery_ok r p n
    by (auto simp: second_def list_all2_Cons1 ended_def)
qed

section \<open>From an event to its deliveries\<close>

text \<open>The delivery to an endpoint after its first attempt at the time \<open>c\<close>.\<close>

definition first_try ::
    "(string \<Rightarrow> bool) \<Rightarrow> uuid \<Rightarrow> string \<Rightarrow> json \<Rightarrow> gotime \<Rightarrow> endpoint_with_secret \<Rightarrow> delivery_row \<Rightarrow> bool"
  where
  "first_try uok i ev j c e r \<longleftrightarrow>
     wd_WebhookID r = we_ID e \<and> wd_OperationID r = i \<and> wd_EventType r = ev \<and> wd_Payload r = j \<and>
     wd_AttemptCount r = 1 \<and>
     (if uok (we_URL e)
      then wd_Status r = DeliveryDelivered \<or>
        wd_Status r = DeliveryPending \<and> wd_NextAttemptAt r = Some (pg_time (c + 5 * second))
      else wd_Status r = DeliveryFailed)"

definition ids_unused :: "nat \<Rightarrow> platform world \<Rightarrow> bool" where
  "ids_unused k w \<longleftrightarrow>
     (let us = map (\<lambda>n. fresh (tape w n)) [pos w..<pos w + k] in
      distinct us \<and> set us \<inter> wd_ID ` set (webhook_deliveries (store w)) = {})"

lemma attemptDelivery_pos:
  "quiet w \<Longrightarrow> pos (snd (attemptDelivery uok d url sec body n w)) \<le> pos w + 2"
  by (auto simp: attemptDelivery_def Let_def MarkDeliverySuccess_def MarkDeliveryPermanentlyFailed_def
      MarkDeliveryFailedAndReschedule_def call_quiet http_do_quiet split: option.splits)

lemma ids_unused_later:
  assumes "ids_unused (k + 3) w" and "pos w < pos w'" and "pos w' \<le> pos w + 3" and "tape w' = tape w"
    and "wd_ID ` set (webhook_deliveries (store w')) =
      insert (fresh (tape w (pos w))) (wd_ID ` set (webhook_deliveries (store w)))"
  shows "ids_unused k w'"
proof -
  let ?f = "\<lambda>n. fresh (tape w n)" and ?d = "wd_ID ` set (webhook_deliveries (store w))"
  have inj: "inj_on ?f {pos w..<pos w + (k + 3)}" and new: "?f ` {pos w..<pos w + (k + 3)} \<inter> ?d = {}"
    using assms(1) by (simp_all add: ids_unused_def distinct_map)
  have sub: "{pos w'..<pos w' + k} \<subseteq> {pos w..<pos w + (k + 3)}" using assms(2,3) by auto
  then have "inj_on ?f {pos w'..<pos w' + k}" using inj by (rule inj_on_subset [rotated])
  moreover have "?f (pos w) \<notin> ?f ` {pos w'..<pos w' + k}"
  proof
    assume "?f (pos w) \<in> ?f ` {pos w'..<pos w' + k}"
    then obtain n where n: "n \<in> {pos w'..<pos w' + k}" "?f (pos w) = ?f n" by blast
    then have "pos w = n" using inj sub by (auto dest!: inj_onD [where x = "pos w"])
    then show False using n assms(2) by simp
  qed
  moreover have "?f ` {pos w'..<pos w' + k} \<inter> ?d = {}" using new image_mono [OF sub, of ?f] by blast
  ultimately show ?thesis
    unfolding ids_unused_def assms(4,5) by (simp add: distinct_map)
qed

lemma marked_new:
  assumes "\<And>r. r \<in> set ds \<Longrightarrow> wd_ID r \<noteq> d" and "wd_ID row = d"
  shows "marked d m (p\<lparr>webhook_deliveries := ds @ [row]\<rparr>) =
    p\<lparr>webhook_deliveries := ds @ [mark_row m (pg_now p) row]\<rparr>"
proof -
  have "map (\<lambda>r. if wd_ID r = d then f r else r) ds = ds" for f
    by (intro map_idI) (simp add: assms(1))
  then show ?thesis using assms(2) by (simp add: marked_def pg_now_def)
qed

lemma dispatch_loop_quiet:
  fixes uok :: "string \<Rightarrow> bool"
  assumes "quiet w" and "we_ID ` set es \<subseteq> we_ID ` set (webhook_endpoints (store w))"
    and "\<not> no_operation i (store w)" and "enc (event_for t (UuidText i) ev data (clock (store w))) = Some body"
    and "jb body = Some j" and "ids_unused (3 * length es) w"
  defines "r \<equiv> dispatch_loop jb enc uok t (UuidText i) ev data es w" and "c \<equiv> clock (store w)"
  shows "fst r = map (\<lambda>e. request_to (we_URL e) (we_Secret e) body c) (filter (\<lambda>e. uok (we_URL e)) es) \<and>
    (\<exists>ns. store (snd r) = (store w)\<lparr>webhook_deliveries := webhook_deliveries (store w) @ ns\<rparr> \<and>
      list_all2 (first_try uok i ev j c) es ns)"
  using assms(1-6) unfolding r_def c_def
proof (induction es arbitrary: w)
  case Nil
  then show ?case by simp
next
  case (Cons e es)
  let ?p = "store w" and ?u = "fresh (tape w (pos w))" and ?c = "clock (store w)"
  define row where "row = \<lparr>wd_ID = ?u, wd_WebhookID = we_ID e, wd_OperationID = i, wd_EventType = ev,
    wd_Status = DeliveryPending, wd_AttemptCount = 0, wd_LastAttemptAt = None, wd_CreatedAt = pg_now ?p,
    wd_Payload = j, wd_NextAttemptAt = Some (pg_now ?p)\<rparr>"
  define w1 where "w1 = w\<lparr>pos := Suc (pos w),
    store := ?p\<lparr>webhook_deliveries := webhook_deliveries ?p @ [row]\<rparr>\<rparr>"
  have "?u \<in> (\<lambda>n. fresh (tape w n)) ` {pos w..<pos w + 3 * length (e # es)}" by (rule imageI) simp
  then have u: "?u \<notin> wd_ID ` set (webhook_deliveries ?p)"
    using Cons.prems(6) unfolding ids_unused_def Let_def set_map set_upt by blast
  have old: "wd_ID r \<noteq> ?u" if "r \<in> set (webhook_deliveries ?p)" for r
    using u that by (metis imageI)
  have cr: "CreateDelivery jb (we_ID e) (UuidText i) ev body w = (Inr ?u, w1)"
    using Cons.prems(1,2,3,5) u
    by (auto simp: CreateDelivery_def call_quiet delivery_stmt_def w1_def row_def)
  let ?a = "attemptDelivery uok ?u (we_URL e) (we_Secret e) body 1 w1"
  let ?m = "verdict (uok (we_URL e)) (reply (tape w1 (pos w1))) 1 ?c"
  have w1: "quiet w1" "clock (store w1) = ?c" "tape w1 = tape w" "pos w1 = Suc (pos w)"
    using Cons.prems(1) by (simp_all add: w1_def)
  have cn: "countable ?u (store w1)"
    by (auto simp: countable_def w1_def row_def int4_ok_def old)
  note q = attemptDelivery_quiet [OF w1(1) cn, of 1 uok "we_URL e" "we_Secret e" body, unfolded w1(2), simplified]
  have s2: "store (snd ?a) = ?p\<lparr>webhook_deliveries := webhook_deliveries ?p @ [mark_row ?m (pg_now ?p) row]\<rparr>"
    unfolding q(2) using marked_new [OF old, where row = row and m = ?m and p = ?p] by (simp add: w1_def row_def)
  have ids: "ids_unused (3 * length es) (snd ?a)"
  proof (rule ids_unused_later [of _ w])
    show "ids_unused (3 * length es + 3) w" using Cons.prems(6) by (simp add: add.commute)
    show "pos w < pos (snd ?a)" "pos (snd ?a) \<le> pos w + 3" "tape (snd ?a) = tape w"
      using q(4,5) w1 attemptDelivery_pos [OF w1(1), of uok ?u "we_URL e" "we_Secret e" body 1] by simp_all
    show "wd_ID ` set (webhook_deliveries (store (snd ?a))) = insert ?u (wd_ID ` set (webhook_deliveries ?p))"
      by (simp add: s2 row_def)
  qed
  have "\<not> no_operation i (store (snd ?a))" using Cons.prems(3) by (simp add: s2 no_operation_def)
  from Cons.IH [OF q(3) _ this _ Cons.prems(5) ids] Cons.prems(2,4)
  obtain ns where
    f: "fst (dispatch_loop jb enc uok t (UuidText i) ev data es (snd ?a)) =
        map (\<lambda>e. request_to (we_URL e) (we_Secret e) body ?c) (filter (\<lambda>e. uok (we_URL e)) es)"
    and st: "store (snd (dispatch_loop jb enc uok t (UuidText i) ev data es (snd ?a))) =
        ?p\<lparr>webhook_deliveries := webhook_deliveries ?p @ mark_row ?m (pg_now ?p) row # ns\<rparr>"
    and l: "list_all2 (first_try uok i ev j ?c) es ns"
    by (auto simp: s2)
  have "first_try uok i ev j ?c e (mark_row ?m (pg_now ?p) row)"
    by (auto simp: first_try_def verdict_def row_def)
  moreover have "dispatch_loop jb enc uok t (UuidText i) ev data (e # es) w =
      (fst ?a @ fst (dispatch_loop jb enc uok t (UuidText i) ev data es (snd ?a)),
       snd (dispatch_loop jb enc uok t (UuidText i) ev data es (snd ?a)))"
    using Cons.prems(4) by (simp add: cr event_for_def case_prod_beta Let_def)
  ultimately show ?case
    using l f st q(1) by (auto intro!: exI [of _ "mark_row ?m (pg_now ?p) row # ns"])
qed

lemma Dispatch_recorded:
  fixes uok :: "string \<Rightarrow> bool"
  assumes "quiet w" and "\<not> no_operation i (store w)"
    and "enc (event_for (UuidText t) (UuidText i) ev data (clock (store w))) = Some body" and "jb body = Some j"
    and "ids_unused (3 * length (active_endpoints t (store w))) (w\<lparr>pos := Suc (pos w)\<rparr>)"
  defines "d \<equiv> Dispatch jb enc uok (UuidText t) (UuidText i) ev data w"
  obtains ns where "fst d = Inr (map (\<lambda>e. request_to (we_URL e) (we_Secret e) body (clock (store w)))
      (filter (\<lambda>e. uok (we_URL e)) (active_endpoints t (store w))))"
    and "store (snd d) = (store w)\<lparr>webhook_deliveries := webhook_deliveries (store w) @ ns\<rparr>"
    and "list_all2 (first_try uok i ev j (clock (store w))) (active_endpoints t (store w)) ns"
proof -
  let ?es = "active_endpoints t (store w)" and ?v = "w\<lparr>pos := Suc (pos w)\<rparr>"
  have a: "ActiveWebhooksForTenant (UuidText t) w = (Inr ?es, ?v)"
    using assms(1) by (simp add: ActiveWebhooksForTenant_def call_quiet reading_def)
  have "we_ID ` set ?es \<subseteq> we_ID ` set (webhook_endpoints (store w))"
    by (auto simp: active_endpoints_def)
  then show thesis
    using dispatch_loop_quiet [of ?v ?es i enc "UuidText t" ev data body jb j uok] assms(1-5) that
    by (auto simp: d_def Dispatch_def a case_prod_beta)
qed

definition event_ended ::
    "bool \<Rightarrow> uuid \<Rightarrow> string \<Rightarrow> json \<Rightarrow> endpoint_with_secret \<Rightarrow> delivery_row \<Rightarrow> bool" where
  "event_ended good i ev j e r \<longleftrightarrow>
     wd_WebhookID r = we_ID e \<and> wd_OperationID r = i \<and> wd_EventType r = ev \<and> wd_Payload r = j \<and>
     (wd_Status r = DeliveryDelivered \<or> \<not> good \<and> wd_Status r = DeliveryFailed)"

lemma first_try_row_left: "first_try uok i ev j c e r \<Longrightarrow> row_left r \<le> 4"
  by (simp add: first_try_def row_left_def)

lemma first_tries_left:
  "list_all2 (first_try uok i ev j c) es ns \<Longrightarrow> sum_list (map row_left ns) \<le> 4 * length es"
  by (induction rule: list_all2_induct) (auto dest: first_try_row_left)

lemma first_try_ended:
  assumes "first_try uok i ev j c e r" and "ended good r r'" and "good \<longrightarrow> (\<forall>u. uok u)"
  shows "event_ended good i ev j e r'"
  using assms
  by (auto simp: first_try_def ended_def event_ended_def same_event_def split: if_splits)

text \<open>C16: From an event to the customers: undisturbed, the dispatch of an event sends the event's JSON, signed,
  to each active endpoint of the tenant whose address parses, once, and records one delivery for each
  endpoint; and after enough sweeps, 80 seconds apart or more, each of these deliveries has ended: it is
  DELIVERED or has FAILED for good, and if the customers answer with a 2xx status and all addresses
  parse, it is DELIVERED.\<close>

theorem event_settles:
  fixes uok :: "string \<Rightarrow> bool" and ev :: string and w :: "platform world"
  assumes "quiet w" and "schema_ok (store w)" and "bounded (store w)" and "scheduled (store w)"
    and "\<not> no_operation i (store w)"
    and "enc (event_for (UuidText t) (UuidText i) ev data (clock (store w))) = Some body" and "jb body = Some j"
    and "ids_unused (3 * length (active_endpoints t (store w))) (w\<lparr>pos := Suc (pos w)\<rparr>)"
    and "spaced (clock (store w)) cs"
    and "attempts_left (store w) + 4 * length (active_endpoints t (store w)) \<le> length cs"
  defines "d \<equiv> Dispatch jb enc uok (UuidText t) (UuidText i) ev data w"
    and "n \<equiv> length (webhook_deliveries (store w))"
  shows "fst d = Inr (map (\<lambda>e. request_to (we_URL e) (we_Secret e) body (clock (store w)))
      (filter (\<lambda>e. uok (we_URL e)) (active_endpoints t (store w)))) \<and>
    list_all2 (event_ended (helpful uok w) i ev j) (active_endpoints t (store w))
      (drop n (webhook_deliveries (store (sweeps uok cs (snd d)))))"
proof -
  let ?es = "active_endpoints t (store w)" and ?c = "clock (store w)"
  obtain ns where f: "fst d = Inr (map (\<lambda>e. request_to (we_URL e) (we_Secret e) body ?c)
        (filter (\<lambda>e. uok (we_URL e)) ?es))"
    and st: "store (snd d) = (store w)\<lparr>webhook_deliveries := webhook_deliveries (store w) @ ns\<rparr>"
    and ns: "list_all2 (first_try uok i ev j ?c) ?es ns"
    unfolding d_def by (rule Dispatch_recorded [of w i enc t ev data body jb j uok, OF assms(1,5-8)])
  have m: "moves platform_step w (snd d)"
    unfolding d_def by (rule full.Dispatch_moves) (rule quiet_tame [OF assms(1)])
  have q: "quiet (snd d)" "tape (snd d) = tape w" using moves_quiet [OF m assms(1)] m by (simp_all add: moves_def)
  have sc: "schema_ok (store (snd d))" using schema.of_moves [OF m] assms(2) by simp
  have rows: "\<exists>e. first_try uok i ev j ?c e r" if "r \<in> set ns" for r
    using list_all2_origin [OF ns that] by blast
  have bd: "bounded (store (snd d))"
    using assms(3) rows by (fastforce simp: bounded_def st settled_def first_try_def split: if_splits)
  have se: "scheduled (store (snd d))"
    using assms(4) rows by (fastforce simp: scheduled_def st first_try_def second_def split: if_splits)
  have "attempts_left (store (snd d)) \<le> length cs"
    using assms(10) first_tries_left [OF ns] by (simp add: attempts_left_def st)
  then have "list_all2 (ended (helpful uok (snd d))) (webhook_deliveries (store (snd d)))
      (webhook_deliveries (store (sweeps uok cs (snd d))))"
    using assms(9) by (intro settles q sc bd se) (simp_all add: st)
  then have "list_all2 (ended (helpful uok w)) ns
      (drop n (webhook_deliveries (store (sweeps uok cs (snd d)))))"
    by (auto simp: st n_def helpful_def q(2) list_all2_append1 dest: list_all2_lengthD)
  with ns have "list_all2 (event_ended (helpful uok w) i ev j) ?es
      (drop n (webhook_deliveries (store (sweeps uok cs (snd d)))))"
    by (rule list_all2_trans [rotated]) (erule (1) first_try_ended, simp add: helpful_def)
  then show ?thesis using f by simp
qed

theorem event_settles_witness:
  fixes enc :: "eventPayload \<Rightarrow> json option"
  defines "enc \<equiv> \<lambda>e. Some ''{}''"
  defines "d \<equiv> Dispatch Some enc (\<lambda>u. True) (UuidText 1) (UuidText 2) ''e'' None (sample_world hook_added)"
  shows "fst d = Inr [request_to ''http://a'' ''s'' ''{}'' 5000] \<and>
    map wd_Status (webhook_deliveries (store (sweeps (\<lambda>u. True)
      (map (\<lambda>k. k * 100 * second) [1, 2, 3, 4]) (snd d)))) = [DeliveryDelivered]"
proof -
  have p: "webhook_deliveries hook_added = []" "clock hook_added = 5000" "\<not> no_operation 2 hook_added"
    "map (\<lambda>e. (we_URL e, we_Secret e)) (active_endpoints 1 hook_added) = [(''http://a'', ''s'')]"
    by code_simp+
  then obtain e where e: "active_endpoints 1 hook_added = [e]" "we_URL e = ''http://a''" "we_Secret e = ''s''"
    by (auto simp: map_eq_Cons_conv)
  have "schema_ok hook_added" using sample_reachable(7) by (rule schema.at_reachable)
  moreover have "ids_unused 3 ((sample_world hook_added)\<lparr>pos := 1\<rparr>)"
    using p(1) by (simp add: ids_unused_def upt_rec)
  moreover have "helpful (\<lambda>u. True) (sample_world hook_added)"
    by (simp add: helpful_def is_2xx_def)
  ultimately show ?thesis
    using event_settles [of "sample_world hook_added" 2 enc 1 "''e''" None "''{}''" Some "''{}''"
        "map (\<lambda>k. k * 100 * second) [1, 2, 3, 4]" "\<lambda>u. True"] p e
    by (auto simp: enc_def d_def second_def bounded_def scheduled_def attempts_left_def
        list_all2_Cons1 event_ended_def)
qed

end
