(* ===== verification/Metering.thy ===== *)
theory Metering
  imports Sample
begin

text \<open>
  The usage ledger: an operation is billed once, however often and in whatever order its success is
  reported, and the summary a tenant sees is the sum of its events of the month.
\<close>

section \<open>Billing once\<close>

definition billed :: "uuid \<Rightarrow> platform \<Rightarrow> usage_event list" where
  "billed i p = filter (\<lambda>e. us_OperationID e = i) (usage_events p)"

lemma usage_stmt_Inr:
  assumes "usage_stmt t i n u p = (Inr (), p')"
  shows "\<exists>j. i = UuidText j \<and> j \<in> us_OperationID ` set (usage_events p')"
  using assms by (auto simp: usage_stmt_def with_uuid_def split: idtext.splits if_splits)

lemma distinct_filter_one:
  assumes "distinct (map f xs)" and "x \<in> f ` set xs"
  shows "length (filter (\<lambda>e. f e = x) xs) = 1"
  using assms by (induction xs) (auto simp: filter_empty_conv image_iff)

lemma billed_once:
  assumes "reachable p" and "j \<in> us_OperationID ` set (usage_events p)"
  shows "length (billed j p) = 1"
  using schema.at_reachable [OF assms(1)] assms(2)
  by (simp add: billed_def schema_ok_def unique_indexes_def distinct_filter_one)

text \<open>C14: Once a report of usage for an operation has been accepted, the ledger has exactly one event
  for it, then and after any later history: whatever is reported again, in any interleaving and with
  any failures, the operation is neither billed twice nor forgotten.\<close>

theorem usage_billed_once:
  assumes "reachable (store w)" and "tame platform_step w"
    and "RecordUsage t i n w = (Inr (), w1)" and "platform_step\<^sup>*\<^sup>* (store w1) p"
  shows "\<exists>j. i = UuidText j \<and> length (billed j p) = 1"
proof (rule call_result [OF assms(2) assms(3) [unfolded RecordUsage_def]])
  fix u q
  assume "usage_stmt t i n u q = (Inr (), store w1)"
  from usage_stmt_Inr [OF this]
  obtain j where j: "i = UuidText j" "j \<in> us_OperationID ` set (usage_events (store w1))" by blast
  have "prefix (usage_events (store w1)) (usage_events p)"
    using kept.run [OF assms(4)] by (simp add: records_kept_def)
  then have "j \<in> us_OperationID ` set (usage_events p)" using j(2) set_mono_prefix by blast
  moreover have "reachable (store w1)"
    using reachable_moves [OF assms(1) full.RecordUsage_moves [OF assms(2), of t i n]] assms(3)
    by simp
  then have "reachable p" using assms(4) unfolding reachable_def by (rule rtranclp_trans)
  ultimately show ?thesis using j(1) billed_once by blast
qed simp

theorem usage_billed_once_witness:
  "\<exists>j. (UuidText 2 :: idtext) = UuidText j \<and>
     length (billed j (store (snd (RecordUsage (UuidText 1) (UuidText 2) 1
       (sample_world op_succeeded))))) = 1"
proof -
  let ?r = "RecordUsage (UuidText 1) (UuidText 2) 1 (sample_world op_succeeded)"
  have "fst ?r = Inr ()" by code_simp
  then have "?r = (Inr (), snd ?r)" by (metis prod.collapse)
  moreover have "reachable (store (sample_world op_succeeded))" by (simp add: sample_reachable)
  ultimately show ?thesis
    using usage_billed_once [OF _ tame_sample _ rtranclp.rtrancl_refl] by blast
qed

section \<open>Reports from the operations service\<close>

lemma dispatch_loop_usage:
  assumes "quiet w"
  shows "usage_events (store (snd (dispatch_loop jb enc uok t i ev data es w))) =
    usage_events (store w)"
  using assms
proof (induction es arbitrary: w)
  case Nil
  then show ?case by simp
next
  case (Cons e es)
  have m: "usage_events (snd (mark_stmt d m u p)) = usage_events p" for d m u p
    by (simp add: mark_stmt_def Let_def)
  have c: "usage_events (snd (delivery_stmt jb x i ev body u p)) = usage_events p" for x body u p
    by (auto simp: delivery_stmt_def with_uuid_def split: idtext.splits option.splits)
  have "usage_events (store (snd (attemptDelivery uok d url sec body n v))) = usage_events (store v) \<and>
      quiet (snd (attemptDelivery uok d url sec body n v))" if "quiet v" for d url sec body n v
    using that
    by (auto simp: attemptDelivery_def Let_def http_do_quiet MarkDeliverySuccess_def call_quiet m
        MarkDeliveryPermanentlyFailed_def MarkDeliveryFailedAndReschedule_def)
  then show ?case
    using Cons c
    by (auto simp: Let_def CreateDelivery_def call_quiet case_prod_beta split: option.splits
        sum.splits)
qed

lemma dispatchEvent_usage:
  "quiet w \<Longrightarrow> usage_events (store (snd (dispatchEvent jb enc uok r w))) = usage_events (store w)"
  by (cases "h_tenant r")
    (auto simp: dispatchEvent_def Dispatch_def ActiveWebhooksForTenant_def call_quiet
      dispatch_loop_usage with_uuid_def case_prod_beta split: option.splits idtext.splits sum.splits)

definition bill :: "uuid \<Rightarrow> uuid \<Rightarrow> uuid \<Rightarrow> platform \<Rightarrow> platform" where
  "bill t i u p =
     (if i \<in> us_OperationID ` set (usage_events p) then p
      else p\<lparr>usage_events := usage_events p @
        [\<lparr>us_ID = u, us_TenantID = t, us_OperationID = i, us_Units = 1, us_RecordedAt = pg_now p\<rparr>]\<rparr>)"

text \<open>The goroutine started by a report of success bills one unit to the operation's tenant, unless
  the operation has been billed, in which case the ledger stays as it is; it does so whatever the
  operation's status is.\<close>

theorem success_bills:
  assumes "quiet w" and "t \<in> tn_ID ` set (tenants (store w))"
    and "i \<in> op_ID ` set (operations (store w))"
    and "fresh (tape w (Suc (pos w))) \<notin> us_ID ` set (usage_events (store w))"
  shows "usage_events (store (run_task (x_raw x) (post_to_usage x) (GoNotifySuccess t i out) w)) =
    usage_events (bill t i (fresh (tape w (Suc (pos w)))) (store w))"
proof -
  let ?w1 = "post_to_usage x (PostUsage (UuidText t) (UuidText i) 1) w"
  have w1: "quiet ?w1" "store ?w1 = bill t i (fresh (tape w (Suc (pos w)))) (store w)"
    using assms
    by (auto simp: post_to_usage_def http_call_quiet recordUsage_def internal_request_def
        RecordUsage_def call_quiet usage_stmt_def no_tenant_def no_operation_def int4_ok_def bill_def)
  show ?thesis
    by (simp add: NotifySuccess_def recordUsage_post_def dispatchWebhook_def Let_def
        post_to_usage_def [of x "PostDispatch a b c e" for a b c e] http_call_quiet w1
        dispatchEvent_usage)
qed

theorem success_bills_witness:
  "map us_Units (usage_events (store (run_task id (post_to_usage
      \<lparr>x_jsonb = Some, x_month = id, x_job = j_OpType, x_event = (\<lambda>e. None), x_url = (\<lambda>u. True),
       x_raw = id, x_secret = []\<rparr>) (GoNotifySuccess 1 2 None) (sample_world op_cancelled)))) = [1]"
proof -
  let ?x = "\<lparr>x_jsonb = Some, x_month = id, x_job = j_OpType, x_event = (\<lambda>e. None),
    x_url = (\<lambda>u. True), x_raw = id, x_secret = []\<rparr>"
  have f: "1 \<in> tn_ID ` set (tenants op_cancelled)" "2 \<in> op_ID ` set (operations op_cancelled)"
    "usage_events op_cancelled = []"
    by (code_simp, code_simp, code_simp)
  show ?thesis
    using success_bills [OF quiet_sample, of 1 op_cancelled 2 ?x None] f
    by (simp add: bill_def del: sample_operations)
qed

section \<open>The summary\<close>

text \<open>Undisturbed, the usage a tenant sees is computed from its own events of the current month:
  their number, the sum of their units, and what remains of the quota the gateway sent (100000 if it
  sent none or no integer), never less than zero; the gateway's quota guard is told the same sum.
  The counts of succeeded and failed operations are always zero.\<close>

theorem usage_summary:
  fixes month :: "gotime \<Rightarrow> gotime"
  assumes "quiet w" and "h_tenant r = UuidText t" and "url_id r' = UuidText t"
  defines "units \<equiv> sum_list (map us_Units (month_events month t (store w)))"
    and "q \<equiv> quota_of_header (h_quota r)"
  assumes "int64_min \<le> q - units" and "q - units \<le> int64_max"
    and "- int64_max \<le> units" and "units \<le> int64_max"
  shows "fst (getUsage month r w) = WriteJSON 200 (SummaryOf
      \<lparr>su_TotalOperations = int (length (month_events month t (store w))),
       su_SucceededOperations = 0, su_FailedOperations = 0, su_UnitsConsumed = units,
       su_MonthlyQuota = q, su_QuotaRemaining = max 0 (q - units)\<rparr>) \<and>
    fst (getConsumption month r' w) = WriteJSON 200 (UnitsConsumedBody units)"
  using assms
  by (simp add: getUsage_def getConsumption_def GetUsageSummary_def call_quiet usage_row_def
      reading_def Let_def wrap64_id max_def)

theorem usage_summary_witness:
  "fst (getConsumption id (sample_get EmptyText (UuidText 1)) (sample_world op_succeeded)) =
     WriteJSON 200 (UnitsConsumedBody 0)"
proof -
  have "month_events id 1 op_succeeded = []" by code_simp
  then show ?thesis
    using usage_summary [OF quiet_sample, of "sample_get (UuidText 1) EmptyText" 1
        "sample_get EmptyText (UuidText 1)" id op_succeeded]
    by (simp add: quota_of_header_def int64_min_def int64_max_def)
qed

end
