(* ===== verification/Credentials.thy ===== *)
theory Credentials
  imports Sample
begin

text \<open>
  API keys: what a raw key looks like, that the gateway's validation accepts a key exactly while it is
  active, with the limits of its own tenant, and that a revocation is final.
\<close>

section \<open>Raw keys\<close>

text \<open>A raw key is \<open>nx_live_\<close> and the 48 hexadecimal digits of 24 random bytes, from which the
  bytes can be read back, so different bytes give different keys; the prefix shown in dashboards is
  its first 16 characters.\<close>

lemma raw_key_shape:
  assumes "GenerateRawKey w = (Inr (raw, shown), w')"
  shows "take 8 raw = ''nx_live_'' \<and> length raw = 56 \<and> shown = take 16 raw \<and>
    hex_decode (drop 8 raw) = Some (map (entropy (tape w (pos w))) [0..<24])"
  using assms
  by (auto simp: GenerateRawKey_def rand_read_def key_prefix_text_def Let_def hex.decode_encode
      split: if_splits)

section \<open>Validation\<close>

definition limits_of :: "tenant \<Rightarrow> ValidatedKey" where
  "limits_of t =
     \<lparr>vk_TenantID = tn_ID t, vk_Tier = tn_Tier t, vk_RateLimitRPM = tn_RateLimitRPM t,
      vk_MonthlyQuota = tn_MonthlyQuota t, vk_MaxConcurrentOps = tn_MaxConcurrentOps t\<rparr>"

definition accepts :: "platform \<Rightarrow> string \<Rightarrow> ValidatedKey \<Rightarrow> bool" where
  "accepts p hash v \<longleftrightarrow>
     (\<exists>k\<in>set (api_keys p). \<exists>t\<in>set (tenants p).
        ak_KeyHash k = hash \<and> ak_Status k = key_active \<and> tn_ID t = ak_TenantID k \<and> v = limits_of t)"

lemma validated_rows_iff: "v \<in> set (validated_rows hash p) \<longleftrightarrow> accepts p hash v"
proof -
  have "validated_rows hash p =
      concat (map (\<lambda>k. map limits_of (filter (\<lambda>t. tn_ID t = ak_TenantID k) (tenants p)))
        (filter (\<lambda>k. ak_KeyHash k = hash \<and> ak_Status k = key_active) (api_keys p)))"
    by (simp add: validated_rows_def limits_of_def [abs_def])
  then show ?thesis by (auto simp: accepts_def)
qed

lemma validateKey_200:
  assumes "tame S w" and "fst (validateKey secret r w) = WriteJSON 200 (ValidatedBody v)"
  obtains req p where "decoded r = Some req" and "S\<^sup>*\<^sup>* (store w) p"
    and "accepts p (HashKey secret (vr_APIKey req)) v"
proof -
  obtain req w1 where req: "decoded r = Some req"
    and c: "ValidateKeyHash (HashKey secret (vr_APIKey req)) w = (Inr v, w1)"
    using assms(2) by (auto simp: validateKey_def Let_def split: option.splits if_splits sum.splits
        prod.splits)
  show ?thesis
  proof (rule call_result [OF assms(1) c [unfolded ValidateKeyHash_def]])
    fix u p
    assume p: "S\<^sup>*\<^sup>* (store w) p"
      and "reading (\<lambda>p. case validated_rows (HashKey secret (vr_APIKey req)) p of
        [] \<Rightarrow> Inl NoRows | v # _ \<Rightarrow> Inr v) u p = (Inr v, store w1)"
    then have "v \<in> set (validated_rows (HashKey secret (vr_APIKey req)) p)"
      by (auto simp: reading_def split: list.splits)
    then show ?thesis using that [OF req p] by (simp add: validated_rows_iff)
  qed simp
qed

text \<open>Whatever happens meanwhile, a key the gateway is told to accept was active at some moment
  while the request ran, and the limits it is told are those of that key's own tenant.\<close>

theorem validation_sound:
  assumes "tame platform_step w"
    and "fst (validateKey secret r w) = WriteJSON 200 (ValidatedBody v)"
  shows "\<exists>req p. decoded r = Some req \<and> platform_step\<^sup>*\<^sup>* (store w) p \<and>
    accepts p (HashKey secret (vr_APIKey req)) v"
  using assms by (rule validateKey_200) blast

text \<open>C15: A revocation is final: once a key is revoked, no later validation of it is accepted,
  whatever the deployment does before or during it.\<close>

theorem revoked_never_accepted:
  assumes "reachable (store w)" and "tame platform_step w"
    and "k \<in> set (api_keys (store w))" and "ak_Status k = key_revoked"
    and "ak_KeyHash k = HashKey secret (vr_APIKey req)" and "decoded r = Some req"
  shows "fst (validateKey secret r w) \<noteq> WriteJSON 200 (ValidatedBody v)"
proof
  assume "fst (validateKey secret r w) = WriteJSON 200 (ValidatedBody v)"
  then show False
  proof (rule validateKey_200 [OF assms(2)])
    fix req' p
    assume r: "decoded r = Some req'" and p: "platform_step\<^sup>*\<^sup>* (store w) p"
      and a: "accepts p (HashKey secret (vr_APIKey req')) v"
    have "reachable p" using assms(1) p unfolding reachable_def by (rule rtranclp_trans)
    then have "inj_on ak_KeyHash (set (api_keys p))"
      using schema.at_reachable by (auto simp: schema_ok_def unique_indexes_def distinct_map)
    moreover have "k \<in> set (api_keys p)"
      using revoked.run [OF p] assms(3,4) by (simp add: revoked_frozen_def)
    moreover obtain k' where "k' \<in> set (api_keys p)" "ak_Status k' = key_active"
      "ak_KeyHash k' = ak_KeyHash k"
      using a r assms(5,6) by (auto simp: accepts_def)
    ultimately have "k' = k" by (metis inj_onD)
    then show False using \<open>ak_Status k' = key_active\<close> assms(4) by simp
  qed
qed

section \<open>The life of a key\<close>

definition raw_key :: "platform world \<Rightarrow> string" where
  "raw_key w = key_prefix_text @ hex_encode (map (entropy (tape w (pos w))) [0..<24])"

definition new_key :: "string \<Rightarrow> uuid \<Rightarrow> platform world \<Rightarrow> api_key_row" where
  "new_key secret t w =
     \<lparr>ak_ID = fresh (tape w (Suc (pos w))), ak_TenantID = t, ak_KeyPrefix = take 16 (raw_key w),
      ak_Status = key_active, ak_CreatedAt = pg_now (store w), ak_RevokedAt = None,
      ak_KeyHash = HashKey secret (raw_key w)\<rparr>"

lemma createAPIKey_quiet:
  assumes "quiet w" and "url_id r = UuidText t" and "t \<in> tn_ID ` set (tenants (store w))"
    and "fresh (tape w (Suc (pos w))) \<notin> ak_ID ` set (api_keys (store w))"
    and "HashKey secret (raw_key w) \<notin> ak_KeyHash ` set (api_keys (store w))"
  shows "createAPIKey secret r w =
    (WriteJSON 201 (KeyCreated (api_key.truncate (new_key secret t w)) (raw_key w)),
     w\<lparr>pos := Suc (Suc (pos w)),
       store := (store w)\<lparr>api_keys := api_keys (store w) @ [new_key secret t w]\<rparr>\<rparr>)"
  using assms
  by (simp add: createAPIKey_def GenerateRawKey_def rand_read_quiet Let_def CreateAPIKey_def
      call_quiet api_key_stmt_def no_tenant_def api_key.defs flip: raw_key_def)
    (simp add: new_key_def api_key.defs raw_key_def)

lemma validated_new:
  assumes "schema_ok p" and "t \<in> set (tenants p)" and "ak_TenantID k = tn_ID t"
    and "ak_Status k = key_active" and "ak_KeyHash k \<notin> ak_KeyHash ` set (api_keys p)"
  shows "validated_rows (ak_KeyHash k) (p\<lparr>api_keys := api_keys p @ [k]\<rparr>) = [limits_of t]"
proof -
  have "filter (\<lambda>k'. ak_KeyHash k' = ak_KeyHash k \<and> ak_Status k' = key_active) (api_keys p) = []"
    using assms(5) by (force simp: filter_empty_conv image_iff)
  moreover have "filter (\<lambda>t'. tn_ID t' = tn_ID t) ts = [t]"
    if "distinct (map tn_ID ts)" "t \<in> set ts" for ts
    using that by (induction ts) (auto simp: filter_empty_conv image_iff)
  then have "filter (\<lambda>t'. tn_ID t' = ak_TenantID k) (tenants p) = [t]"
    using assms(1-3) by (simp add: schema_ok_def primary_keys_def)
  ultimately show ?thesis
    using assms(4) by (simp add: validated_rows_def limits_of_def)
qed

text \<open>C31: Undisturbed, a key made for a tenant is answered with its raw form once, only its hash and
  prefix are stored, and the raw key is accepted from then on with the tenant's limits.\<close>

theorem key_roundtrip:
  assumes "quiet w" and "schema_ok (store w)" and "t \<in> set (tenants (store w))"
    and "url_id r = UuidText (tn_ID t)"
    and "fresh (tape w (Suc (pos w))) \<notin> ak_ID ` set (api_keys (store w))"
    and "HashKey secret (raw_key w) \<notin> ak_KeyHash ` set (api_keys (store w))"
    and "decoded r2 = Some \<lparr>vr_APIKey = raw_key w\<rparr>"
  shows "fst (createAPIKey secret r w) =
      WriteJSON 201 (KeyCreated (api_key.truncate (new_key secret (tn_ID t) w)) (raw_key w)) \<and>
    api_keys (store (snd (createAPIKey secret r w))) =
      api_keys (store w) @ [new_key secret (tn_ID t) w] \<and>
    fst (validateKey secret r2 (snd (createAPIKey secret r w))) =
      WriteJSON 200 (ValidatedBody (limits_of t))"
proof -
  have c: "createAPIKey secret r w =
    (WriteJSON 201 (KeyCreated (api_key.truncate (new_key secret (tn_ID t) w)) (raw_key w)),
     w\<lparr>pos := Suc (Suc (pos w)),
       store := (store w)\<lparr>api_keys := api_keys (store w) @ [new_key secret (tn_ID t) w]\<rparr>\<rparr>)"
    using assms(1,3-6) by (intro createAPIKey_quiet) auto
  have h: "ak_KeyHash (new_key secret (tn_ID t) w) = HashKey secret (raw_key w)"
    by (simp add: new_key_def)
  have v: "validated_rows (HashKey secret (raw_key w))
      ((store w)\<lparr>api_keys := api_keys (store w) @ [new_key secret (tn_ID t) w]\<rparr>) = [limits_of t]"
    using validated_new [OF assms(2,3), of "new_key secret (tn_ID t) w"] assms(6)
    by (simp add: new_key_def)
  have "raw_key w \<noteq> []" by (simp add: raw_key_def key_prefix_text_def)
  then show ?thesis
    using assms(1,7) v
    by (simp add: c validateKey_def Let_def ValidateKeyHash_def call_quiet reading_def)
qed

definition revoked_key :: "uuid \<Rightarrow> gotime \<Rightarrow> api_key_row \<Rightarrow> api_key_row" where
  "revoked_key i now k =
     (if ak_ID k = i \<and> ak_Status k = key_active
      then k\<lparr>ak_Status := key_revoked, ak_RevokedAt := Some now\<rparr> else k)"

text \<open>Undisturbed, the revocation of a key is answered with 204 exactly if there is an active key
  with the id, of whatever tenant, and then that key is revoked now; otherwise the answer is 404, so
  a second revocation is refused. Nothing else changes. The tenant of the request plays no part.\<close>

theorem revoke_effect:
  assumes "quiet w" and "url_id r = UuidText i"
  shows "r_status (fst (revokeAPIKey r w)) =
      (if \<exists>k\<in>set (api_keys (store w)). ak_ID k = i \<and> ak_Status k = key_active then 204 else 404) \<and>
    store (snd (revokeAPIKey r w)) =
      (store w)\<lparr>api_keys := map (revoked_key i (pg_now (store w))) (api_keys (store w))\<rparr>"
proof -
  have "upd_where (revoke_cond (i, n)) (revoke_row (i, n)) ks = map (revoked_key i n) ks" for n ks
    by (simp add: upd_where_def revoked_key_def revoke_cond_def revoke_row_def)
  moreover have "length (filter (revoke_cond (i, n)) ks) = 0 \<longleftrightarrow>
      \<not> (\<exists>k\<in>set ks. ak_ID k = i \<and> ak_Status k = key_active)" for n ks
    by (auto simp: filter_empty_conv revoke_cond_def)
  ultimately show ?thesis
    using assms by (auto simp: revokeAPIKey_def RevokeAPIKey_def call_quiet revoke_stmt_def Let_def)
qed

theorem revoke_effect_witness:
  "store (snd (revokeAPIKey (sample_get EmptyText (UuidText 5)) (sample_world key_added))) =
     key_added\<lparr>api_keys := map (revoked_key 5 5000) (api_keys key_added)\<rparr>"
proof -
  have "pg_now key_added = 5000" by code_simp
  then show ?thesis
    using revoke_effect [of "sample_world key_added" "sample_get EmptyText (UuidText 5)" 5] by simp
qed

section \<open>Tenants\<close>

definition or_default :: "int \<Rightarrow> int \<Rightarrow> int" where
  "or_default n d = (if n = 0 then d else n)"

text \<open>Undisturbed, a tenant created with a name is answered with 201, the fields of the request
  and the defaults for those left empty, and can then be read back by its id.\<close>

lemma tenant_roundtrip:
  assumes "quiet w" and "schema_ok (store w)" and "decoded r = Some req" and "ct_Name req \<noteq> []"
    and "int4_ok (ct_RateLimitRPM req)" and "int4_ok (ct_MaxConcurrentOps req)"
    and "fresh (tape w (pos w)) \<notin> tn_ID ` set (tenants (store w))"
    and "url_id r2 = UuidText (fresh (tape w (pos w)))"
  defines "t \<equiv> \<lparr>tn_ID = fresh (tape w (pos w)), tn_Name = ct_Name req,
      tn_Tier = (if ct_Tier req = [] then ''standard'' else ct_Tier req),
      tn_RateLimitRPM = or_default (ct_RateLimitRPM req) 100,
      tn_MonthlyQuota = or_default (ct_MonthlyQuota req) 100000,
      tn_MaxConcurrentOps = or_default (ct_MaxConcurrentOps req) 10,
      tn_CreatedAt = pg_now (store w)\<rparr>"
  shows "fst (createTenant r w) = WriteJSON 201 (TenantBody t) \<and>
    store (snd (createTenant r w)) = (store w)\<lparr>tenants := tenants (store w) @ [t]\<rparr> \<and>
    fst (getTenant r2 (snd (createTenant r w))) = WriteJSON 200 (TenantBody t)"
proof -
  have i: "int4_ok (or_default (ct_RateLimitRPM req) 100)"
    "int4_ok (or_default (ct_MaxConcurrentOps req) 10)"
    using assms(5,6) by (simp_all add: or_default_def int4_ok_def)
  have c: "createTenant r w = (WriteJSON 201 (TenantBody t),
      w\<lparr>pos := Suc (pos w), store := (store w)\<lparr>tenants := tenants (store w) @ [t]\<rparr>\<rparr>)"
    using assms(1,3,4,7) i
    by (simp add: createTenant_def Let_def CreateTenant_def call_quiet tenant_stmt_def
        flip: or_default_def) (simp add: t_def)
  have "first_row (\<lambda>t'. tn_ID t' = tn_ID t) (tenants (store w) @ [t]) = Inr t"
    by (rule first_row_last) (use assms(7) in \<open>force simp: t_def image_iff\<close>)+
  then show ?thesis
    using assms(1,8)
    by (simp add: c getTenant_def GetTenant_def call_quiet reading_def) (simp add: t_def)
qed

section \<open>Examples\<close>

text \<open>A key whose hash is left symbolic, made and then revoked.\<close>

definition keyed :: "string \<Rightarrow> platform" where
  "keyed hash = snd (api_key_stmt (UuidText 1) ''nx_live_'' hash 5 tenant_a)"

definition sample_key :: "string \<Rightarrow> api_key_row" where
  "sample_key hash =
     \<lparr>ak_ID = 5, ak_TenantID = 1, ak_KeyPrefix = ''nx_live_'', ak_Status = key_active,
      ak_CreatedAt = pg_now tenant_a, ak_RevokedAt = None, ak_KeyHash = hash\<rparr>"

definition the_tenant :: tenant where
  "the_tenant = hd (tenants tenant_a)"

lemma tenant_a_fields:
  "tenants tenant_a = [the_tenant]" "tn_ID the_tenant = 1" "api_keys tenant_a = []"
proof -
  have "length (tenants tenant_a) = 1" "tn_ID (hd (tenants tenant_a)) = 1" "api_keys tenant_a = []"
    by (code_simp, code_simp, code_simp)
  then show "tenants tenant_a = [the_tenant]" "tn_ID the_tenant = 1" "api_keys tenant_a = []"
    by (auto simp: the_tenant_def length_Suc_conv)
qed

lemma keyed_eq: "keyed hash = tenant_a\<lparr>api_keys := [sample_key hash]\<rparr>"
  by (simp add: keyed_def api_key_stmt_def tenant_a_fields no_tenant_def sample_key_def Let_def)

lemma keyed_reachable: "reachable (keyed hash)"
  unfolding keyed_def
  by (rule reachable_step [OF sample_reachable(1) platform_step.guarded]) (rule guarded_step.new_key)

lemma revoked_reachable: "reachable (snd (revoke_stmt (UuidText 5) 0 (keyed hash)))"
  by (rule reachable_step [OF keyed_reachable platform_step.guarded]) (rule guarded_step.revoke)

definition sample_validate :: "string \<Rightarrow> validateKeyReq request" where
  "sample_validate raw = sample_req EmptyText EmptyText (Some \<lparr>vr_APIKey = raw\<rparr>)"

theorem validation_sound_witness:
  "\<exists>p. platform_step\<^sup>*\<^sup>* (keyed (HashKey ''s'' ''x'')) p \<and>
     accepts p (HashKey ''s'' ''x'') (limits_of the_tenant)"
proof -
  have "fst (validateKey ''s'' (sample_validate ''x'') (sample_world (keyed (HashKey ''s'' ''x'')))) =
      WriteJSON 200 (ValidatedBody (limits_of the_tenant))"
    by (simp add: validateKey_def sample_validate_def ValidateKeyHash_def call_quiet reading_def
        Let_def validated_rows_def keyed_eq sample_key_def tenant_a_fields limits_of_def)
  from validation_sound [OF tame_sample this] show ?thesis by (auto simp: sample_validate_def)
qed

theorem revoked_never_accepted_witness:
  "fst (validateKey ''s'' (sample_validate ''x'')
      (sample_world (snd (revoke_stmt (UuidText 5) 0 (keyed (HashKey ''s'' ''x'')))))) \<noteq>
   WriteJSON 200 (ValidatedBody (limits_of the_tenant))"
  using revoked_never_accepted [of
      "sample_world (snd (revoke_stmt (UuidText 5) 0 (keyed (HashKey ''s'' ''x''))))"
      "(sample_key (HashKey ''s'' ''x''))\<lparr>ak_Status := key_revoked,
         ak_RevokedAt := Some (pg_now tenant_a)\<rparr>"
      "''s''" "\<lparr>vr_APIKey = ''x''\<rparr>" "sample_validate ''x''" "limits_of the_tenant"] revoked_reachable
  by (simp add: revoke_stmt_def keyed_eq Let_def revoke_cond_def revoke_row_def sample_validate_def)
    (simp add: sample_key_def)

theorem key_roundtrip_witness:
  "fst (validateKey ''s'' (sample_validate (raw_key (sample_world tenant_a)))
      (snd (createAPIKey ''s'' (sample_get EmptyText (UuidText 1)) (sample_world tenant_a)))) =
   WriteJSON 200 (ValidatedBody (limits_of the_tenant))"
  using key_roundtrip [of "sample_world tenant_a" the_tenant "sample_get EmptyText (UuidText 1)"
      "''s''" "sample_validate (raw_key (sample_world tenant_a))"]
    schema.at_reachable [OF sample_reachable(1)]
  by (simp add: tenant_a_fields sample_validate_def)

end
