(* ===== verification/Key_Store.thy ===== *)
theory Key_Store
  imports Credentials
begin

text \<open>
  What the access service promises about API keys, as an abstract machine: a ring of live keys that
  can be issued, withdrawn and presented. Every request of the service is one step of it, at some
  moment while the request runs.
\<close>

section \<open>The ring of keys\<close>

text \<open>
  \<open>doors\<close> gives the id and the tenant of the live key with a hash, \<open>limits\<close> the limits of a tenant;
  ids and hashes stay used when a key is withdrawn.
\<close>

record ring =
  used_ids :: "uuid set"
  used_hashes :: "string set"
  doors :: "string \<Rightarrow> (uuid \<times> uuid) option"
  limits :: "uuid \<Rightarrow> ValidatedKey option"

definition add_key :: "uuid \<Rightarrow> string \<Rightarrow> uuid \<Rightarrow> ring \<Rightarrow> ring" where
  "add_key i h t R =
     R\<lparr>used_ids := insert i (used_ids R), used_hashes := insert h (used_hashes R),
       doors := (doors R)(h \<mapsto> (i, t))\<rparr>"

definition drop_key :: "uuid \<Rightarrow> ring \<Rightarrow> ring" where
  "drop_key i R =
     R\<lparr>doors := (\<lambda>h. case doors R h of
          None \<Rightarrow> None | Some (j, t) \<Rightarrow> if j = i then None else Some (j, t))\<rparr>"

datatype key_request = Issue idtext | Withdraw idtext | Present "string option"

datatype key_answer = Issued string | Withdrawn | Admitted ValidatedKey | RejectedWith int

inductive ring_step :: "string \<Rightarrow> ring \<Rightarrow> key_request \<Rightarrow> key_answer \<Rightarrow> ring \<Rightarrow> bool" for s R where
  issued:
    "limits R t \<noteq> None \<Longrightarrow> i \<notin> used_ids R \<Longrightarrow> HashKey s raw \<notin> used_hashes R \<Longrightarrow>
     ring_step s R (Issue (UuidText t)) (Issued raw) (add_key i (HashKey s raw) t R)"
| not_issued:
    "(\<forall>t. x = UuidText t \<longrightarrow> limits R t = None \<or> i \<in> used_ids R \<or> HashKey s raw \<in> used_hashes R) \<Longrightarrow>
     ring_step s R (Issue x) (RejectedWith 500) R"
| withdrawn:
    "doors R h = Some (i, t) \<Longrightarrow> ring_step s R (Withdraw (UuidText i)) Withdrawn (drop_key i R)"
| not_withdrawn:
    "(\<forall>i h t. x = UuidText i \<longrightarrow> doors R h \<noteq> Some (i, t)) \<Longrightarrow>
     ring_step s R (Withdraw x) (RejectedWith 404) R"
| admitted:
    "raw \<noteq> [] \<Longrightarrow> doors R (HashKey s raw) = Some (i, t) \<Longrightarrow> limits R t = Some v \<Longrightarrow>
     ring_step s R (Present (Some raw)) (Admitted v) R"
| not_admitted:
    "raw \<noteq> [] \<Longrightarrow> doors R (HashKey s raw) = None \<Longrightarrow>
     ring_step s R (Present (Some raw)) (RejectedWith 401) R"
| nothing_presented:
    "k = None \<or> k = Some [] \<Longrightarrow> ring_step s R (Present k) (RejectedWith 400) R"

section \<open>The service as a ring\<close>

definition ring_of :: "platform \<Rightarrow> ring" where
  "ring_of p =
     \<lparr>used_ids = ak_ID ` set (api_keys p), used_hashes = ak_KeyHash ` set (api_keys p),
      doors = (\<lambda>h. map_option (\<lambda>k. (ak_ID k, ak_TenantID k))
        (find (\<lambda>k. ak_KeyHash k = h \<and> ak_Status k = key_active) (api_keys p))),
      limits = (\<lambda>t. map_option limits_of (find (\<lambda>r. tn_ID r = t) (tenants p)))\<rparr>"

text \<open>What a response says.\<close>

definition says :: "access_body response \<Rightarrow> key_answer" where
  "says resp =
     (case r_body resp of
        JSON (KeyCreated k raw) \<Rightarrow> Issued raw
      | JSON (ValidatedBody v) \<Rightarrow> Admitted v
      | _ \<Rightarrow> if r_status resp = 204 then Withdrawn else RejectedWith (r_status resp))"

fun key_service :: "string \<Rightarrow> string \<Rightarrow> key_request \<Rightarrow> platform world \<Rightarrow> access_reply" where
  "key_service s rid (Issue x) w =
     createAPIKey s \<lparr>h_tenant = EmptyText, h_reqid = rid, h_idem = [], h_quota = [], url_id = x,
       q_status = [], q_limit = [], q_offset = [], decoded = None\<rparr> w"
| "key_service s rid (Withdraw x) w =
     revokeAPIKey \<lparr>h_tenant = EmptyText, h_reqid = rid, h_idem = [], h_quota = [], url_id = x,
       q_status = [], q_limit = [], q_offset = [], decoded = None\<rparr> w"
| "key_service s rid (Present k) w =
     validateKey s \<lparr>h_tenant = EmptyText, h_reqid = rid, h_idem = [], h_quota = [],
       url_id = EmptyText, q_status = [], q_limit = [], q_offset = [],
       decoded = map_option validateKeyReq.make k\<rparr> w"

lemma door_iff:
  assumes "schema_ok p"
  shows "doors (ring_of p) h = Some (i, t) \<longleftrightarrow>
    (\<exists>k\<in>set (api_keys p). ak_KeyHash k = h \<and> ak_Status k = key_active \<and> ak_ID k = i \<and> ak_TenantID k = t)"
proof -
  have inj: "inj_on ak_KeyHash (set (api_keys p))"
    using assms by (simp add: schema_ok_def unique_indexes_def distinct_map)
  show ?thesis
  proof (cases "find (\<lambda>k. ak_KeyHash k = h \<and> ak_Status k = key_active) (api_keys p)")
    case None
    then have "doors (ring_of p) h = None" by (simp add: ring_of_def)
    moreover have "\<forall>k\<in>set (api_keys p). \<not> (ak_KeyHash k = h \<and> ak_Status k = key_active)"
      using None by (auto simp: find_None_iff)
    ultimately show ?thesis by auto
  next
    case (Some k)
    then have k: "k \<in> set (api_keys p)" "ak_KeyHash k = h" "ak_Status k = key_active"
      by (auto simp: find_Some_iff)
    have u: "k' = k" if "k' \<in> set (api_keys p)" "ak_KeyHash k' = h" for k'
      using inj_onD [OF inj, of k' k] that k by simp
    have "doors (ring_of p) h = Some (ak_ID k, ak_TenantID k)" using Some by (simp add: ring_of_def)
    then show ?thesis using k u by (metis option.inject prod.inject)
  qed
qed

lemma limits_iff:
  assumes "schema_ok p"
  shows "limits (ring_of p) t = Some v \<longleftrightarrow> (\<exists>r\<in>set (tenants p). tn_ID r = t \<and> v = limits_of r)"
proof -
  have inj: "inj_on tn_ID (set (tenants p))"
    using assms by (simp add: schema_ok_def primary_keys_def distinct_map)
  show ?thesis
  proof (cases "find (\<lambda>r. tn_ID r = t) (tenants p)")
    case None
    then have "limits (ring_of p) t = None" by (simp add: ring_of_def)
    moreover have "\<forall>r\<in>set (tenants p). tn_ID r \<noteq> t" using None by (auto simp: find_None_iff)
    ultimately show ?thesis by auto
  next
    case (Some r)
    then have r: "r \<in> set (tenants p)" "tn_ID r = t" by (auto simp: find_Some_iff)
    have u: "r' = r" if "r' \<in> set (tenants p)" "tn_ID r' = t" for r'
      using inj_onD [OF inj, of r' r] that r by simp
    have "limits (ring_of p) t = Some (limits_of r)" using Some by (simp add: ring_of_def)
    then show ?thesis using r u by (metis option.inject)
  qed
qed

lemma limits_None: "limits (ring_of p) t = None \<longleftrightarrow> no_tenant t p"
  by (auto simp: ring_of_def find_None_iff no_tenant_def)

lemma validated_ring:
  assumes "schema_ok p"
  shows "(case validated_rows h p of [] \<Rightarrow> None | v # vs \<Rightarrow> Some v) =
    (case doors (ring_of p) h of None \<Rightarrow> None | Some (i, t) \<Rightarrow> limits (ring_of p) t)"
proof (cases "validated_rows h p")
  case Nil
  have "limits (ring_of p) t = None" if d: "doors (ring_of p) h = Some (i, t)" for i t
  proof (rule ccontr)
    assume "limits (ring_of p) t \<noteq> None"
    then obtain r where r: "r \<in> set (tenants p)" "tn_ID r = t" by (auto simp: limits_iff [OF assms])
    obtain k where "k \<in> set (api_keys p)" "ak_KeyHash k = h" "ak_Status k = key_active"
      "ak_TenantID k = t" using d by (auto simp: door_iff [OF assms])
    with r have "accepts p h (limits_of r)"
      unfolding accepts_def by (intro bexI [of _ k] bexI [of _ r]) auto
    then show False using Nil validated_rows_iff [of "limits_of r" h p] by simp
  qed
  then show ?thesis using Nil by (auto split: option.splits)
next
  case (Cons v vs)
  then have "accepts p h v" using validated_rows_iff [of v h p] by simp
  then obtain k t where "k \<in> set (api_keys p)" "t \<in> set (tenants p)" "ak_KeyHash k = h"
    "ak_Status k = key_active" "tn_ID t = ak_TenantID k" "v = limits_of t"
    by (auto simp: accepts_def)
  then have "doors (ring_of p) h = Some (ak_ID k, ak_TenantID k)"
    "limits (ring_of p) (ak_TenantID k) = Some v"
    by (auto simp: door_iff [OF assms] limits_iff [OF assms])
  then show ?thesis using Cons by simp
qed

lemma door_tenant:
  assumes "schema_ok p" and "doors (ring_of p) h = Some (i, t)"
  shows "limits (ring_of p) t \<noteq> None"
proof -
  have "t \<in> tn_ID ` set (tenants p)"
    using assms by (auto simp: door_iff [OF assms(1)] schema_ok_def foreign_keys_def)
  then show ?thesis by (auto simp: limits_None no_tenant_def)
qed

text \<open>The three statements.\<close>

lemma ring_insert:
  assumes "k \<notin> set (api_keys p)" and "ak_KeyHash k \<notin> ak_KeyHash ` set (api_keys p)"
    and "ak_Status k = key_active"
  shows "ring_of (p\<lparr>api_keys := api_keys p @ [k]\<rparr>) =
    add_key (ak_ID k) (ak_KeyHash k) (ak_TenantID k) (ring_of p)"
proof -
  have "find (\<lambda>k'. ak_KeyHash k' = h \<and> ak_Status k' = key_active) (ks @ [k]) =
      (if h = ak_KeyHash k then Some k
       else find (\<lambda>k'. ak_KeyHash k' = h \<and> ak_Status k' = key_active) ks)"
    if "ak_KeyHash k \<notin> ak_KeyHash ` set ks" for h ks
    using that assms(3) by (induction ks) auto
  then show ?thesis
    using assms(2) by (auto simp: ring_of_def add_key_def fun_eq_iff)
qed

lemma ring_revoke:
  assumes "schema_ok p" and "schema_ok p'"
    and "p' = p\<lparr>api_keys := upd_where (revoke_cond (i, n)) (revoke_row (i, n)) (api_keys p)\<rparr>"
  shows "ring_of p' = drop_key i (ring_of p)"
proof -
  have ks: "api_keys p' = map (\<lambda>k. if ak_ID k = i \<and> ak_Status k = key_active
      then k\<lparr>ak_Status := key_revoked, ak_RevokedAt := Some n\<rparr> else k) (api_keys p)"
    "tenants p' = tenants p"
    using assms(3) by (simp_all add: upd_where_def revoke_cond_def revoke_row_def)
  have "doors (ring_of p') h = doors (drop_key i (ring_of p)) h" for h
  proof -
    have *: "doors (ring_of p') h = Some (j, t) \<longleftrightarrow> j \<noteq> i \<and> doors (ring_of p) h = Some (j, t)" for j t
      unfolding door_iff [OF assms(1)] door_iff [OF assms(2)] ks by (auto split: if_splits)
    show ?thesis
    proof (cases "doors (ring_of p) h")
      case None
      then show ?thesis using * by (cases "doors (ring_of p') h") (auto simp: drop_key_def)
    next
      case (Some jt)
      obtain j t where jt: "jt = (j, t)" by fastforce
      show ?thesis
      proof (cases "j = i")
        case True
        have "doors (ring_of p') h \<noteq> Some (j', t')" for j' t'
          using * [of j' t'] Some jt True by auto
        then have "doors (ring_of p') h = None" by (metis not_Some_eq surj_pair)
        then show ?thesis using True Some jt by (simp add: drop_key_def)
      next
        case False
        then have "doors (ring_of p') h = Some (j, t)" using * Some jt by simp
        then show ?thesis using False Some jt by (simp add: drop_key_def)
      qed
    qed
  qed
  moreover have "map ak_ID (api_keys p') = map ak_ID (api_keys p)"
    "map ak_KeyHash (api_keys p') = map ak_KeyHash (api_keys p)" by (simp_all add: ks)
  then have "used_ids (ring_of p') = used_ids (ring_of p)"
    "used_hashes (ring_of p') = used_hashes (ring_of p)" "limits (ring_of p') = limits (ring_of p)"
    by (simp_all add: ring_of_def ks(2) flip: set_map)
  ultimately show ?thesis
    by (intro ring.equality) (auto simp: drop_key_def)
qed

section \<open>The refinement\<close>

lemma call_done:
  assumes "call f w = (a, w')" and "tame S w" and "\<forall>n. outcome (tape w n) = Done"
  obtains u p where "S\<^sup>*\<^sup>* (store w) p" and "f u p = (a, store w')"
proof -
  obtain r p' where "f (fresh (tape w (pos w))) (others (tape w (pos w)) (store w)) = (r, p')"
    by fastforce
  then show ?thesis
    using that [of "others (tape w (pos w)) (store w)" "fresh (tape w (pos w))"] assms
    by (auto simp: call_def Let_def tame_def)
qed

lemma later_ok: "reachable p \<Longrightarrow> platform_step\<^sup>*\<^sup>* p p' \<Longrightarrow> schema_ok p'"
  unfolding reachable_def by (rule schema.at_reachable [unfolded reachable_def]) (rule rtranclp_trans)

lemma issue_effect:
  assumes "tame platform_step w" and "reachable (store w)" and "\<forall>n. outcome (tape w n) = Done"
    and "key_service s rid (Issue x) w = (resp, w')"
  shows "\<exists>p. platform_step\<^sup>*\<^sup>* (store w) p \<and>
    ring_step s (ring_of p) (Issue x) (says resp) (ring_of (store w'))"
proof -
  define raw where "raw = raw_key w"
  define w1 where "w1 = w\<lparr>pos := Suc (pos w)\<rparr>"
  have gen: "GenerateRawKey w = (Inr (raw, take 16 raw), w1)"
    using assms(3) by (simp add: GenerateRawKey_def rand_read_def Let_def raw_def raw_key_def w1_def)
  obtain a w2 where c: "call (api_key_stmt x (take 16 raw) (HashKey s raw)) w1 = (a, w2)"
    by fastforce
  have w1: "tame platform_step w1" "\<forall>n. outcome (tape w1 n) = Done" "store w1 = store w"
    using assms(1,3) by (simp_all add: w1_def tame_def)
  obtain u p where p: "platform_step\<^sup>*\<^sup>* (store w) p"
    and f: "api_key_stmt x (take 16 raw) (HashKey s raw) u p = (a, store w2)"
    using call_done [OF c w1(1,2)] w1(3) by metis
  have r: "w' = w2" "says resp = (case a of Inl e \<Rightarrow> RejectedWith 500 | Inr k \<Rightarrow> Issued raw)"
    using assms(4) gen c
    by (auto simp: createAPIKey_def CreateAPIKey_def Let_def says_def WriteError_def WriteJSON_def split: sum.splits)
  have "ring_step s (ring_of p) (Issue x) (says resp) (ring_of (store w'))"
  proof (cases a)
    case (Inl e)
    then have "store w2 = p"
      "\<forall>t. x = UuidText t \<longrightarrow> limits (ring_of p) t = None \<or> u \<in> used_ids (ring_of p) \<or>
         HashKey s raw \<in> used_hashes (ring_of p)"
      using f unfolding limits_None
      by (auto simp: api_key_stmt_def with_uuid_def Let_def ring_of_def
          split: idtext.splits if_splits)
    then show ?thesis using r Inl by (auto intro: ring_step.not_issued)
  next
    case (Inr k)
    obtain t where x: "x = UuidText t"
      using f Inr by (auto simp: api_key_stmt_def with_uuid_def split: idtext.splits)
    let ?k = "\<lparr>ak_ID = u, ak_TenantID = t, ak_KeyPrefix = take 16 raw, ak_Status = key_active,
               ak_CreatedAt = pg_now p, ak_RevokedAt = None, ak_KeyHash = HashKey s raw\<rparr>"
    have n: "u \<notin> ak_ID ` set (api_keys p)" "HashKey s raw \<notin> ak_KeyHash ` set (api_keys p)"
      "\<not> no_tenant t p" "store w2 = p\<lparr>api_keys := api_keys p @ [?k]\<rparr>"
      using f Inr x by (auto simp: api_key_stmt_def Let_def split: if_splits)
    then have "ring_of (store w2) = add_key u (HashKey s raw) t (ring_of p)"
      using ring_insert [of ?k p] by force
    moreover have "limits (ring_of p) t \<noteq> None" "u \<notin> used_ids (ring_of p)"
      "HashKey s raw \<notin> used_hashes (ring_of p)"
      using n(1,2,3) by (simp_all add: limits_None) (simp_all add: ring_of_def)
    ultimately show ?thesis using r Inr x by (auto intro: ring_step.issued)
  qed
  then show ?thesis using p by blast
qed

lemma withdraw_effect:
  assumes "tame platform_step w" and "reachable (store w)" and "\<forall>n. outcome (tape w n) = Done"
    and "key_service s rid (Withdraw x) w = (resp, w')"
  shows "\<exists>p. platform_step\<^sup>*\<^sup>* (store w) p \<and>
    ring_step s (ring_of p) (Withdraw x) (says resp) (ring_of (store w'))"
proof -
  obtain a w2 where c: "call (revoke_stmt x) w = (a, w2)" by fastforce
  obtain u p where p: "platform_step\<^sup>*\<^sup>* (store w) p" and f: "revoke_stmt x u p = (a, store w2)"
    using call_done [OF c assms(1,3)] by metis
  have r: "w' = w2" "says resp = (case a of Inl e \<Rightarrow> RejectedWith 404
      | Inr n \<Rightarrow> if n = 0 then RejectedWith 404 else Withdrawn)"
    using assms(4) c
    by (auto simp: revokeAPIKey_def RevokeAPIKey_def says_def WriteError_def WriteHeader_def
        split: sum.splits if_splits)
  have ok': "schema_ok p" "schema_ok (store w2)"
    using later_ok [OF assms(2) p] later_ok [OF assms(2) rtranclp.rtrancl_into_rtrancl [OF p platform_step.guarded
          [OF guarded_step.revoke [of p x u]]]] f by simp_all
  have "ring_step s (ring_of p) (Withdraw x) (says resp) (ring_of (store w'))"
  proof (cases x)
    case (UuidText i)
    let ?a = "(i, pg_now p)"
    have w2: "a = Inr (length (filter (revoke_cond ?a) (api_keys p)))"
      "store w2 = p\<lparr>api_keys := upd_where (revoke_cond ?a) (revoke_row ?a) (api_keys p)\<rparr>"
      using f UuidText by (auto simp: revoke_stmt_def Let_def)
    show ?thesis
    proof (cases "filter (revoke_cond ?a) (api_keys p)")
      case Nil
      then have "\<forall>k\<in>set (api_keys p). \<not> revoke_cond ?a k" by (simp add: filter_empty_conv)
      then have "upd_where (revoke_cond ?a) (revoke_row ?a) (api_keys p) = api_keys p"
        by (simp add: upd_where_def map_idI)
      moreover have "\<forall>h t. doors (ring_of p) h \<noteq> Some (i, t)"
        using \<open>\<forall>k\<in>set (api_keys p). \<not> revoke_cond ?a k\<close>
        by (auto simp: door_iff [OF ok'(1)] revoke_cond_def)
      ultimately show ?thesis
        using r w2 Nil UuidText by (auto intro: ring_step.not_withdrawn)
    next
      case (Cons k ks)
      then have "k \<in> set (filter (revoke_cond ?a) (api_keys p))" by simp
      then have "doors (ring_of p) (ak_KeyHash k) = Some (i, ak_TenantID k)"
        by (auto simp: door_iff [OF ok'(1)] revoke_cond_def)
      then show ?thesis
        using r w2 Cons UuidText ring_revoke [OF ok' w2(2)]
        by (auto intro: ring_step.withdrawn)
    qed
  qed (use r f in \<open>auto simp: revoke_stmt_def with_uuid_def intro: ring_step.not_withdrawn\<close>)
  then show ?thesis using p by blast
qed

lemma present_effect:
  assumes "tame platform_step w" and "reachable (store w)" and "\<forall>n. outcome (tape w n) = Done"
    and "key_service s rid (Present k) w = (resp, w')"
  shows "\<exists>p. platform_step\<^sup>*\<^sup>* (store w) p \<and>
    ring_step s (ring_of p) (Present k) (says resp) (ring_of (store w'))"
proof -
  show ?thesis
  proof (cases "k = None \<or> k = Some []")
    case True
    then have "w' = w" "says resp = RejectedWith 400"
      using assms(4)
      by (auto simp: validateKey_def Let_def says_def WriteError_def validateKeyReq.make_def)
    then show ?thesis using True by (auto intro: ring_step.nothing_presented)
  next
    case False
    then obtain raw where k: "k = Some raw" "raw \<noteq> []" by auto
    obtain a w2 where c: "ValidateKeyHash (HashKey s raw) w = (a, w2)" by fastforce
    obtain u p where p: "platform_step\<^sup>*\<^sup>* (store w) p" and
      f: "reading (\<lambda>p. case validated_rows (HashKey s raw) p of [] \<Rightarrow> Inl NoRows | v # _ \<Rightarrow> Inr v)
        u p = (a, store w2)"
      using call_done [OF c [unfolded ValidateKeyHash_def] assms(1,3)] by metis
    have r: "w' = w2" "says resp = (case a of Inl e \<Rightarrow> RejectedWith 401 | Inr v \<Rightarrow> Admitted v)"
      using assms(4) k c
      by (auto simp: validateKey_def Let_def says_def WriteError_def WriteJSON_def
          validateKeyReq.make_def split: sum.splits)
    have w2: "store w2 = p" "a = (case validated_rows (HashKey s raw) p of
        [] \<Rightarrow> Inl NoRows | v # _ \<Rightarrow> Inr v)"
      using f by (auto simp: reading_def)
    have "ring_step s (ring_of p) (Present k) (says resp) (ring_of (store w'))"
      using validated_ring [OF later_ok [OF assms(2) p], of "HashKey s raw"] door_tenant [OF later_ok [OF assms(2) p], of "HashKey s raw"]
        r w2 k
      by (auto split: list.splits option.splits intro: ring_step.admitted ring_step.not_admitted)
    then show ?thesis using p by blast
  qed
qed

text \<open>C12: Refinement: whatever the rest of the deployment does meanwhile, as long as the service's own
  calls are answered, each request to issue, withdraw or validate a key takes effect at one moment as
  a step of the ring of keys, and its answer is the one the ring gives at that moment.\<close>

theorem keys_linearizable:
  assumes "tame platform_step w" and "reachable (store w)" and "\<forall>n. outcome (tape w n) = Done"
    and "key_service s rid q w = (resp, w')"
  shows "\<exists>p. platform_step\<^sup>*\<^sup>* (store w) p \<and>
    ring_step s (ring_of p) q (says resp) (ring_of (store w'))"
  using assms by (cases q) (blast intro: issue_effect withdraw_effect present_effect)+

theorem keys_linearizable_witness:
  "\<exists>p. platform_step\<^sup>*\<^sup>* tenant_a p \<and>
     ring_step ''s'' (ring_of p) (Issue (UuidText 1))
       (says (fst (key_service ''s'' ''r'' (Issue (UuidText 1)) (sample_world tenant_a))))
       (ring_of (store (snd (key_service ''s'' ''r'' (Issue (UuidText 1)) (sample_world tenant_a)))))"
  using keys_linearizable [OF tame_sample, of tenant_a, OF _ _ surjective_pairing] sample_reachable(1)
  by (simp del: key_service.simps)

end
