(* ===== verification/Startup.thy ===== *)
theory Startup
  imports Deployment
begin

text \<open>
  The three \<open>main\<close> functions: what each service waits for, what it starts and what it serves. The
  dependencies answer as they like: \<open>dial\<close> and \<open>ping\<close> give the outcome of each try, and \<open>listen\<close> the
  error \<open>http.ListenAndServe\<close> returns for an address, if it returns.
\<close>

section \<open>The end of a start\<close>

text \<open>
  \<open>log.Fatalf\<close> ends the process at once, deferred calls included: a pool that has been opened is not
  closed. Otherwise the service answers requests with a handler made of its secret, and its background
  loop runs.
\<close>

datatype loop = NoLoop | RetryScheduler | RetryLoop

record 'p started =
  st_pool :: 'p
  st_loop :: loop
  st_secret :: string      \<comment> \<open>the handler's HMAC secret\<close>
  st_addr :: string

datatype 'p process = Fatal string goerr nat | Running "'p started" nat

text \<open>The last number is how often the start paused; how long a pause is (two seconds) is not modelled.\<close>

fun pauses :: "'p process \<Rightarrow> nat" where
  "pauses (Fatal msg e n) = n"
| "pauses (Running s n) = n"

definition serve_http :: "string \<Rightarrow> (string \<Rightarrow> goerr option) \<Rightarrow> 'p started \<Rightarrow> nat \<Rightarrow> 'p process" where
  "serve_http msg listen s n =
     (case listen (st_addr s) of Some e \<Rightarrow> Fatal msg e n | None \<Rightarrow> Running s n)"

definition access_New :: "(string \<Rightarrow> string) \<Rightarrow> string" where
  "access_New getenv = getenv ''API_KEY_HMAC_SECRET''"

definition access_main ::
    "(nat \<Rightarrow> 'p dial) \<Rightarrow> (string \<Rightarrow> string) \<Rightarrow> (string \<Rightarrow> goerr option) \<Rightarrow> 'p process" where
  "access_main dial getenv listen =
     (let b = connectWithRetry dial 10 in
      case b_err b of
        Some e \<Rightarrow> Fatal ''customer-access: failed to connect to postgres'' e (b_sleeps b)
      | None \<Rightarrow>
          serve_http ''customer-access: server error'' listen
            \<lparr>st_pool = the (b_pool b), st_loop = NoLoop, st_secret = access_New getenv,
             st_addr = CHR '':'' # access_port (getenv ''PORT'')\<rparr> (b_sleeps b))"

text \<open>\<open>parse\<close> is \<open>redis.ParseURL\<close>: \<open>Some\<close> its error. The client is made without a connection.\<close>

definition operations_main ::
    "(nat \<Rightarrow> 'p dial) \<Rightarrow> (string \<Rightarrow> goerr option) \<Rightarrow> (nat \<Rightarrow> goerr option) \<Rightarrow>
     (string \<Rightarrow> string) \<Rightarrow> (string \<Rightarrow> goerr option) \<Rightarrow> 'p process" where
  "operations_main dial parse ping getenv listen =
     (let b = connectPGWithRetry dial 10 in
      case b_err b of
        Some e \<Rightarrow> Fatal ''operations: postgres connection failed'' e (b_sleeps b)
      | None \<Rightarrow>
          (case parse (getenv ''REDIS_URL'') of
             Some e \<Rightarrow> Fatal ''operations: invalid REDIS_URL'' e (b_sleeps b)
           | None \<Rightarrow>
               (case pingRedisWithRetry ping 10 of
                  (Some e, n) \<Rightarrow> Fatal ''operations: redis connection failed'' e (b_sleeps b + n)
                | (None, n) \<Rightarrow>
                    serve_http ''operations: server error'' listen
                      \<lparr>st_pool = the (b_pool b), st_loop = RetryScheduler, st_secret = [],
                       st_addr = CHR '':'' # operations_port (getenv ''PORT'')\<rparr>
                      (b_sleeps b + n))))"

definition usage_main ::
    "(nat \<Rightarrow> 'p dial) \<Rightarrow> (string \<Rightarrow> string) \<Rightarrow> (string \<Rightarrow> goerr option) \<Rightarrow> 'p process" where
  "usage_main dial getenv listen =
     (let b = usage_connectWithRetry dial 10 in
      case b_err b of
        Some e \<Rightarrow> Fatal ''usage-webhooks: postgres connection failed'' e (b_sleeps b)
      | None \<Rightarrow>
          serve_http ''usage-webhooks: server error'' listen
            \<lparr>st_pool = the (b_pool b), st_loop = RetryLoop, st_secret = [],
             st_addr = CHR '':'' # usage_port (getenv ''PORT'')\<rparr> (b_sleeps b))"

section \<open>When a service serves\<close>

lemma ping_loop_bound: "snd (ping_loop ping i n e) \<le> i + n"
proof (induction n arbitrary: i e)
  case 0
  then show ?case by simp
next
  case (Suc n)
  show ?case using Suc.IH [of "Suc i"] by (auto split: option.splits)
qed

lemma ping_loop_none:
  "fst (ping_loop ping i n e) = None \<longleftrightarrow>
     (\<exists>k<n. ping (i + k) = None) \<or> n = 0 \<and> e = None"
proof (induction n arbitrary: i e)
  case 0
  then show ?case by simp
next
  case (Suc n)
  have "(\<exists>k<Suc n. ping (i + k) = None) \<longleftrightarrow> ping i = None \<or> (\<exists>k<n. ping (Suc i + k) = None)"
    by (auto simp: less_Suc_eq_0_disj)
  then show ?case using Suc.IH by (cases "ping i") auto
qed

lemma connect_outcome:
  "(b_err (connectWithRetry dial n) = None \<longleftrightarrow> n = 0 \<or> (\<exists>k<n. is_connected (dial k))) \<and>
   b_sleeps (connectWithRetry dial n) \<le> n"
proof (cases "find (\<lambda>k. is_connected (dial k)) [0..<n]")
  case None
  then have no: "\<not> is_connected (dial (0 + j))" if "j < n" for j
    using that by (simp add: find_None_iff)
  from connect_loop_exhausted [of n dial 0 None "[]", OF this] no show ?thesis
    by (cases n) (auto simp: connectWithRetry_def)
next
  case (Some k)
  then have k: "k < n" "is_connected (dial k)" "\<And>j. j < k \<Longrightarrow> \<not> is_connected (dial (0 + j))"
    by (auto simp: find_Some_iff)
  then obtain p where p: "dial (0 + k) = Connected p" by (cases "dial k") auto
  from connect_loop_first [of k n dial 0 p None "[]", OF k(1) p k(3)] k show ?thesis
    by (auto simp: connectWithRetry_def)
qed

fun is_running :: "'p process \<Rightarrow> bool" where
  "is_running (Running s n) = True"
| "is_running _ = False"

text \<open>C28: The start of the operations service ends: it serves exactly if PostgreSQL answers one of
  ten tries, the Redis URL parses, Redis answers one of ten tries and the address can be bound; its
  retry scheduler runs exactly then; and it has paused at most twenty times.\<close>

theorem operations_starts:
  "(is_running (operations_main dial parse ping getenv listen) \<longleftrightarrow>
      (\<exists>k<10. is_connected (dial k)) \<and> parse (getenv ''REDIS_URL'') = None \<and>
      (\<exists>k<10. ping k = None) \<and> listen (CHR '':'' # operations_port (getenv ''PORT'')) = None) \<and>
   (\<forall>s n. operations_main dial parse ping getenv listen = Running s n \<longrightarrow>
      st_loop s = RetryScheduler) \<and>
   pauses (operations_main dial parse ping getenv listen) \<le> 20"
proof -
  let ?b = "connectWithRetry dial 10"
  have b: "connectPGWithRetry dial 10 = ?b" by (simp add: connectPGWithRetry_def connectWithRetry_def)
  note c = connect_outcome [of dial 10]
  obtain r n where p: "pingRedisWithRetry ping 10 = (r, n)" by fastforce
  have n: "n \<le> 10" and r: "r = None \<longleftrightarrow> (\<exists>k<10. ping k = None)"
    using ping_loop_bound [of ping 0 10 None] ping_loop_none [of ping 0 10 None] p
    by (simp_all add: pingRedisWithRetry_def)
  show ?thesis
    using c n r
    by (cases "b_err ?b"; cases "parse (getenv ''REDIS_URL'')"; cases r;
        cases "listen (CHR '':'' # operations_port (getenv ''PORT''))")
      (auto simp: operations_main_def b p serve_http_def Let_def)
qed

theorem operations_starts_witness:
  "is_running (operations_main (\<lambda>k. if k = 3 then Connected ''pool'' else NewFails Unavailable)
     (\<lambda>u. None) (\<lambda>k. if k = 0 then Some Unavailable else None) (\<lambda>v. []) (\<lambda>a. None))"
  unfolding operations_starts [THEN conjunct1]
  by (intro conjI exI [of _ 3] exI [of _ 1]) simp_all

text \<open>The other two services, which need PostgreSQL only.\<close>

lemma access_starts:
  "is_running (access_main dial getenv listen) \<longleftrightarrow>
     (\<exists>k<10. is_connected (dial k)) \<and> listen (CHR '':'' # access_port (getenv ''PORT'')) = None"
  using connect_outcome [of dial 10]
  by (auto simp: access_main_def serve_http_def Let_def split: option.splits)

lemma usage_starts:
  "is_running (usage_main dial getenv listen) \<longleftrightarrow>
     (\<exists>k<10. is_connected (dial k)) \<and> listen (CHR '':'' # usage_port (getenv ''PORT'')) = None"
proof -
  have "usage_connectWithRetry dial 10 = connectWithRetry dial 10"
    by (simp add: usage_connectWithRetry_def connectWithRetry_def)
  then show ?thesis
    using connect_outcome [of dial 10]
    by (auto simp: usage_main_def serve_http_def Let_def split: option.splits)
qed

end
