(* ===== verification/Routes.thy ===== *)
theory Routes
  imports Admission Ownership
begin

text \<open>
  The HTTP surface of the three services: the route tables of their \<open>Routes\<close> functions, and what a
  client gets back. Every answer has the type its route promises, and what it shows is well-formed.
\<close>

section \<open>Requests on the wire\<close>

datatype http_method = GET | POST | PUT | PATCH | DELETE | HEAD | OPTIONS

text \<open>A path is the list of the texts between its slashes, after the first one.\<close>

record http_request =
  hq_method :: http_method
  hq_path :: "string list"
  hq_tenant :: string
  hq_reqid :: string
  hq_idem :: string
  hq_quota :: string
  hq_query :: "string \<Rightarrow> string"   \<comment> \<open>\<open>r.URL.Query().Get\<close>\<close>
  hq_body :: json

text \<open>
  What the driver takes a text for when it is bound to a UUID column, and what \<open>encoding/json\<close> makes
  of a body, for each type that is decoded.
\<close>

record decoders =
  ident :: "string \<Rightarrow> idtext"
  dec_create :: "json \<Rightarrow> createOperationReq option"
  dec_start :: "json \<Rightarrow> startAttemptReq option"
  dec_complete :: "json \<Rightarrow> completeAttemptReq option"
  dec_webhook :: "json \<Rightarrow> createWebhookReq option"
  dec_usage :: "json \<Rightarrow> recordUsageReq option"
  dec_event :: "json \<Rightarrow> dispatchEventReq option"
  dec_tenant :: "json \<Rightarrow> createTenantReq option"
  dec_validate :: "json \<Rightarrow> validateKeyReq option"

definition seen :: "decoders \<Rightarrow> (json \<Rightarrow> 'q option) \<Rightarrow> http_request \<Rightarrow> string \<Rightarrow> 'q request" where
  "seen d dec q param =
     \<lparr>h_tenant = ident d (hq_tenant q), h_reqid = hq_reqid q, h_idem = hq_idem q,
      h_quota = hq_quota q, url_id = ident d param, q_status = hq_query q ''status'',
      q_limit = hq_query q ''limit'', q_offset = hq_query q ''offset'', decoded = dec (hq_body q)\<rparr>"

section \<open>Route tables\<close>

text \<open>
  A pattern is a path in which one text may be a placeholder in braces; it stands for any text up to
  the next slash, at the end of a path for any non-empty one. A table is searched for the method and the path; a path that only other methods have is
  answered with 405, an unknown one with 404. The functions of a table return what the service does
  for the text of the placeholder; \<open>None\<close> is the inline handler of \<open>/healthz\<close>.
\<close>

datatype seg = Lit string | Param

fun matches :: "seg list \<Rightarrow> string list \<Rightarrow> string \<Rightarrow> string option" where
  "matches [] [] param = Some param"
| "matches (Lit s # ps) (t # ts) param = (if s = t then matches ps ts param else None)"
| "matches (Param # ps) (t # ts) param = (if t = [] \<and> ts = [] then None else matches ps ts t)"
| "matches _ _ _ = None"

type_synonym 'a route = "http_method \<times> seg list \<times> (string \<Rightarrow> 'a option)"

datatype 'a routed = Api 'a | Healthy | MethodNotAllowed | NotFound

fun lookup :: "'a route list \<Rightarrow> http_method \<Rightarrow> string list \<Rightarrow> bool \<Rightarrow> 'a routed" where
  "lookup [] m path other = (if other then MethodNotAllowed else NotFound)"
| "lookup ((m', pat, f) # rs) m path other =
     (case matches pat path [] of
        None \<Rightarrow> lookup rs m path other
      | Some param \<Rightarrow>
          if m' = m then (case f param of None \<Rightarrow> Healthy | Some a \<Rightarrow> Api a)
          else lookup rs m path True)"

definition operations_routes :: "decoders \<Rightarrow> http_request \<Rightarrow> operations_api route list" where
  "operations_routes d q =
     (let v1 = Lit ''v1''; internal = Lit ''internal''; ops = Lit ''operations'';
          plain = seen d (\<lambda>_. None) q
      in
      [(POST, [v1, ops], \<lambda>s. Some (PostOperations (seen d (dec_create d) q s))),
       (GET, [v1, ops], \<lambda>s. Some (GetOperations (plain s))),
       (GET, [v1, ops, Param], \<lambda>s. Some (GetOperationById (plain s))),
       (POST, [v1, ops, Param, Lit ''cancel''], \<lambda>s. Some (PostCancel (plain s))),
       (POST, [internal, ops, Param, Lit ''attempts'', Lit ''start''],
          \<lambda>s. Some (PostAttemptStart (seen d (dec_start d) q s))),
       (POST, [internal, ops, Param, Lit ''attempts'', Lit ''complete''],
          \<lambda>s. Some (PostAttemptComplete (seen d (dec_complete d) q s))),
       (GET, [internal, ops, Param], \<lambda>s. Some (GetInternalOperation (plain s))),
       (GET, [internal, ops, Param, Lit ''attempts''], \<lambda>s. Some (GetAttempts (plain s))),
       (GET, [internal, ops], \<lambda>s. Some (GetInternalOperations (plain s))),
       (GET, [internal, Lit ''summary''], \<lambda>s. Some (GetSummary (plain s))),
       (GET, [Lit ''healthz''], \<lambda>s. None)])"

definition usage_routes :: "decoders \<Rightarrow> http_request \<Rightarrow> usage_api route list" where
  "usage_routes d q =
     (let v1 = Lit ''v1''; internal = Lit ''internal''; plain = seen d (\<lambda>_. None) q
      in
      [(GET, [v1, Lit ''usage''], \<lambda>s. Some (GetUsage (plain s))),
       (POST, [v1, Lit ''webhooks''], \<lambda>s. Some (PostWebhooks (seen d (dec_webhook d) q s))),
       (GET, [v1, Lit ''webhooks''], \<lambda>s. Some (GetWebhooks (plain s))),
       (POST, [internal, Lit ''usage'', Lit ''record''],
          \<lambda>s. Some (PostUsageRecord (seen d (dec_usage d) q s))),
       (POST, [internal, Lit ''webhooks'', Lit ''dispatch''],
          \<lambda>s. Some (PostWebhooksDispatch (seen d (dec_event d) q s))),
       (GET, [internal, Lit ''usage'', Lit ''consumption'', Param],
          \<lambda>s. Some (GetConsumption (plain s))),
       (GET, [Lit ''healthz''], \<lambda>s. None)])"

definition access_routes :: "decoders \<Rightarrow> http_request \<Rightarrow> access_api route list" where
  "access_routes d q =
     (let internal = Lit ''internal''; tns = Lit ''tenants''; keys = Lit ''api-keys'';
          plain = seen d (\<lambda>_. None) q
      in
      [(POST, [internal, tns], \<lambda>s. Some (PostTenants (seen d (dec_tenant d) q s))),
       (GET, [internal, tns], \<lambda>s. Some (GetTenants (plain s))),
       (GET, [internal, tns, Param], \<lambda>s. Some (GetTenantById (plain s))),
       (POST, [internal, tns, Param, keys], \<lambda>s. Some (PostApiKeys (plain s))),
       (GET, [internal, tns, Param, keys], \<lambda>s. Some (GetApiKeys (plain s))),
       (DELETE, [internal, keys, Param], \<lambda>s. Some (DeleteApiKey (plain s))),
       (POST, [internal, Lit ''auth'', Lit ''validate''],
          \<lambda>s. Some (PostAuthValidate (seen d (dec_validate d) q s))),
       (GET, [Lit ''healthz''], \<lambda>s. None)])"

text \<open>No path has two routes for one method, so the order of a table does not matter.\<close>

fun overlap :: "seg list \<Rightarrow> seg list \<Rightarrow> bool" where
  "overlap [] [] = True"
| "overlap (Lit s # ps) (Lit t # qs) = (s = t \<and> overlap ps qs)"
| "overlap (_ # ps) (_ # qs) = overlap ps qs"
| "overlap _ _ = False"

lemma matches_overlap:
  "matches ps path a = Some x \<Longrightarrow> matches qs path b = Some y \<Longrightarrow> overlap ps qs"
  by (induction ps qs arbitrary: path a b rule: overlap.induct; cases path)
    (auto split: if_splits elim: matches.elims)

fun disjoint :: "(http_method \<times> seg list) list \<Rightarrow> bool" where
  "disjoint [] = True"
| "disjoint ((m, p) # rs) = ((\<forall>(m', p')\<in>set rs. m' = m \<longrightarrow> \<not> overlap p p') \<and> disjoint rs)"

section \<open>Answers\<close>

fun answer_operations ::
    "ext \<Rightarrow> operations_api \<Rightarrow> platform world \<Rightarrow> ops_body response \<times> platform world" where
  "answer_operations x (PostOperations r) w = createOperation (x_jsonb x) (x_job x) r w"
| "answer_operations x (GetOperations r) w = listOperations r w"
| "answer_operations x (GetOperationById r) w = getOperation r w"
| "answer_operations x (PostCancel r) w = cancelOperation r w"
| "answer_operations x (PostAttemptStart r) w = startAttempt r w"
| "answer_operations x (PostAttemptComplete r) w =
     (case completeAttempt (x_jsonb x) (x_job x) r w of ((resp, tasks), w1) \<Rightarrow> (resp, w1))"
| "answer_operations x (GetInternalOperation r) w = adminGetOperation r w"
| "answer_operations x (GetAttempts r) w = listAttempts r w"
| "answer_operations x (GetInternalOperations r) w = adminListOperations r w"
| "answer_operations x (GetSummary r) w = adminSummary r w"

fun answer_usage ::
    "ext \<Rightarrow> usage_api \<Rightarrow> platform world \<Rightarrow> usage_body response \<times> platform world" where
  "answer_usage x (GetUsage r) w = getUsage (x_month x) r w"
| "answer_usage x (PostWebhooks r) w = createWebhook r w"
| "answer_usage x (GetWebhooks r) w = listWebhooks r w"
| "answer_usage x (PostUsageRecord r) w = recordUsage r w"
| "answer_usage x (PostWebhooksDispatch r) w =
     (case dispatchEvent (x_jsonb x) (x_event x) (x_url x) r w of ((resp, reqs), w1) \<Rightarrow> (resp, w1))"
| "answer_usage x (GetConsumption r) w = getConsumption (x_month x) r w"

fun answer_access ::
    "ext \<Rightarrow> access_api \<Rightarrow> platform world \<Rightarrow> access_body response \<times> platform world" where
  "answer_access x (PostTenants r) w = createTenant r w"
| "answer_access x (GetTenants r) w = listTenants r w"
| "answer_access x (GetTenantById r) w = getTenant r w"
| "answer_access x (PostApiKeys r) w = createAPIKey (x_secret x) r w"
| "answer_access x (GetApiKeys r) w = listAPIKeys r w"
| "answer_access x (DeleteApiKey r) w = revokeAPIKey r w"
| "answer_access x (PostAuthValidate r) w = validateKey (x_secret x) r w"

lemma answer_serve:
  "snd (answer_operations x a w) = serve_operations x a w"
  "snd (answer_usage x b w) = serve_usage x b w"
  "snd (answer_access x c w) = serve_access x c w"
  by ((cases a; simp add: case_prod_beta), (cases b; simp add: case_prod_beta), (cases c; simp))

definition respond ::
    "('a \<Rightarrow> platform world \<Rightarrow> 'b response \<times> platform world) \<Rightarrow> 'a routed \<Rightarrow> platform world \<Rightarrow>
     'b response \<times> platform world" where
  "respond answer r w =
     (case r of
        Api a \<Rightarrow> answer a w
      | Healthy \<Rightarrow> (WriteHeader 200, w)
      | MethodNotAllowed \<Rightarrow> (WriteHeader 405, w)
      | NotFound \<Rightarrow> (WriteHeader 404, w))"

definition operations_server ::
    "ext \<Rightarrow> decoders \<Rightarrow> http_request \<Rightarrow> platform world \<Rightarrow> ops_body response \<times> platform world" where
  "operations_server x d q w =
     respond (answer_operations x) (lookup (operations_routes d q) (hq_method q) (hq_path q) False) w"

definition usage_server ::
    "ext \<Rightarrow> decoders \<Rightarrow> http_request \<Rightarrow> platform world \<Rightarrow> usage_body response \<times> platform world" where
  "usage_server x d q w =
     respond (answer_usage x) (lookup (usage_routes d q) (hq_method q) (hq_path q) False) w"

definition access_server ::
    "ext \<Rightarrow> decoders \<Rightarrow> http_request \<Rightarrow> platform world \<Rightarrow> access_body response \<times> platform world" where
  "access_server x d q w =
     respond (answer_access x) (lookup (access_routes d q) (hq_method q) (hq_path q) False) w"

section \<open>What the answers hold\<close>

text \<open>An error is an RFC 7807 problem: its status is that of the response, its id the request's.\<close>

definition is_problem :: "string \<Rightarrow> int list \<Rightarrow> 'b response \<Rightarrow> bool" where
  "is_problem rid codes resp \<longleftrightarrow>
     (\<exists>code\<in>set codes. \<exists>title det. resp = WriteError code title det rid)"

lemma is_problem_WriteError [simp]:
  "is_problem rid codes (WriteError code title det rid) \<longleftrightarrow> code \<in> set codes"
  by (auto simp: is_problem_def response_defs)

text \<open>The type of each route: the statuses of its problems, and what else it may answer.\<close>

fun operations_typed :: "operations_api \<Rightarrow> ops_body response \<Rightarrow> bool" where
  "operations_typed (PostOperations r) resp \<longleftrightarrow>
     is_problem (h_reqid r) [400, 401, 500] resp \<or>
     (\<exists>op. op_wf op \<and> h_tenant r = UuidText (op_TenantID op) \<and>
        (resp = WriteJSON 200 (OperationBody op) \<or>
         op_Status op = StatusQueued \<and> resp = WriteJSON 202 (OperationBody op)))"
| "operations_typed (GetOperations r) resp \<longleftrightarrow>
     is_problem (h_reqid r) [500] resp \<or>
     (\<exists>ops l off. (\<forall>op\<in>set ops. op_wf op) \<and> 1 \<le> l \<and> l \<le> 100 \<and> int (length ops) \<le> l \<and>
        resp = WriteJSON 200 (OperationsPage ops l off))"
| "operations_typed (GetOperationById r) resp \<longleftrightarrow>
     is_problem (h_reqid r) [404] resp \<or>
     (\<exists>op. op_wf op \<and> resp = WriteJSON 200 (OperationBody op))"
| "operations_typed (PostCancel r) resp \<longleftrightarrow>
     is_problem (h_reqid r) [409] resp \<or> resp = WriteHeader 204"
| "operations_typed (PostAttemptStart r) resp \<longleftrightarrow>
     is_problem (h_reqid r) [400, 500] resp \<or> (\<exists>a. resp = WriteJSON 200 (AttemptIdBody a))"
| "operations_typed (PostAttemptComplete r) resp \<longleftrightarrow>
     is_problem (h_reqid r) [400, 404, 500] resp \<or>
     (\<exists>s. s \<in> {StatusSucceeded, StatusRetrying, StatusFailed, StatusDeadLettered} \<and>
        resp = WriteJSON 200 (StatusBody s))"
| "operations_typed (GetInternalOperation r) resp \<longleftrightarrow>
     is_problem (h_reqid r) [404] resp \<or>
     (\<exists>op. op_wf op \<and> resp = WriteJSON 200 (OperationBody op))"
| "operations_typed (GetAttempts r) resp \<longleftrightarrow>
     is_problem (h_reqid r) [500] resp \<or>
     (\<exists>as now. (\<forall>a\<in>set as. attempt_wf now a \<and> url_id r = UuidText (at_OperationID a)) \<and>
        sorted (map at_AttemptNumber as) \<and> resp = WriteJSON 200 (AttemptsBody as))"
| "operations_typed (GetInternalOperations r) resp \<longleftrightarrow>
     is_problem (h_reqid r) [500] resp \<or>
     (\<exists>ops. (\<forall>op\<in>set ops. op_wf op) \<and> length ops \<le> 200 \<and>
        resp = WriteJSON 200 (OperationsBody ops))"
| "operations_typed (GetSummary r) resp \<longleftrightarrow>
     is_problem (h_reqid r) [500] resp \<or>
     (\<exists>m. dom m \<subseteq> set all_statuses \<and> 0 \<notin> ran m \<and> resp = WriteJSON 200 (SummaryBody m))"

fun usage_typed :: "usage_api \<Rightarrow> usage_body response \<Rightarrow> bool" where
  "usage_typed (GetUsage r) resp \<longleftrightarrow>
     is_problem (h_reqid r) [500] resp \<or>
     (\<exists>s. 0 \<le> su_QuotaRemaining s \<and> su_MonthlyQuota s = quota_of_header (h_quota r) \<and>
        resp = WriteJSON 200 (SummaryOf s))"
| "usage_typed (PostWebhooks r) resp \<longleftrightarrow>
     is_problem (h_reqid r) [400, 500] resp \<or>
     (\<exists>e secret. h_tenant r = UuidText (we_TenantID e) \<and> we_IsActive e \<and> length secret = 64 \<and>
        resp = WriteJSON 201 (WebhookCreated e secret))"
| "usage_typed (GetWebhooks r) resp \<longleftrightarrow>
     is_problem (h_reqid r) [500] resp \<or>
     (\<exists>es. (\<forall>e\<in>set es. h_tenant r = UuidText (we_TenantID e)) \<and>
        resp = WriteJSON 200 (WebhooksBody es))"
| "usage_typed (PostUsageRecord r) resp \<longleftrightarrow>
     is_problem (h_reqid r) [400, 500] resp \<or> resp = WriteHeader 204"
| "usage_typed (PostWebhooksDispatch r) resp \<longleftrightarrow>
     is_problem (h_reqid r) [400, 500] resp \<or> resp = WriteHeader 202"
| "usage_typed (GetConsumption r) resp \<longleftrightarrow>
     is_problem (h_reqid r) [500] resp \<or> (\<exists>n. resp = WriteJSON 200 (UnitsConsumedBody n))"

fun access_typed :: "access_api \<Rightarrow> access_body response \<Rightarrow> bool" where
  "access_typed (PostTenants r) resp \<longleftrightarrow>
     is_problem (h_reqid r) [400, 422, 500] resp \<or>
     (\<exists>t. tn_Name t \<noteq> [] \<and> resp = WriteJSON 201 (TenantBody t))"
| "access_typed (GetTenants r) resp \<longleftrightarrow>
     is_problem (h_reqid r) [500] resp \<or> (\<exists>ts. resp = WriteJSON 200 (TenantsBody ts))"
| "access_typed (GetTenantById r) resp \<longleftrightarrow>
     is_problem (h_reqid r) [404] resp \<or>
     (\<exists>t. url_id r = UuidText (tn_ID t) \<and> resp = WriteJSON 200 (TenantBody t))"
| "access_typed (PostApiKeys r) resp \<longleftrightarrow>
     is_problem (h_reqid r) [500] resp \<or>
     (\<exists>k raw. url_id r = UuidText (ak_TenantID k) \<and> ak_Status k = key_active \<and>
        ak_RevokedAt k = None \<and> ak_KeyPrefix k = take 16 raw \<and>
        resp = WriteJSON 201 (KeyCreated k raw))"
| "access_typed (GetApiKeys r) resp \<longleftrightarrow>
     is_problem (h_reqid r) [500] resp \<or>
     (\<exists>ks. (\<forall>k\<in>set ks. url_id r = UuidText (ak_TenantID k) \<and>
          (ak_RevokedAt k \<noteq> None \<longleftrightarrow> ak_Status k = key_revoked)) \<and>
        resp = WriteJSON 200 (KeysBody ks))"
| "access_typed (DeleteApiKey r) resp \<longleftrightarrow>
     is_problem (h_reqid r) [404] resp \<or> resp = WriteHeader 204"
| "access_typed (PostAuthValidate r) resp \<longleftrightarrow>
     is_problem (h_reqid r) [400, 401] resp \<or> (\<exists>v. resp = WriteJSON 200 (ValidatedBody v))"

section \<open>Well-typed answers\<close>

text \<open>What a call returns, it found in a reachable state.\<close>

lemma reachable_run: "reachable p \<Longrightarrow> platform_step\<^sup>*\<^sup>* p q \<Longrightarrow> reachable q"
  by (simp add: reachable_def)

lemma call_reachable:
  assumes "call f w = (Inr v, w1)" and "tame platform_step w" and "reachable (store w)"
  obtains u p where "reachable p" and "f u p = (Inr v, store w1)"
proof (rule call_result [OF assms(2,1)])
  fix u p
  assume "platform_step\<^sup>*\<^sup>* (store w) p" "f u p = (Inr v, store w1)"
  then show thesis using that reachable_run [OF assms(3)] by blast
qed simp

lemma row_wf: "reachable p \<Longrightarrow> op \<in> set (operations p) \<Longrightarrow> op_wf op"
  using ops.at_reachable by (auto simp: operations_ok_def)

lemma GetOperation_wf:
  assumes "GetOperation t i w = (Inr op, w1)" and "tame platform_step w" and "reachable (store w)"
  shows "op_wf op"
proof -
  have "call (select_operation t i) w = (Inr op, w1)"
    using assms(1) by (auto simp: GetOperation_def split: prod.splits)
  then obtain u p where "reachable p" "select_operation t i u p = (Inr op, store w1)"
    using call_reachable assms(2,3) by metis
  then show ?thesis
    by (auto simp: select_operation_def with_uuid_def reading_def row_wf dest: first_row_Inr
        split: idtext.splits)
qed

lemma GetOperationAnyTenant_wf:
  assumes "GetOperationAnyTenant i w = (Inr op, w1)" and "tame platform_step w"
    and "reachable (store w)"
  shows "op_wf op"
proof -
  have "call (select_operation_any i) w = (Inr op, w1)"
    using assms(1) by (auto simp: GetOperationAnyTenant_def split: prod.splits)
  then obtain u p where "reachable p" "select_operation_any i u p = (Inr op, store w1)"
    using call_reachable assms(2,3) by metis
  then show ?thesis
    by (auto simp: select_operation_any_def with_uuid_def reading_def row_wf dest: first_row_Inr
        split: idtext.splits)
qed

lemma ListOperations_wf:
  assumes "ListOperations f w = (Inr os, w1)" and "tame platform_step w" and "reachable (store w)"
  shows "(\<forall>op\<in>set os. op_wf op) \<and> length os \<le> nat (lf_Limit f)"
proof -
  obtain u p where p: "reachable p" and r: "with_uuid (lf_TenantID f) (\<lambda>t. reading (\<lambda>p.
      page (lf_Limit f) (lf_Offset f) (listed t (lf_Status f) p))) u p = (Inr os, store w1)"
    using assms(1) unfolding ListOperations_def listed_def
    by (rule call_reachable) (use assms in auto)
  then obtain t where "page (lf_Limit f) (lf_Offset f) (listed t (lf_Status f) p) = Inr os"
    by (auto simp: with_uuid_def reading_def split: idtext.splits)
  from page_Inr [OF this] show ?thesis using row_wf [OF p] by (auto simp: listed_def)
qed

lemma ListOperationsAnyTenant_wf:
  assumes "ListOperationsAnyTenant f w = (Inr os, w1)" and "tame platform_step w"
    and "reachable (store w)"
  shows "(\<forall>op\<in>set os. op_wf op) \<and> length os \<le> nat (af_Limit f)"
proof -
  obtain u p where p: "reachable p" and "reading (\<lambda>p. page (af_Limit f) (af_Offset f)
      (filter (\<lambda>r. af_Status f = [] \<or> op_Status r = af_Status f) (operations p))) u p =
      (Inr os, store w1)"
    using assms(1) unfolding ListOperationsAnyTenant_def
    by (rule call_reachable) (use assms in auto)
  then have "page (af_Limit f) (af_Offset f)
      (filter (\<lambda>r. af_Status f = [] \<or> op_Status r = af_Status f) (operations p)) = Inr os"
    by (auto simp: reading_def)
  from page_Inr [OF this] show ?thesis using row_wf [OF p] by auto
qed

lemma ListAttempts_wf:
  assumes "ListAttempts i w = (Inr as, w1)" and "tame platform_step w" and "reachable (store w)"
  shows "\<exists>now. \<forall>a\<in>set as. attempt_wf now a \<and> i = UuidText (at_OperationID a)"
    and "sorted (map at_AttemptNumber as)"
proof -
  obtain u p where p: "reachable p" and r: "with_uuid i (\<lambda>i. reading (\<lambda>p.
       Inr (sort_key at_AttemptNumber
              (filter (\<lambda>r. at_OperationID r = i) (operation_attempts p))))) u p = (Inr as, store w1)"
    using assms(1) unfolding ListAttempts_def
    by (rule call_reachable) (use assms in auto)
  then obtain j where j: "i = UuidText j" "as = sort_key at_AttemptNumber
              (filter (\<lambda>r. at_OperationID r = j) (operation_attempts p))"
    by (auto simp: with_uuid_def reading_def split: idtext.splits)
  have "\<forall>a\<in>set as. attempt_wf (pg_now p) a \<and> i = UuidText (at_OperationID a)"
    using attempts.at_reachable [OF p] by (simp add: j attempts_ok_def)
  then show "\<exists>now. \<forall>a\<in>set as. attempt_wf now a \<and> i = UuidText (at_OperationID a)" ..
  show "sorted (map at_AttemptNumber as)" by (simp add: j)
qed

lemma PlatformSummary_wf:
  assumes "PlatformSummary w = (Inr m, w1)" and "tame platform_step w" and "reachable (store w)"
  shows "dom m \<subseteq> set all_statuses \<and> 0 \<notin> ran m"
proof -
  obtain u p where p: "reachable p"
    and r: "reading (\<lambda>p. Inr (count_status (operations p))) u p = (Inr m, store w1)"
    using assms(1) unfolding PlatformSummary_def
    by (rule call_reachable) (use assms in auto)
  then have m: "m = count_status (operations p)" by (auto simp: reading_def)
  have "s \<in> set all_statuses" if "m s = Some n" for s n
  proof -
    have "filter (\<lambda>r. op_Status r = s) (operations p) \<noteq> []"
      using that by (auto simp: m count_status_def Let_def split: if_splits)
    then obtain r where "r \<in> set (operations p)" "op_Status r = s" by (auto simp: filter_empty_conv)
    then show ?thesis using row_wf [OF p] by (auto simp: op_wf_def)
  qed
  moreover have "m s \<noteq> Some 0" for s by (simp add: m count_status_def Let_def)
  ultimately show ?thesis by (auto simp: ran_def)
qed

lemma created_wf:
  assumes "CreateOperation jb t ty inp k n w = (Inr (op, existed), w1)"
    and "tame platform_step w" and "reachable (store w)"
  shows "op_wf op \<and> t = UuidText (op_TenantID op) \<and>
    (\<not> existed \<longrightarrow> op_wf (op\<lparr>op_Status := StatusQueued\<rparr>))"
proof -
  have m: "moves platform_step w w1"
    using full.CreateOperation_moves [OF assms(2), of jb t ty inp k n] by (simp add: assms(1))
  note row = full.CreateOperation_row [OF assms(2,1)]
  have "op_wf op" using row reachable_moves [OF assms(3) m] row_wf by blast
  moreover have "op_wf (op\<lparr>op_Status := StatusQueued\<rparr>)" if "\<not> existed"
    using assms(2,1)
  proof (cases rule: full.CreateOperation_cases)
    case (found key v)
    then show ?thesis using that by simp
  next
    case (inserted v)
    have tv: "tame platform_step v" using moves_tame [OF inserted(2) assms(2)] .
    obtain u p where "insert_operation jb t k ty inp n u p = (Inr op, store w1)"
      by (rule call_result [OF tv inserted(3)]) auto
    then show ?thesis
      by (auto simp: insert_operation_def with_uuid_def Let_def op_wf_def all_statuses_def
          status_defs IsTerminal_iff split: idtext.splits option.splits if_splits)
  qed
  ultimately show ?thesis using row by blast
qed

lemma admin_limit_bounds: "1 \<le> admin_limit q \<and> admin_limit q \<le> 200"
  by (auto simp: admin_limit_def Let_def)

lemma createOperation_typed:
  assumes "tame platform_step w" and "reachable (store w)"
  shows "operations_typed (PostOperations r) (fst (createOperation jb enc r w))"
proof (cases "h_tenant r = EmptyText \<or> decoded r = None \<or> cr_OpType (the (decoded r)) = []")
  case True
  then show ?thesis by (auto simp: createOperation_def Let_def split: option.splits)
next
  case False
  then obtain req where req: "h_tenant r \<noteq> EmptyText" "decoded r = Some req" "cr_OpType req \<noteq> []"
    by auto
  define idem where "idem = (if h_idem r \<noteq> [] then Some (h_idem r) else None)"
  obtain c w1 where c:
    "CreateOperation jb (h_tenant r) (cr_OpType req) (cr_Input req) idem 3 w = (c, w1)"
    by fastforce
  show ?thesis
  proof (cases c)
    case (Inl e)
    then show ?thesis using req c by (simp add: createOperation_def Let_def idem_def)
  next
    case (Inr res)
    obtain op existed where res: "res = (op, existed)" by fastforce
    note wf = created_wf [OF c [unfolded Inr res] assms]
    define j where "j = \<lparr>j_OperationID = op_ID op, j_TenantID = h_tenant r,
      j_OpType = op_OpType op, j_Attempt = 0, j_EnqueuedAt = clock (store w1)\<rparr>"
    obtain e w2 where e: "Enqueue enc j w1 = (e, w2)" by fastforce
    obtain q w3 where q: "TransitionToQueued (UuidText (op_ID op)) w2 = (q, w3)" by fastforce
    show ?thesis
      using req c Inr res e q wf
      by (cases existed; cases e; cases q)
        (auto simp: createOperation_def Let_def idem_def j_def)
  qed
qed

lemma completeAttempt_typed:
  "operations_typed (PostAttemptComplete r) (fst (fst (completeAttempt jb enc r w)))"
proof (cases "decoded r")
  case None
  then show ?thesis by (simp add: completeAttempt_def)
next
  case (Some req)
  obtain g w1 where g: "GetOperationAnyTenant (url_id r) w = (g, w1)" by fastforce
  define w2 where "w2 op = snd (DecrConcurrency (op_TenantID op) w1)" for op :: operation
  obtain s w3 where s: "CompleteAttemptSuccess jb (url_id r) (ca_AttemptID req) (ca_Output req)
      (ca_Provider req) (ca_LatencyMs req) (w2 (projr g)) = (s, w3)" by fastforce
  obtain f w4 where f: "CompleteAttemptFailure (url_id r) (ca_AttemptID req) (ca_ErrorCategory req)
      (ca_ErrorDetail req) (will_retry req (projr g)) (w2 (projr g)) = (f, w4)" by fastforce
  have nxt: "st = next_status (ca_ErrorCategory req) (will_retry req (projr g))" if "f = Inr st" for st
  proof -
    have "call (failure_tx (url_id r) (ca_AttemptID req) (ca_ErrorCategory req)
        (ca_ErrorDetail req) (will_retry req (projr g))) (w2 (projr g)) = (Inr st, w4)"
      using f that by (simp add: CompleteAttemptFailure_def)
    then obtain u p where "failure_tx (url_id r) (ca_AttemptID req) (ca_ErrorCategory req)
        (ca_ErrorDetail req) (will_retry req (projr g)) u p = (Inr st, store w4)"
      by (rule call_from) simp
    then show ?thesis
      by (auto simp: failure_tx_def with_uuid_def Let_def split: idtext.splits)
  qed
  have "next_status cat b \<in> {StatusSucceeded, StatusRetrying, StatusFailed, StatusDeadLettered}"
    for cat b by (simp add: next_status_def)
  then show ?thesis
    using Some g s f nxt
    by (cases g; cases s; cases f)
      (auto simp: completeAttempt_def complete_failed_def Let_def w2_def split: sum.splits prod.splits)
qed

lemma operations_answers:
  assumes "tame platform_step w" and "reachable (store w)"
  shows "operations_typed a (fst (answer_operations x a w))"
proof (cases a)
  case (PostOperations r)
  then show ?thesis
    using createOperation_typed [OF assms] by (simp only: answer_operations.simps)
next
  case (GetOperations r)
  then show ?thesis
    using ListOperations_wf [OF _ assms, of "\<lparr>lf_TenantID = h_tenant r, lf_Status = q_status r,
        lf_Limit = list_limit (q_limit r), lf_Offset = atoi (q_offset r)\<rparr>"]
      list_limit_bounds [of "q_limit r"]
    by (auto simp: listOperations_def Let_def le_nat_iff split: sum.splits prod.splits)
next
  case (GetOperationById r)
  then show ?thesis
    using GetOperation_wf [OF _ assms]
    by (auto simp: getOperation_def split: sum.splits prod.splits)
next
  case (PostCancel r)
  then show ?thesis by (auto simp: cancelOperation_def split: sum.splits prod.splits)
next
  case (PostAttemptStart r)
  then show ?thesis
    by (auto simp: startAttempt_def split: option.splits sum.splits prod.splits)
next
  case (PostAttemptComplete r)
  then show ?thesis
    using completeAttempt_typed [of r "x_jsonb x" "x_job x" w]
    by (simp only: answer_operations.simps case_prod_beta fst_conv)
next
  case (GetInternalOperation r)
  then show ?thesis
    using GetOperationAnyTenant_wf [OF _ assms]
    by (auto simp: adminGetOperation_def split: sum.splits prod.splits)
next
  case (GetAttempts r)
  then show ?thesis
    using ListAttempts_wf [OF _ assms]
    by (auto simp: listAttempts_def split: sum.splits prod.splits)
next
  case (GetInternalOperations r)
  then show ?thesis
    using ListOperationsAnyTenant_wf [OF _ assms, of "\<lparr>af_Status = q_status r,
        af_Limit = admin_limit (q_limit r), af_Offset = atoi (q_offset r)\<rparr>"]
      admin_limit_bounds [of "q_limit r"]
    by (fastforce simp: adminListOperations_def Let_def le_nat_iff split: sum.splits prod.splits)
next
  case (GetSummary r)
  then show ?thesis
    using PlatformSummary_wf [OF _ assms]
    by (auto simp: adminSummary_def split: sum.splits prod.splits)
qed

lemma summary_typed:
  assumes "GetUsageSummary month t quota w = (Inr s, w1)"
  shows "0 \<le> su_QuotaRemaining s \<and> su_MonthlyQuota s = quota"
  using assms by (auto simp: GetUsageSummary_def Let_def split: sum.splits prod.splits)

lemma webhook_typed:
  assumes "CreateWebhookEndpoint t url w = (Inr (e, secret), w1)"
  shows "t = UuidText (we_TenantID e) \<and> we_IsActive e \<and> length secret = 64"
proof -
  obtain bs v where b: "rand_read 32 w = (Inr bs, v)"
    and c: "call (endpoint_stmt t url (hex_encode bs)) v = (Inr e, w1)" and s: "secret = hex_encode bs"
    using assms by (auto simp: CreateWebhookEndpoint_def Let_def split: sum.splits prod.splits)
  obtain u p where "endpoint_stmt t url (hex_encode bs) u p = (Inr e, store w1)"
    using c by (rule call_from) simp
  moreover have "length bs = 32" using b by (auto simp: rand_read_def Let_def split: if_splits)
  ultimately show ?thesis
    by (auto simp: endpoint_stmt_def with_uuid_def Let_def webhook_endpoint.truncate_def s
        split: idtext.splits if_splits)
qed

lemma webhooks_typed:
  assumes "ListWebhookEndpoints t w = (Inr es, w1)"
  shows "\<forall>e\<in>set es. t = UuidText (we_TenantID e)"
proof -
  obtain u p where "with_uuid t (\<lambda>t. reading (\<lambda>p.
       Inr (map webhook_endpoint.truncate
              (order_desc we_CreatedAt (filter (\<lambda>r. we_TenantID r = t) (webhook_endpoints p)))))) u p =
      (Inr es, store w1)"
    using assms unfolding ListWebhookEndpoints_def by (rule call_from) simp
  then show ?thesis
    by (auto simp: with_uuid_def reading_def webhook_endpoint.truncate_def split: idtext.splits)
qed

lemma usage_answers: "usage_typed a (fst (answer_usage x a w))"
proof (cases a)
  case (GetUsage r)
  then show ?thesis
    using summary_typed [of "x_month x" "h_tenant r" "quota_of_header (h_quota r)" w]
    by (auto simp: getUsage_def Let_def split: sum.splits prod.splits)
next
  case (PostWebhooks r)
  then show ?thesis
    using webhook_typed [of "h_tenant r" _ w]
    by (auto simp: createWebhook_def Let_def split: option.splits sum.splits prod.splits)
next
  case (GetWebhooks r)
  then show ?thesis
    using webhooks_typed [of "h_tenant r" w]
    by (auto simp: listWebhooks_def split: sum.splits prod.splits)
next
  case (PostUsageRecord r)
  then show ?thesis by (auto simp: recordUsage_def split: option.splits sum.splits prod.splits)
next
  case (PostWebhooksDispatch r)
  then show ?thesis by (auto simp: dispatchEvent_def split: option.splits sum.splits prod.splits)
next
  case (GetConsumption r)
  then show ?thesis by (auto simp: getConsumption_def split: sum.splits prod.splits)
qed

lemma tenant_typed:
  assumes "GetTenant i w = (Inr t, w1)"
  shows "i = UuidText (tn_ID t)"
proof -
  obtain u p where "with_uuid i (\<lambda>t. reading (\<lambda>p. first_row (\<lambda>r. tn_ID r = t) (tenants p))) u p =
      (Inr t, store w1)"
    using assms unfolding GetTenant_def by (rule call_from) simp
  then show ?thesis
    by (auto simp: with_uuid_def reading_def dest: first_row_Inr split: idtext.splits)
qed

lemma new_tenant_typed:
  assumes "CreateTenant nm tier rl q mc w = (Inr t, w1)"
  shows "tn_Name t = nm"
proof -
  have "call (tenant_stmt nm tier rl q mc) w = (Inr t, w1)"
    using assms by (auto simp: CreateTenant_def split: sum.splits prod.splits)
  then obtain u p where "tenant_stmt nm tier rl q mc u p = (Inr t, store w1)"
    by (rule call_from) simp
  then show ?thesis by (auto simp: tenant_stmt_def Let_def split: if_splits)
qed

lemma new_key_typed:
  assumes "CreateAPIKey i pre hash w = (Inr k, w1)"
  shows "i = UuidText (ak_TenantID k) \<and> ak_Status k = key_active \<and> ak_RevokedAt k = None \<and>
    ak_KeyPrefix k = pre"
proof -
  have "call (api_key_stmt i pre hash) w = (Inr k, w1)"
    using assms by (auto simp: CreateAPIKey_def split: sum.splits prod.splits)
  then obtain u p where "api_key_stmt i pre hash u p = (Inr k, store w1)"
    by (rule call_from) simp
  then show ?thesis
    by (auto simp: api_key_stmt_def with_uuid_def Let_def api_key.truncate_def
        split: idtext.splits if_splits)
qed

lemma keys_typed:
  assumes "ListAPIKeys i w = (Inr ks, w1)" and "tame platform_step w" and "reachable (store w)"
  shows "\<forall>k\<in>set ks. i = UuidText (ak_TenantID k) \<and>
    (ak_RevokedAt k \<noteq> None \<longleftrightarrow> ak_Status k = key_revoked)"
proof -
  obtain u p where p: "reachable p" and "with_uuid i (\<lambda>t. reading (\<lambda>p.
       Inr (map api_key.truncate
              (order_desc ak_CreatedAt (filter (\<lambda>r. ak_TenantID r = t) (api_keys p)))))) u p =
      (Inr ks, store w1)"
    using assms(1) unfolding ListAPIKeys_def by (rule call_reachable) (use assms in auto)
  then show ?thesis
    using records.at_reachable [OF p]
    by (auto simp: with_uuid_def reading_def api_key.truncate_def records_ok_def key_wf_def
        split: idtext.splits)
qed

lemma raw_key_prefix:
  assumes "GenerateRawKey w = (Inr (raw, pre), w1)"
  shows "pre = take 16 raw"
  using assms by (auto simp: GenerateRawKey_def Let_def split: sum.splits prod.splits)

lemma access_answers:
  assumes "tame platform_step w" and "reachable (store w)"
  shows "access_typed a (fst (answer_access x a w))"
proof (cases a)
  case (PostTenants r)
  show ?thesis
  proof (cases "decoded r = None \<or> ct_Name (the (decoded r)) = []")
    case True
    then show ?thesis by (auto simp: PostTenants createTenant_def split: option.splits)
  next
    case False
    then obtain req where req: "decoded r = Some req" "ct_Name req \<noteq> []" by auto
    define tier rate quota ops where "tier = (if ct_Tier req = [] then ''standard'' else ct_Tier req)"
      and "rate = (if ct_RateLimitRPM req = 0 then 100 else ct_RateLimitRPM req)"
      and "quota = (if ct_MonthlyQuota req = 0 then 100000 else ct_MonthlyQuota req)"
      and "ops = (if ct_MaxConcurrentOps req = 0 then 10 else ct_MaxConcurrentOps req)"
    obtain c w1 where c: "CreateTenant (ct_Name req) tier rate quota ops w = (c, w1)" by fastforce
    then have "fst (createTenant r w) = (case c of
        Inl err \<Rightarrow> WriteError 500 ''internal_error'' (Detail ''failed to create tenant'') (h_reqid r)
      | Inr t \<Rightarrow> WriteJSON 201 (TenantBody t))"
      using req by (simp add: createTenant_def Let_def tier_def rate_def quota_def ops_def
          split: sum.splits)
    then show ?thesis
      using new_tenant_typed c req(2) by (cases c) (auto simp: PostTenants)
  qed
next
  case (GetTenants r)
  then show ?thesis by (auto simp: listTenants_def split: sum.splits prod.splits)
next
  case (GetTenantById r)
  then show ?thesis
    using tenant_typed by (auto simp: getTenant_def split: sum.splits prod.splits)
next
  case (PostApiKeys r)
  then show ?thesis
    using new_key_typed [of "url_id r"] raw_key_prefix [of w]
    by (auto simp: createAPIKey_def Let_def split: sum.splits prod.splits)
next
  case (GetApiKeys r)
  then show ?thesis
    using keys_typed [OF _ assms] by (auto simp: listAPIKeys_def split: sum.splits prod.splits)
next
  case (DeleteApiKey r)
  then show ?thesis by (auto simp: revokeAPIKey_def split: sum.splits prod.splits)
next
  case (PostAuthValidate r)
  then show ?thesis
    by (auto simp: validateKey_def Let_def split: option.splits sum.splits prod.splits)
qed

text \<open>C21: Every answer has the type of its route, whatever happens meanwhile: its status is one the
  route promises; an error is a problem with the response's status and the request's id; and what
  is shown is well-formed: operations and attempts fit their status, pages keep to their limits, a
  listed key has a time of revocation exactly if it is revoked, a quota never shows less than zero.\<close>

theorem answers_typed:
  assumes "tame platform_step w" and "reachable (store w)"
  shows "operations_typed a (fst (answer_operations x a w)) \<and>
    usage_typed b (fst (answer_usage x b w)) \<and> access_typed c (fst (answer_access x c w))"
  using operations_answers [OF assms] usage_answers access_answers [OF assms] by blast

theorem answers_typed_witness:
  "operations_typed (PostCancel (sample_get (UuidText 1) (UuidText 2)))
     (fst (cancelOperation (sample_get (UuidText 1) (UuidText 2)) (sample_world op_running)))"
proof -
  have "tame platform_step (sample_world op_running)" "reachable (store (sample_world op_running))"
    using sample_reachable by simp_all
  from answers_typed [OF this, of "PostCancel (sample_get (UuidText 1) (UuidText 2))"]
  show ?thesis by simp
qed

section \<open>The tables\<close>

lemma tables_disjoint:
  "disjoint (map (\<lambda>(m, p, f). (m, p)) (operations_routes d q))"
  "disjoint (map (\<lambda>(m, p, f). (m, p)) (usage_routes d q))"
  "disjoint (map (\<lambda>(m, p, f). (m, p)) (access_routes d q))"
  by (simp_all add: operations_routes_def usage_routes_def access_routes_def Let_def)

lemma lookup_entry:
  assumes "disjoint (map (\<lambda>(m, p, f). (m, p)) rs)" and "(m, p, f) \<in> set rs"
    and "matches p path [] = Some s"
  shows "lookup rs m path b = (case f s of None \<Rightarrow> Healthy | Some a \<Rightarrow> Api a)"
  using assms
proof (induction rs m path b rule: lookup.induct)
  case (1 m path b)
  then show ?case by simp
next
  case (2 m' pat g rs m path b)
  show ?case
  proof (cases "(m, p, f) = (m', pat, g)")
    case True
    then show ?thesis using 2(5) by simp
  next
    case False
    then have r: "(m, p, f) \<in> set rs" using 2(4) by auto
    have "m = m' \<Longrightarrow> \<not> overlap pat p" using 2(3) r by force
    then have "m = m' \<Longrightarrow> matches pat path [] = None"
      using matches_overlap [of pat path "[]" _ p "[]" s] 2(5) by (cases "matches pat path []") auto
    then show ?thesis
      using 2(1,2,3,5) r by (auto split: option.splits)
  qed
qed

end
