(* ===== verification/Worker.thy ===== *)
theory Worker
  imports Deployment
begin

text \<open>
  The worker (\<open>worker/app\<close>, Python): the client of the operations service, the chain of model
  providers, the processing of one job and one round of the loop over the queue. What the providers
  answer, and what Python's \<open>json\<close> makes of a text, are parameters; an exception is a value.
  A text is a list of 8-bit characters, so \<open>strip\<close>, \<open>lower\<close> and slices are those of Python for ASCII texts;
  beyond ASCII, Python strips more kinds of space and cuts the text of an error after code points.
\<close>

section \<open>Exceptions and surroundings\<close>

datatype py_exn = ProviderError string string | OtherError string

text \<open>
  What comes back from a provider: \<open>requests\<close> raises, or there is a status, the start of the body's
  text, and what reading the answer out of the body leads to: no JSON, a missing key or index, any
  other exception, or the text of the model.
\<close>

datatype provider_content = NoJson string | MissingKey string | OddShape string | ModelText string

datatype provider_reply = NetworkError string | Answered int string provider_content

text \<open>A raw job: \<open>json.loads\<close> fails, another exception is raised on it, or it has this operation id.\<close>

datatype envelope = Malformed | Odd | JobFor idtext

record surroundings =
  envelope_of :: "string \<Rightarrow> envelope"
  as_str :: "json \<Rightarrow> string option"     \<comment> \<open>the text a JSON value is, if it is a string\<close>
  json_loads :: "string \<Rightarrow> string + json"  \<comment> \<open>\<open>json.loads\<close>; \<open>Inl\<close> is the text of a \<open>JSONDecodeError\<close>\<close>
  json_dumps :: "json \<Rightarrow> json option"    \<comment> \<open>the body \<open>requests\<close> makes of a value, or an exception\<close>
  ask :: "string \<Rightarrow> string \<Rightarrow> json \<Rightarrow> nat \<Rightarrow> provider_reply"
  elapsed_ms :: "nat \<Rightarrow> int"            \<comment> \<open>the duration of the call at a position\<close>
  error_text :: "nat \<Rightarrow> string"         \<comment> \<open>the text of the exception a call raises\<close>
  gemini_key :: string
  openrouter_key :: string
  WORKER_ID :: string

section \<open>The client of the operations service\<close>

definition worker_request :: "idtext \<Rightarrow> 'q option \<Rightarrow> 'q request" where
  "worker_request oid body =
     \<lparr>h_tenant = EmptyText, h_reqid = [], h_idem = [], h_quota = [], url_id = oid,
      q_status = [], q_limit = [], q_offset = [], decoded = body\<rparr>"

text \<open>\<open>resp.raise_for_status()\<close>, after a request that may itself raise.\<close>

definition checked ::
    "surroundings \<Rightarrow> 'b response option \<times> 'w world \<Rightarrow> (py_exn + 'b response) \<times> 'w world" where
  "checked E r =
     (case r of
        (None, w1) \<Rightarrow> (Inl (OtherError (error_text E (pos w1))), w1)
      | (Some resp, w1) \<Rightarrow>
          if 400 \<le> r_status resp then (Inl (OtherError (error_text E (pos w1))), w1)
          else (Inr resp, w1))"

definition get_operation ::
    "surroundings \<Rightarrow> idtext \<Rightarrow> platform world \<Rightarrow> (py_exn + operation) \<times> platform world" where
  "get_operation E oid w =
     (case checked E (http_call (adminGetOperation (worker_request oid None)) w) of
        (Inl e, w1) \<Rightarrow> (Inl e, w1)
      | (Inr resp, w1) \<Rightarrow>
          (case r_body resp of
             JSON (OperationBody op) \<Rightarrow> (Inr op, w1)
           | _ \<Rightarrow> (Inl (OtherError (error_text E (pos w1))), w1)))"

definition start_attempt ::
    "surroundings \<Rightarrow> idtext \<Rightarrow> string \<Rightarrow> int \<Rightarrow> platform world \<Rightarrow> (py_exn + uuid) \<times> platform world"
  where
  "start_attempt E oid wid n w =
     (case checked E (http_call (startAttempt (worker_request oid
             (Some \<lparr>sa_WorkerID = wid, sa_AttemptNumber = n\<rparr>))) w) of
        (Inl e, w1) \<Rightarrow> (Inl e, w1)
      | (Inr resp, w1) \<Rightarrow>
          (case r_body resp of
             JSON (AttemptIdBody a) \<Rightarrow> (Inr a, w1)
           | _ \<Rightarrow> (Inl (OtherError (error_text E (pos w1))), w1)))"

text \<open>
  A report, as \<open>http_call\<close>, but the goroutines the handler starts run whether or not its answer
  arrives, so they are a result of their own.
\<close>

definition report ::
    "surroundings \<Rightarrow> ext \<Rightarrow> idtext \<Rightarrow> completeAttemptReq \<Rightarrow> platform world \<Rightarrow>
     (py_exn + unit) \<times> task list \<times> platform world" where
  "report E x oid req w =
     (let handle = completeAttempt (x_jsonb x) (x_job x) (worker_request oid (Some req));
          t = tape w (pos w);
          w1 = w\<lparr>pos := Suc (pos w), store := others t (store w)\<rparr>
      in
      if outcome t = Refused then (Inl (OtherError (error_text E (pos w1))), [], w1)
      else
        (case handle w1 of ((resp, tasks), w2) \<Rightarrow>
           ((if outcome t = Done \<and> r_status resp < 400 then Inr ()
             else Inl (OtherError (error_text E (pos w2)))),
            tasks, w2)))"

definition complete_attempt_success ::
    "surroundings \<Rightarrow> ext \<Rightarrow> idtext \<Rightarrow> uuid \<Rightarrow> json \<Rightarrow> string \<Rightarrow> int \<Rightarrow> platform world \<Rightarrow>
     (py_exn + unit) \<times> task list \<times> platform world" where
  "complete_attempt_success E x oid aid output provider latency w =
     (case json_dumps E output of
        None \<Rightarrow> (Inl (OtherError (error_text E (pos w))), [], w)
      | Some body \<Rightarrow>
          report E x oid
            \<lparr>ca_AttemptID = UuidText aid, ca_Success = True, ca_Output = Some body,
             ca_Provider = provider, ca_LatencyMs = latency, ca_ErrorCategory = [],
             ca_ErrorDetail = []\<rparr> w)"

definition complete_attempt_failure ::
    "surroundings \<Rightarrow> ext \<Rightarrow> idtext \<Rightarrow> uuid \<Rightarrow> string \<Rightarrow> string \<Rightarrow> platform world \<Rightarrow>
     (py_exn + unit) \<times> task list \<times> platform world" where
  "complete_attempt_failure E x oid aid category det w =
     report E x oid
       \<lparr>ca_AttemptID = UuidText aid, ca_Success = False, ca_Output = None, ca_Provider = [],
        ca_LatencyMs = 0, ca_ErrorCategory = category, ca_ErrorDetail = take 2000 det\<rparr> w"

section \<open>The providers\<close>

definition py_space :: "char \<Rightarrow> bool" where
  "py_space c \<longleftrightarrow> c \<in> {CHR 0x09, CHR 0x0A, CHR 0x0B, CHR 0x0C, CHR 0x0D, CHR 0x1C, CHR 0x1D,
                       CHR 0x1E, CHR 0x1F, CHR '' ''}"

definition strip_chars :: "(char \<Rightarrow> bool) \<Rightarrow> string \<Rightarrow> string" where
  "strip_chars p s = rev (dropWhile p (rev (dropWhile p s)))"

definition starts_with :: "string \<Rightarrow> string \<Rightarrow> bool" where
  "starts_with pre s \<longleftrightarrow> take (length pre) s = pre"

definition backtick :: char where "backtick = CHR 0x60"

definition extract_json :: "surroundings \<Rightarrow> string \<Rightarrow> py_exn + json" where
  "extract_json E text0 =
     (let text1 = strip_chars py_space text0;
          text2 = (if starts_with [backtick, backtick, backtick] text1
                   then (let t = strip_chars (\<lambda>c. c = backtick) text1;
                             u = (if starts_with ''json'' (map lower_char t) then drop 4 t else t)
                         in strip_chars py_space u)
                   else text1)
      in
      case json_loads E text2 of
        Inr v \<Rightarrow> Inr v
      | Inl e \<Rightarrow> Inl (ProviderError (''model returned non-JSON output: '' @ e) ''permanent''))"

text \<open>The two providers differ in the request they build and in the texts of their errors.\<close>

definition classify_reply :: "surroundings \<Rightarrow> string \<Rightarrow> provider_reply \<Rightarrow> py_exn + json" where
  "classify_reply E name r =
     (case r of
        NetworkError e \<Rightarrow> Inl (ProviderError (name @ '' network error: '' @ e) ''transient'')
      | Answered status text content \<Rightarrow>
          if status = 429 \<or> 500 \<le> status
          then Inl (ProviderError (name @ '' transient error: HTTP '' @ decimal status) ''transient'')
          else if 400 \<le> status
          then Inl (ProviderError
                 (name @ '' request error: HTTP '' @ decimal status @ '' '' @ take 200 text)
                 ''permanent'')
          else
            (case content of
               NoJson e \<Rightarrow> Inl (OtherError e)
             | MissingKey e \<Rightarrow>
                 Inl (ProviderError (''unexpected '' @ name @ '' response shape: '' @ e) ''transient'')
             | OddShape e \<Rightarrow> Inl (OtherError e)
             | ModelText t \<Rightarrow> extract_json E t))"

record provider =
  pv_name :: string
  pv_key :: string

definition GeminiProvider :: "surroundings \<Rightarrow> provider" where
  "GeminiProvider E = \<lparr>pv_name = ''gemini'', pv_key = gemini_key E\<rparr>"

definition OpenRouterProvider :: "surroundings \<Rightarrow> provider" where
  "OpenRouterProvider E = \<lparr>pv_name = ''openrouter'', pv_key = openrouter_key E\<rparr>"

definition pv_available :: "provider \<Rightarrow> bool" where
  "pv_available pv \<longleftrightarrow> pv_key pv \<noteq> []"

definition pv_process ::
    "surroundings \<Rightarrow> provider \<Rightarrow> string \<Rightarrow> json \<Rightarrow> 'w world \<Rightarrow> (py_exn + json) \<times> 'w world" where
  "pv_process E pv op_type input w =
     (classify_reply E (pv_name pv) (ask E (pv_name pv) op_type input (pos w)),
      w\<lparr>pos := Suc (pos w), store := others (tape w (pos w)) (store w)\<rparr>)"

fun try_providers ::
    "surroundings \<Rightarrow> provider list \<Rightarrow> py_exn option \<Rightarrow> string \<Rightarrow> json \<Rightarrow> 'w world \<Rightarrow>
     (py_exn + json \<times> string \<times> int) \<times> 'w world" where
  "try_providers E [] last_err op_type input w =
     (Inl (case last_err of
             Some e \<Rightarrow> e
           | None \<Rightarrow> ProviderError
               ''no AI provider configured (set GEMINI_API_KEY or OPENROUTER_API_KEY)'' ''permanent''),
      w)"
| "try_providers E (pv # pvs) last_err op_type input w =
     (if \<not> pv_available pv then try_providers E pvs last_err op_type input w
      else
        (case pv_process E pv op_type input w of
           (Inr output, w1) \<Rightarrow> (Inr (output, pv_name pv, elapsed_ms E (pos w)), w1)
         | (Inl (ProviderError msg category), w1) \<Rightarrow>
             if category = ''permanent'' then (Inl (ProviderError msg category), w1)
             else try_providers E pvs (Some (ProviderError msg category)) op_type input w1
         | (Inl (OtherError msg), w1) \<Rightarrow> (Inl (OtherError msg), w1)))"

definition process_with_fallback ::
    "surroundings \<Rightarrow> string \<Rightarrow> json \<Rightarrow> 'w world \<Rightarrow> (py_exn + json \<times> string \<times> int) \<times> 'w world" where
  "process_with_fallback E op_type input w =
     try_providers E [GeminiProvider E, OpenRouterProvider E] None op_type input w"

section \<open>Processing a job\<close>

text \<open>
  \<open>process_job\<close> returns, or raises: outside the \<open>try\<close> blocks stand the decoding of an input that is
  itself a string and the reports in the handlers of the exceptions. The tasks are the goroutines
  the operations service started on the way.
\<close>

definition load_input :: "surroundings \<Rightarrow> json \<Rightarrow> py_exn + json" where
  "load_input E input =
     (case as_str E input of
        None \<Rightarrow> Inr input
      | Some s \<Rightarrow>
          (case json_loads E s of Inl e \<Rightarrow> Inl (OtherError e) | Inr v \<Rightarrow> Inr v))"

definition finish_attempt ::
    "surroundings \<Rightarrow> ext \<Rightarrow> idtext \<Rightarrow> uuid \<Rightarrow> string \<Rightarrow> json \<Rightarrow> platform world \<Rightarrow>
     (py_exn + unit) \<times> task list \<times> platform world" where
  "finish_attempt E x oid aid op_type input w =
     (let tried =
        (case process_with_fallback E op_type input w of
           (Inl e, w1) \<Rightarrow> (Inl e, [], w1)
         | (Inr (output, provider, latency), w1) \<Rightarrow>
             complete_attempt_success E x oid aid output provider latency w1)
      in
      case tried of
        (Inr _, tasks, w2) \<Rightarrow> (Inr (), tasks, w2)
      | (Inl e, tasks, w2) \<Rightarrow>
          (case (case e of
                   ProviderError msg category \<Rightarrow> complete_attempt_failure E x oid aid category msg w2
                 | OtherError msg \<Rightarrow>
                     complete_attempt_failure E x oid aid ''transient'' (''worker exception: '' @ msg)
                       w2)
           of (r, tasks', w3) \<Rightarrow> (r, tasks @ tasks', w3)))"

definition process_job ::
    "surroundings \<Rightarrow> ext \<Rightarrow> idtext \<Rightarrow> platform world \<Rightarrow>
     (py_exn + unit) \<times> task list \<times> platform world" where
  "process_job E x oid w =
     (case get_operation E oid w of
        (Inl e, w1) \<Rightarrow> (Inr (), [], w1)
      | (Inr op, w1) \<Rightarrow>
          if op_Status op \<in> {''SUCCEEDED'', ''FAILED'', ''DEAD_LETTERED'', ''CANCELLED''}
          then (Inr (), [], w1)
          else
            (case start_attempt E oid (WORKER_ID E) (op_AttemptCount op + 1) w1 of
               (Inl e, w2) \<Rightarrow> (Inr (), [], w2)
             | (Inr aid, w2) \<Rightarrow>
                 (case load_input E (op_Input op) of
                    Inl e \<Rightarrow> (Inl e, [], w2)
                  | Inr input \<Rightarrow> finish_attempt E x oid aid (op_OpType op) input w2)))"

section \<open>The loop\<close>

text \<open>
  One round of \<open>while True\<close>. An exception that nothing catches ends the process: the result of the
  round says so.
\<close>

definition worker_round ::
    "surroundings \<Rightarrow> ext \<Rightarrow> platform world \<Rightarrow> (py_exn + unit) \<times> task list \<times> platform world" where
  "worker_round E x w =
     (case call brpop_stmt w of
        (Inl e, w1) \<Rightarrow> (Inl (OtherError (error_text E (pos w1))), [], w1)
      | (Inr None, w1) \<Rightarrow> (Inr (), [], w1)
      | (Inr (Some raw), w1) \<Rightarrow>
          (case envelope_of E raw of
             Malformed \<Rightarrow> (Inr (), [], w1)
           | Odd \<Rightarrow> (Inl (OtherError (error_text E (pos w1))), [], w1)
           | JobFor oid \<Rightarrow> process_job E x oid w1))"

fun connect_redis_loop ::
    "(nat \<Rightarrow> py_exn option) \<Rightarrow> nat \<Rightarrow> nat \<Rightarrow> py_exn option \<Rightarrow> (py_exn option + unit) \<times> nat" where
  "connect_redis_loop dial i 0 last_err = (Inl last_err, i)"
| "connect_redis_loop dial i (Suc n) last_err =
     (case dial i of
        None \<Rightarrow> (Inr (), i)
      | Some e \<Rightarrow> connect_redis_loop dial (Suc i) n (Some e))"

definition connect_redis_with_retry ::
    "(nat \<Rightarrow> py_exn option) \<Rightarrow> nat \<Rightarrow> (py_exn option + unit) \<times> nat" where
  "connect_redis_with_retry dial attempts = connect_redis_loop dial 0 attempts None"

text \<open>The loop for \<open>n\<close> rounds, or until an exception ends it.\<close>

fun worker_rounds ::
    "surroundings \<Rightarrow> ext \<Rightarrow> nat \<Rightarrow> platform world \<Rightarrow> (py_exn + unit) \<times> task list \<times> platform world" where
  "worker_rounds E x 0 w = (Inr (), [], w)"
| "worker_rounds E x (Suc n) w =
     (case worker_round E x w of
        (Inl e, tasks, w1) \<Rightarrow> (Inl e, tasks, w1)
      | (Inr _, tasks, w1) \<Rightarrow>
          (case worker_rounds E x n w1 of (r, tasks', w2) \<Rightarrow> (r, tasks @ tasks', w2)))"

section \<open>The worker refines the platform\<close>

context all_statements
begin

lemma checked_moves: "moves S w (snd r) \<Longrightarrow> moves S w (snd (checked E r))"
  by (auto simp: checked_def split: prod.splits option.splits)

lemma get_operation_moves:
  assumes "tame S w"
  shows "moves S w (snd (get_operation E oid w))"
proof -
  obtain r w1 where c: "checked E (http_call (adminGetOperation (worker_request oid None)) w) = (r, w1)"
    by fastforce
  have "moves S w (snd (checked E (http_call (adminGetOperation (worker_request oid None)) w)))"
    by (intro checked_moves http_call_moves [OF assms] adminGetOperation_moves)
  then have "moves S w w1" by (simp add: c)
  then show ?thesis
    by (cases r) (auto simp: get_operation_def c split: body.splits ops_body.splits)
qed

lemma start_attempt_moves:
  assumes "tame S w"
  shows "moves S w (snd (start_attempt E oid wid n w))"
proof -
  let ?h = "startAttempt (worker_request oid (Some \<lparr>sa_WorkerID = wid, sa_AttemptNumber = n\<rparr>))"
  obtain r w1 where c: "checked E (http_call ?h w) = (r, w1)" by fastforce
  have "moves S w (snd (checked E (http_call ?h w)))"
    by (intro checked_moves http_call_moves [OF assms] startAttempt_moves)
  then have "moves S w w1" by (simp add: c)
  then show ?thesis
    by (cases r) (auto simp: start_attempt_def c split: body.splits ops_body.splits)
qed

lemma report_moves:
  assumes "tame S w"
  shows "moves S w (snd (snd (report E x oid req w)))"
proof -
  let ?w = "w\<lparr>pos := Suc (pos w), store := others (tape w (pos w)) (store w)\<rparr>"
  have m: "moves S w ?w" using assms by (simp add: moves_def tame_def)
  then have "tame S ?w" using assms by (rule moves_tame)
  then show ?thesis
    using m moves_trans [OF m completeAttempt_moves]
    by (auto simp: report_def Let_def case_prod_beta)
qed

lemma complete_attempt_success_moves:
  "tame S w \<Longrightarrow> moves S w (snd (snd (complete_attempt_success E x oid aid out prov lat w)))"
  by (auto simp: complete_attempt_success_def report_moves split: option.splits)

lemma complete_attempt_failure_moves:
  "tame S w \<Longrightarrow> moves S w (snd (snd (complete_attempt_failure E x oid aid cat det w)))"
  by (simp add: complete_attempt_failure_def report_moves)

lemma try_providers_moves:
  "tame S w \<Longrightarrow> moves S w (snd (try_providers E pvs e ty input w))"
proof (induction pvs arbitrary: e w)
  case Nil
  then show ?case by simp
next
  case (Cons pv pvs)
  let ?w = "w\<lparr>pos := Suc (pos w), store := others (tape w (pos w)) (store w)\<rparr>"
  have m: "moves S w ?w" using Cons.prems by (simp add: moves_def tame_def)
  then have "tame S ?w" using Cons.prems by (rule moves_tame)
  then show ?case
    using Cons m moves_trans [OF m Cons.IH]
    by (auto simp: pv_process_def split: sum.splits py_exn.splits)
qed

lemma finish_attempt_moves:
  assumes "tame S w"
  shows "moves S w (snd (snd (finish_attempt E x oid aid ty input w)))"
proof -
  obtain r w1 where p: "process_with_fallback E ty input w = (r, w1)" by fastforce
  have m: "moves S w w1"
    using try_providers_moves [OF assms] p by (metis process_with_fallback_def snd_conv)
  then have t: "tame S w1" using assms by (rule moves_tame)
  obtain r2 ts w2 where s: "(case r of Inl e \<Rightarrow> (Inl e, [], w1)
      | Inr (output, provider, latency) \<Rightarrow>
          complete_attempt_success E x oid aid output provider latency w1) = (r2, ts, w2)"
    by (metis prod_cases3)
  have m2: "moves S w1 w2"
    using s complete_attempt_success_moves [OF t] by (auto split: sum.splits prod.splits) (metis snd_conv)
  then have t2: "tame S w2" using t by (rule moves_tame)
  have "moves S w2 (snd (snd (complete_attempt_failure E x oid aid cat det w2)))" for cat det
    using t2 by (rule complete_attempt_failure_moves)
  then show ?thesis
    using moves_trans [OF m m2] p s
    by (auto simp: finish_attempt_def Let_def case_prod_beta split: sum.splits py_exn.splits
        intro: moves_trans)
qed

lemma process_job_moves:
  assumes "tame S w"
  shows "moves S w (snd (snd (process_job E x oid w)))"
proof -
  obtain r w1 where g: "get_operation E oid w = (r, w1)" by fastforce
  have m: "moves S w w1" using get_operation_moves [OF assms] g by (metis snd_conv)
  then have t: "tame S w1" using assms by (rule moves_tame)
  have m2: "moves S w1 (snd (start_attempt E oid wid n w1))" for wid n
    using t by (rule start_attempt_moves)
  have m3: "moves S w1 (snd (snd (finish_attempt E x oid aid ty input
      (snd (start_attempt E oid wid n w1)))))" for wid n aid ty input
    using m2 moves_tame [OF m2 t] finish_attempt_moves by (blast intro: moves_trans)
  show ?thesis
    using m m2 m3 g
    by (auto simp: process_job_def case_prod_beta split: sum.splits intro: moves_trans)
qed

lemma brpop_moves: "tame S w \<Longrightarrow> moves S w (snd (call brpop_stmt w))"
  by (rule call_moves) (blast intro: has_guarded brpop)+

lemma worker_round_moves:
  assumes "tame S w"
  shows "moves S w (snd (snd (worker_round E x w)))"
proof -
  obtain r w1 where c: "call brpop_stmt w = (r, w1)" by fastforce
  have m: "moves S w w1" using brpop_moves [OF assms] by (simp add: c)
  show ?thesis
    using m moves_trans [OF m process_job_moves [OF moves_tame [OF m assms]]]
    by (auto simp: worker_round_def c split: sum.splits option.splits envelope.splits)
qed

lemma worker_rounds_moves:
  "tame S w \<Longrightarrow> moves S w (snd (snd (worker_rounds E x n w)))"
proof (induction n arbitrary: w)
  case 0
  then show ?case by simp
next
  case (Suc n)
  obtain r ts w1 where c: "worker_round E x w = (r, ts, w1)" by (metis prod_cases3)
  then have m: "moves S w w1" using worker_round_moves [OF Suc.prems, of E x] by simp
  have "moves S w (snd (snd (worker_rounds E x n w1)))"
    using m Suc.IH [OF moves_tame [OF m Suc.prems]] by (rule moves_trans)
  then show ?case using m by (cases r) (simp_all add: c case_prod_beta)
qed

end

end
