(* ===== verification/Progress.thy ===== *)
theory Progress
  imports Worker Processing Scheduling
begin

text \<open>
  The worker and the operations service together: how an operation gets from the queue to a terminal
  status, and the ways in which it does not.
\<close>

section \<open>What the usage service leaves alone\<close>

definition usage_frame :: "platform \<Rightarrow> platform \<Rightarrow> bool" where
  "usage_frame p p' \<longleftrightarrow>
     tenants p' = tenants p \<and> api_keys p' = api_keys p \<and> operations p' = operations p \<and>
     operation_attempts p' = operation_attempts p \<and> redis_state p' = redis_state p \<and>
     clock p' = clock p"

lemma usage_step_frame: "usage_step p p' \<Longrightarrow> usage_frame p p'"
proof (induction rule: usage_step.induct)
  case (usage_event p t i n u)
  show ?case by (simp add: usage_frame_def usage_stmt_def with_uuid_def split: idtext.splits)
next
  case (new_endpoint p t url secret u)
  show ?case by (simp add: usage_frame_def endpoint_stmt_def with_uuid_def Let_def split: idtext.splits)
next
  case (new_delivery p jb wh i ev pay u)
  show ?case
    by (simp add: usage_frame_def delivery_stmt_def with_uuid_def split: idtext.splits option.splits)
next
  case (mark_delivery p d m u)
  show ?case by (simp add: usage_frame_def mark_stmt_def Let_def)
qed

lemma usage_steps_frame: "usage_step\<^sup>*\<^sup>* p p' \<Longrightarrow> usage_frame p p'"
proof (induction rule: rtranclp_induct)
  case base
  then show ?case by (simp add: usage_frame_def)
next
  case (step p' p'')
  then show ?case using usage_step_frame [OF step(2)] by (simp add: usage_frame_def)
qed

context usage_statements
begin

lemma run_tasks_moves:
  "tame S w \<Longrightarrow> moves S w (fold (run_task cj (post_to_usage x)) tasks w)"
proof (induction tasks arbitrary: w)
  case Nil
  then show ?case by simp
next
  case (Cons t ts)
  have m: "moves S w (run_task cj (post_to_usage x) t w)"
    using Cons.prems by (rule run_task_moves)
  then show ?case
    using moves_trans [OF m Cons.IH [OF moves_tame [OF m Cons.prems]]] by simp
qed

end

lemma run_tasks_quiet:
  assumes "quiet w" and "fold (run_task cj (post_to_usage x)) tasks w = w'"
  shows "quiet w'" "tape w' = tape w" "pos w \<le> pos w'" "usage_frame (store w) (store w')"
  using usage_only.run_tasks_moves [OF quiet_tame [OF assms(1)], of cj x tasks] assms
    usage_steps_frame moves_quiet [of usage_step w w']
  by (auto simp: moves_def)

section \<open>The worker's calls, undisturbed\<close>

lemma get_operation_quiet:
  assumes "quiet w" and "schema_ok (store w)" and "row \<in> set (operations (store w))"
    and "op_ID row = i"
  shows "get_operation E (UuidText i) w = (Inr row, w\<lparr>pos := Suc (Suc (pos w))\<rparr>)"
  using GetOperationAnyTenant_calm [of "w\<lparr>pos := Suc (pos w)\<rparr>" row i] assms schema_op_ids
  by (simp add: get_operation_def checked_def http_call_quiet adminGetOperation_def
      worker_request_def WriteJSON_def)

lemma call_pos [simp]: "pos (snd (call f w)) = Suc (pos w)"
  by (simp add: call_def Let_def split: prod.splits outcome.splits)

lemma startAttempt_later:
  assumes "quiet w" and "decoded r = Some req"
  shows "pos w < pos (snd (startAttempt r w))"
proof -
  obtain res w1 where c: "StartAttempt (url_id r) (sa_WorkerID req) (sa_AttemptNumber req) w = (res, w1)"
    by fastforce
  then have w1: "w1 = snd (call (start_attempt_tx (url_id r) (sa_WorkerID req) (sa_AttemptNumber req)) w)"
    by (simp add: StartAttempt_def)
  then have p: "pos w1 = Suc (pos w)" by simp
  have "quiet w1" using assms(1) w1 by (simp add: call_quiet)
  then have t: "tame platform_step w1" by (rule quiet_tame)
  obtain g w2 where g: "GetOperationAnyTenant (url_id r) w1 = (g, w2)" by fastforce
  then have m: "moves platform_step w1 w2"
    using full.GetOperationAnyTenant_moves [OF t, of "url_id r"] by simp
  have "moves platform_step w1 (snd (IncrConcurrency tn w2))" for tn
    using m full.IncrConcurrency_moves [OF moves_tame [OF m t]] by (rule moves_trans)
  then have "pos w1 \<le> pos w2" "pos w1 \<le> pos (snd (IncrConcurrency tn w2))" for tn
    using m by (simp_all add: moves_def)
  then show ?thesis
    using p assms(2) by (cases res; cases g) (auto simp: startAttempt_def c g Suc_le_eq)
qed

lemma start_attempt_quiet:
  assumes "quiet w" and "schema_ok (store w)" and "row \<in> set (operations (store w))"
    and "op_ID row = i" and "int4_ok n"
    and "fresh (tape w (Suc (pos w))) \<notin> at_ID ` set (operation_attempts (store w))"
  defines "p \<equiv> store w" and "u \<equiv> fresh (tape w (Suc (pos w)))"
  obtains w1 where "start_attempt E (UuidText i) wid n w = (Inr u, w1)" and "quiet w1"
    and "tape w1 = tape w" and "Suc (pos w) < pos w1"
    and "store w1 =
      p\<lparr>operations := map (started_row i n (pg_now p)) (operations p),
        operation_attempts := operation_attempts p @
          [new_attempt u i \<lparr>sa_WorkerID = wid, sa_AttemptNumber = n\<rparr> (pg_now p)],
        redis_state := set_counter (op_TenantID row) (counter (op_TenantID row) (redis_state p) + 1)
                         (redis_state p)\<rparr>"
proof -
  let ?req = "\<lparr>sa_WorkerID = wid, sa_AttemptNumber = n\<rparr>"
  let ?r = "worker_request (UuidText i) (Some ?req)"
  let ?v = "w\<lparr>pos := Suc (pos w)\<rparr>"
  let ?w1 = "snd (startAttempt ?r ?v)"
  have s: "startable ?r i ?req ?v"
    using assms by (simp add: startable_def worker_request_def)
  have e: "fst (startAttempt ?r ?v) = WriteJSON 200 (AttemptIdBody u)"
    "store ?w1 = p\<lparr>operations := map (started_row i n (pg_now p)) (operations p),
        operation_attempts := operation_attempts p @ [new_attempt u i ?req (pg_now p)],
        redis_state := set_counter (op_TenantID row) (counter (op_TenantID row) (redis_state p) + 1)
                         (redis_state p)\<rparr>"
    using startAttempt_effect [OF s, of row] assms(3,4) by (simp_all add: p_def u_def)
  have m: "moves platform_step ?v ?w1"
    by (rule full.startAttempt_moves) (rule quiet_tame, simp add: assms(1))
  show thesis
  proof (rule that)
    show "start_attempt E (UuidText i) wid n w = (Inr u, ?w1)"
      using e(1) assms(1)
      by (simp add: start_attempt_def http_call_quiet checked_def WriteJSON_def)
    show "quiet ?w1" using m assms(1) by (simp add: moves_quiet)
    show "tape ?w1 = tape w" using m by (simp add: moves_def)
    show "Suc (pos w) < pos ?w1"
      using startAttempt_later [of ?v ?r ?req] assms(1) by (simp add: worker_request_def)
  qed (rule e(2))
qed

text \<open>The providers only pass time.\<close>

lemma try_providers_quiet:
  "quiet w \<Longrightarrow> try_providers E pvs e ty input w = (r, w1) \<Longrightarrow>
   quiet w1 \<and> tape w1 = tape w \<and> pos w \<le> pos w1 \<and> store w1 = store w"
proof (induction pvs arbitrary: e w)
  case Nil
  then show ?case by simp
next
  case (Cons pv pvs)
  let ?w = "w\<lparr>pos := Suc (pos w)\<rparr>"
  obtain c where c: "pv_process E pv ty input w = (c, ?w)"
    using Cons.prems(1) by (simp add: pv_process_def quiet_def)
  have "quiet w1 \<and> tape w1 = tape w \<and> pos w \<le> pos w1 \<and> store w1 = store w"
    if "try_providers E pvs e' ty input v = (r, w1)" "v = w \<or> v = ?w" for e' v
    using Cons.IH [of v e'] that Cons.prems(1) by auto
  then show ?case
    using Cons.prems c by (auto split: if_splits sum.splits py_exn.splits)
qed

text \<open>
  A report. A success whose output or latency the database refuses is answered with 500, and only
  the slot has been freed then.
\<close>

lemma completeAttempt_rejected:
  assumes "completes r i a req row w" and "ca_Success req" and "\<not> output_ok jb req"
  defines "p \<equiv> store w" and "t \<equiv> op_TenantID row"
  shows "r_status (fst (fst (completeAttempt jb enc r w))) = 500 \<and>
    snd (fst (completeAttempt jb enc r w)) = [] \<and>
    store (snd (completeAttempt jb enc r w)) = p\<lparr>redis_state := freed t (redis_state p)\<rparr>"
proof -
  have q: "calm_from w" using assms(1) by (simp add: completes_def)
  have g: "GetOperationAnyTenant (UuidText i) w = (Inr row, w\<lparr>pos := Suc (pos w)\<rparr>)"
    using assms(1) schema_op_ids by (intro GetOperationAnyTenant_calm) (auto simp: completes_def)
  let ?w2 = "snd (DecrConcurrency t (w\<lparr>pos := Suc (pos w)\<rparr>))"
  have w2: "calm_from ?w2" "store ?w2 = p\<lparr>redis_state := freed t (redis_state p)\<rparr>"
    using q by (simp_all add: DecrConcurrency_calm p_def)
  obtain err where tx: "success_tx jb (UuidText i) (UuidText a) (ca_Output req) (ca_Provider req)
      (ca_LatencyMs req) v (store ?w2) = (Inl err, store ?w2)" for v
    using assms(3)
    by (cases "int4_ok (ca_LatencyMs req)")
      (auto simp: success_tx_def output_ok_def split: option.splits)
  show ?thesis
    using assms(1,2) g w2 tx
    by (simp add: completeAttempt_def completes_def CompleteAttemptSuccess_def call_calm_from Let_def
        t_def)
qed

lemma report_quiet:
  assumes "quiet w"
    and "completeAttempt (x_jsonb x) (x_job x) (worker_request oid (Some req)) (w\<lparr>pos := Suc (pos w)\<rparr>) =
      ((resp, tasks), w1)"
  shows "report E x oid req w =
    (if r_status resp < 400 then Inr () else Inl (OtherError (error_text E (pos w1))), tasks, w1)"
  using assms by (simp add: report_def Let_def quiet_def)

text \<open>
  What an attempt's report does to the state, as far as the attempt's operation \<open>row\<close> and the queue
  are concerned: the operation is terminal, or it waits for a retry whose job is delayed.
\<close>

definition settled :: "(job \<Rightarrow> string) \<Rightarrow> operation \<Rightarrow> platform \<Rightarrow> platform \<Rightarrow> bool" where
  "settled enc row p p' \<longleftrightarrow>
     clock p' = clock p \<and>
     at_ID ` set (operation_attempts p') = at_ID ` set (operation_attempts p) \<and>
     main_queue (redis_state p') = main_queue (redis_state p) \<and>
     (\<exists>row'\<in>set (operations p').
        op_ID row' = op_ID row \<and> op_MaxRetries row' = op_MaxRetries row \<and>
        op_AttemptCount row' = op_AttemptCount row \<and> op_Input row' = op_Input row \<and>
        (if IsTerminal (op_Status row') then delayed (redis_state p') = delayed (redis_state p)
         else op_AttemptCount row < op_MaxRetries row \<and>
           delayed (redis_state p') =
             delayed (redis_zadd (retry_ready row (clock p)) (enc (retry_job row (clock p)))
               (redis_state p))))"

lemma freed_fields [simp]: "main_queue (freed t r) = main_queue r" "delayed (freed t r) = delayed r"
  by (simp_all add: freed_def)

lemma finished_ids [simp]:
  "at_ID (finished_bad a req n b) = at_ID b" "at_ID (finished_ok a req n b) = at_ID b"
  by (simp_all add: finished_bad_def finished_ok_def)

lemma image_at_ID_map: "(\<And>b. at_ID (f b) = at_ID b) \<Longrightarrow> at_ID ` set (map f bs) = at_ID ` set bs"
  by (simp add: image_image)

definition running_at :: "uuid \<Rightarrow> operation \<Rightarrow> platform world \<Rightarrow> bool" where
  "running_at i row w \<longleftrightarrow>
     quiet w \<and> reachable (store w) \<and> row \<in> set (operations (store w)) \<and> op_ID row = i \<and>
     op_Status row = StatusRunning"

lemma running_completes:
  assumes "running_at i row w"
  shows "completes (worker_request (UuidText i) (Some req)) i (case ca_AttemptID req of UuidText a \<Rightarrow> a)
    req row (w\<lparr>pos := n\<rparr>) \<longleftrightarrow> (\<exists>a. ca_AttemptID req = UuidText a)"
  using assms schema.at_reachable
  by (auto simp: completes_def running_at_def worker_request_def split: idtext.splits)

definition bad_report :: "uuid \<Rightarrow> string \<Rightarrow> string \<Rightarrow> completeAttemptReq" where
  "bad_report aid cat det =
     \<lparr>ca_AttemptID = UuidText aid, ca_Success = False, ca_Output = None, ca_Provider = [],
      ca_LatencyMs = 0, ca_ErrorCategory = cat, ca_ErrorDetail = take 2000 det\<rparr>"

lemma bad_report_fields [simp]:
  "ca_AttemptID (bad_report aid cat det) = UuidText aid" "ca_Success (bad_report aid cat det) = False"
  "ca_ErrorCategory (bad_report aid cat det) = cat" "ca_ErrorDetail (bad_report aid cat det) = take 2000 det"
  by (simp_all add: bad_report_def)

lemma complete_attempt_failure_effect:
  fixes aid :: uuid and cat det :: string
  assumes "running_at i row w"
  defines "req \<equiv> bad_report aid cat det"
  defines "s \<equiv> decided req row"
  obtains w' where "complete_attempt_failure E x (UuidText i) aid cat det w =
      (Inr (), if s = StatusRetrying then [] else [GoNotifyTerminalFailure (op_TenantID row) i s], w')"
    and "moves platform_step w w'"
    and "store w' = (store w)\<lparr>
        operations := map (failed_row i s (take 2000 det) (pg_now (store w))) (operations (store w)),
        operation_attempts := map (finished_bad aid req (pg_now (store w))) (operation_attempts (store w)),
        redis_state := retried (x_job x) req row (clock (store w))
          (freed (op_TenantID row) (redis_state (store w)))\<rparr>"
proof -
  let ?v = "w\<lparr>pos := Suc (pos w)\<rparr>"
  have q: "quiet w" using assms(1) by (simp add: running_at_def)
  have c: "completes (worker_request (UuidText i) (Some req)) i aid req row ?v"
    using running_completes [OF assms(1), of req] by (simp add: req_def)
  obtain resp tasks w' where h: "completeAttempt (x_jsonb x) (x_job x)
      (worker_request (UuidText i) (Some req)) ?v = ((resp, tasks), w')" by (metis prod_cases3 prod.collapse)
  note f = completeAttempt_fails [OF c, of "x_jsonb x" "x_job x", unfolded h, folded s_def]
  have r: "complete_attempt_failure E x (UuidText i) aid cat det w = report E x (UuidText i) req w"
    by (simp add: complete_attempt_failure_def req_def bad_report_def)
  have e: "complete_attempt_failure E x (UuidText i) aid cat det w = (Inr (), tasks, w')"
    unfolding r report_quiet [OF q h, of E] using f by (simp add: req_def)
  have "moves platform_step w w'"
    using full.complete_attempt_failure_moves [OF quiet_tame [OF q], of E x "UuidText i" aid cat det]
    by (simp add: e)
  with e f show thesis by (intro that [of w']) (simp_all add: req_def)
qed

lemma complete_attempt_failure_quiet:
  assumes "running_at i row w"
  shows "\<exists>tasks w'. complete_attempt_failure E x (UuidText i) aid cat det w = (Inr (), tasks, w') \<and>
    moves platform_step w w' \<and> settled (x_job x) row (store w) (store w')"
proof -
  let ?req = "bad_report aid cat det"
  obtain tasks w' where r: "complete_attempt_failure E x (UuidText i) aid cat det w = (Inr (), tasks, w')"
    and m: "moves platform_step w w'"
    and st: "store w' = (store w)\<lparr>
        operations := map (failed_row i (decided ?req row) (take 2000 det) (pg_now (store w)))
          (operations (store w)),
        operation_attempts := map (finished_bad aid ?req (pg_now (store w))) (operation_attempts (store w)),
        redis_state := retried (x_job x) ?req row (clock (store w))
          (freed (op_TenantID row) (redis_state (store w)))\<rparr>"
    using complete_attempt_failure_effect [OF assms, of E x aid cat det] by metis
  let ?row = "failed_row i (decided ?req row) (take 2000 det) (pg_now (store w)) row"
  have row: "?row \<in> set (operations (store w'))" "op_Status ?row = decided ?req row"
    "op_ID ?row = op_ID row" "op_MaxRetries ?row = op_MaxRetries row"
    "op_AttemptCount ?row = op_AttemptCount row" "op_Input ?row = op_Input row"
    using assms by (auto simp: st running_at_def failed_row_def)
  have "settled (x_job x) row (store w) (store w')"
    unfolding settled_def
  proof (intro conjI bexI [OF _ row(1)])
    show "if IsTerminal (op_Status ?row)
      then delayed (redis_state (store w')) = delayed (redis_state (store w))
      else op_AttemptCount row < op_MaxRetries row \<and>
        delayed (redis_state (store w')) =
          delayed (redis_zadd (retry_ready row (clock (store w)))
            (x_job x (retry_job row (clock (store w)))) (redis_state (store w)))"
      by (simp add: row(2) decided_terminal st retried_def will_retry_def redis_zadd_def)
  qed (simp_all add: st row image_image retried_def redis_zadd_def)
  with r m show ?thesis by blast
qed

lemma running_moves:
  assumes "running_at i row w" and "moves platform_step w w'" and "operations (store w') = operations (store w)"
  shows "running_at i row w'"
  using assms moves_quiet reachable_moves [OF _ assms(2)] by (auto simp: running_at_def)

lemma zadd_delayed_cong:
  "delayed r = delayed r' \<Longrightarrow> delayed (redis_zadd s m r) = delayed (redis_zadd s m r')"
  by (simp add: redis_zadd_def)

lemma settled_freed:
  "settled enc row (p\<lparr>redis_state := freed t (redis_state p)\<rparr>) p' = settled enc row p p'"
proof -
  have "delayed (redis_zadd s m (freed t r)) = delayed (redis_zadd s m r)" for s m r
    by (rule zadd_delayed_cong) simp
  then show ?thesis by (simp add: settled_def)
qed

text \<open>A success: recorded, or refused with 500 because the database does not take the output.\<close>

lemma complete_attempt_success_quiet:
  assumes "running_at i row w"
  obtains r tasks w' where
    "complete_attempt_success E x (UuidText i) aid out prov lat w = (r, tasks, w')"
    and "moves platform_step w w'"
    and "r = Inr () \<and> settled (x_job x) row (store w) (store w') \<or>
      (\<exists>msg. r = Inl (OtherError msg)) \<and> tasks = [] \<and>
      (store w' = store w \<or>
       store w' = (store w)\<lparr>redis_state := freed (op_TenantID row) (redis_state (store w))\<rparr>)"
proof -
  obtain r tasks w' where
    h: "complete_attempt_success E x (UuidText i) aid out prov lat w = (r, tasks, w')"
    by (metis prod_cases3)
  have q: "quiet w" using assms by (simp add: running_at_def)
  have m: "moves platform_step w w'"
    using full.complete_attempt_success_moves [OF quiet_tame [OF q], of E x "UuidText i" aid out prov lat]
    by (simp add: h)
  show thesis
  proof (cases "json_dumps E out")
    case None
    then show thesis using h m by (intro that [OF h m]) (auto simp: complete_attempt_success_def)
  next
    case (Some body)
    let ?req = "\<lparr>ca_AttemptID = UuidText aid, ca_Success = True, ca_Output = Some body,
             ca_Provider = prov, ca_LatencyMs = lat, ca_ErrorCategory = [], ca_ErrorDetail = []\<rparr>"
    let ?v = "w\<lparr>pos := Suc (pos w)\<rparr>"
    have c: "completes (worker_request (UuidText i) (Some ?req)) i aid ?req row ?v"
      using running_completes [OF assms, of ?req] by simp
    obtain resp ts v' where g: "completeAttempt (x_jsonb x) (x_job x)
        (worker_request (UuidText i) (Some ?req)) ?v = ((resp, ts), v')" by (metis prod_cases3 prod.collapse)
    have rep: "r = (if r_status resp < 400 then Inr () else Inl (OtherError (error_text E (pos v'))))"
      "tasks = ts" "w' = v'"
      using h report_quiet [OF q g, of E] by (simp_all add: complete_attempt_success_def Some)
    show thesis
    proof (cases "output_ok (x_jsonb x) ?req")
      case True
      let ?row = "succeeded_row i (x_jsonb x body) (pg_now (store w)) row"
      from completeAttempt_succeeds [OF c _ True, of "x_job x"]
      have st: "resp = WriteJSON 200 (StatusBody StatusSucceeded)"
        "store v' = (store w)\<lparr>operations := map (succeeded_row i (x_jsonb x body) (pg_now (store w)))
            (operations (store w)),
          operation_attempts := map (finished_ok aid ?req (pg_now (store w)))
            (operation_attempts (store w)),
          redis_state := freed (op_TenantID row) (redis_state (store w))\<rparr>"
        using g by simp_all
      have row: "?row \<in> set (operations (store v'))" "IsTerminal (op_Status ?row)"
        "op_ID ?row = op_ID row" "op_MaxRetries ?row = op_MaxRetries row"
        "op_AttemptCount ?row = op_AttemptCount row" "op_Input ?row = op_Input row"
        using assms by (auto simp: st(2) running_at_def succeeded_row_def IsTerminal_iff)
      have "settled (x_job x) row (store w) (store v')"
        unfolding settled_def
        by (intro conjI bexI [OF _ row(1)]) (simp_all add: st(2) row image_image)
      then show thesis using rep st(1) by (intro that [OF h m]) simp
    next
      case False
      from completeAttempt_rejected [OF c _ False, of "x_job x"]
      have "r_status resp = 500" "ts = []"
        "store v' = (store w)\<lparr>redis_state := freed (op_TenantID row) (redis_state (store w))\<rparr>"
        using g by simp_all
      then show thesis using rep by (intro that [OF h m]) simp
    qed
  qed
qed

text \<open>
  Whatever the providers answer, a running attempt is settled: an exception is caught, with nothing
  changed since the attempt began but the slot, and reported.
\<close>

definition barely_moved :: "operation \<Rightarrow> platform world \<Rightarrow> platform world \<Rightarrow> bool" where
  "barely_moved row w w' \<longleftrightarrow>
     moves platform_step w w' \<and>
     (store w' = store w \<or>
      store w' = (store w)\<lparr>redis_state := freed (op_TenantID row) (redis_state (store w))\<rparr>)"

lemma failure_settles:
  assumes "running_at i row w" and "barely_moved row w w1"
  shows "\<exists>tasks w'. complete_attempt_failure E x (UuidText i) aid cat det w1 = (Inr (), tasks, w') \<and>
      moves platform_step w w' \<and> settled (x_job x) row (store w) (store w')"
proof -
  have m: "moves platform_step w w1" using assms(2) by (simp add: barely_moved_def)
  have "running_at i row w1" using running_moves [OF assms(1) m] assms(2) by (auto simp: barely_moved_def)
  then obtain tasks w' where
    "complete_attempt_failure E x (UuidText i) aid cat det w1 = (Inr (), tasks, w')"
    and m2: "moves platform_step w1 w'" and "settled (x_job x) row (store w1) (store w')"
    using complete_attempt_failure_quiet [of i row w1 E x aid cat det] by blast
  moreover have "settled (x_job x) row (store w1) = settled (x_job x) row (store w)"
    using assms(2) by (auto simp: barely_moved_def settled_freed)
  moreover have "moves platform_step w w'" using m m2 by (rule moves_trans)
  ultimately show ?thesis by metis
qed

lemma exception_settles:
  assumes "running_at i row w" and "barely_moved row w w2"
    and t: "(case process_with_fallback E ty input w of
       (Inl e, w1) \<Rightarrow> (Inl e, [], w1)
     | (Inr (output, provider, latency), w1) \<Rightarrow>
         complete_attempt_success E x (UuidText i) aid output provider latency w1) = (Inl e, ts, w2)"
  shows "\<exists>tasks w'. finish_attempt E x (UuidText i) aid ty input w = (Inr (), tasks, w') \<and>
    moves platform_step w w' \<and> settled (x_job x) row (store w) (store w')"
proof (cases e)
  case (ProviderError msg cat)
  show ?thesis
    using failure_settles [OF assms(1,2), of E x aid cat msg]
    by (auto simp: finish_attempt_def t ProviderError)
next
  case (OtherError msg)
  show ?thesis
    using failure_settles [OF assms(1,2), of E x aid "''transient''" "''worker exception: '' @ msg"]
    by (auto simp: finish_attempt_def t OtherError)
qed

lemma finish_attempt_quiet:
  assumes "running_at i row w"
  shows "\<exists>tasks w'. finish_attempt E x (UuidText i) aid ty input w = (Inr (), tasks, w') \<and>
    moves platform_step w w' \<and> settled (x_job x) row (store w) (store w')"
proof -
  have q: "quiet w" using assms by (simp add: running_at_def)
  obtain c w1 where p: "process_with_fallback E ty input w = (c, w1)" by fastforce
  have w1: "store w1 = store w" "moves platform_step w w1"
    using try_providers_quiet [OF q p [unfolded process_with_fallback_def]] by (simp_all add: moves_def)
  have r1: "running_at i row w1" using running_moves [OF assms w1(2)] w1(1) by simp
  show ?thesis
  proof (cases c)
    case (Inl e)
    show ?thesis by (rule exception_settles [OF assms, of w1]) (simp_all add: p Inl w1 barely_moved_def)
  next
    case (Inr out)
    obtain j pr lat where out: "out = (j, pr, lat)" by (metis prod_cases3)
    obtain r tasks w2 where
      s: "complete_attempt_success E x (UuidText i) aid j pr lat w1 = (r, tasks, w2)"
      and m2: "moves platform_step w1 w2"
      and alt: "r = Inr () \<and> settled (x_job x) row (store w1) (store w2) \<or>
        (\<exists>msg. r = Inl (OtherError msg)) \<and> tasks = [] \<and>
        (store w2 = store w1 \<or>
         store w2 = (store w1)\<lparr>redis_state := freed (op_TenantID row) (redis_state (store w1))\<rparr>)"
      using complete_attempt_success_quiet [OF r1, of E x aid j pr lat] by blast
    have m: "moves platform_step w w2" using w1(2) m2 by (rule moves_trans)
    show ?thesis
    proof (cases r)
      case (Inl e)
      show ?thesis
        by (rule exception_settles [OF assms, of w2 _ _ _ _ _ e tasks])
          (use alt p s w1(1) Inl m in \<open>auto simp: Inr out barely_moved_def\<close>)
    next
      case ok: (Inr u)
      then show ?thesis using alt p s m w1(1) by (simp add: finish_attempt_def Inr out)
    qed
  qed
qed

section \<open>Rounds\<close>

text \<open>
  A shift: a round of the worker, the goroutines it has caused, a while in which nothing happens, and
  a tick of the retry scheduler. The shifts end when the worker does.
\<close>

definition shift ::
    "surroundings \<Rightarrow> ext \<Rightarrow> int \<Rightarrow> platform world \<Rightarrow> (py_exn + unit) \<times> platform world" where
  "shift E x d w =
     (case worker_round E x w of
        (r, tasks, w1) \<Rightarrow>
          (let w2 = fold (run_task (x_raw x) (post_to_usage x)) tasks w1;
               w3 = w2\<lparr>store := (store w2)\<lparr>clock := clock (store w2) + d\<rparr>\<rparr>
           in (r, retryScheduler_tick w3)))"

fun shifts ::
    "surroundings \<Rightarrow> ext \<Rightarrow> int list \<Rightarrow> platform world \<Rightarrow> (py_exn + unit) \<times> platform world" where
  "shifts E x [] w = (Inr (), w)"
| "shifts E x (d # ds) w =
     (case shift E x d w of (Inl e, w1) \<Rightarrow> (Inl e, w1) | (Inr _, w1) \<Rightarrow> shifts E x ds w1)"

lemma shift_moves:
  assumes "tame platform_step w" and "0 \<le> d"
  shows "moves platform_step w (snd (shift E x d w))"
proof -
  obtain r tasks w1 where r: "worker_round E x w = (r, tasks, w1)" by (metis prod_cases3)
  then have m1: "moves platform_step w w1" using full.worker_round_moves [OF assms(1), of E x] by simp
  let ?w2 = "fold (run_task (x_raw x) (post_to_usage x)) tasks w1"
  let ?w3 = "?w2\<lparr>store := (store ?w2)\<lparr>clock := clock (store ?w2) + d\<rparr>\<rparr>"
  have m2: "moves platform_step w ?w2"
    using m1 full.run_tasks_moves [OF moves_tame [OF m1 assms(1)]] by (rule moves_trans)
  have "platform_step p (p\<lparr>clock := clock p + d\<rparr>)" for p
    using assms(2) by (intro platform_step.guarded guarded_step.time_passes) simp
  then have "moves platform_step ?w2 ?w3" by (auto simp: moves_def)
  with m2 have m3: "moves platform_step w ?w3" by (rule moves_trans)
  have "moves platform_step w (retryScheduler_tick ?w3)"
    using m3 full.retryScheduler_tick_moves [OF moves_tame [OF m3 assms(1)], of undefined]
    by (auto intro: moves_trans)
  then show ?thesis by (simp add: shift_def r Let_def)
qed

lemma shifts_moves:
  "tame platform_step w \<Longrightarrow> \<forall>d\<in>set ds. 0 \<le> d \<Longrightarrow> moves platform_step w (snd (shifts E x ds w))"
proof (induction ds arbitrary: w)
  case Nil
  then show ?case by simp
next
  case (Cons d ds)
  obtain r w1 where r: "shift E x d w = (r, w1)" by fastforce
  then have m: "moves platform_step w w1" using shift_moves [of w d E x] Cons.prems by simp
  then show ?case
    using moves_trans [OF m Cons.IH [OF moves_tame [OF m Cons.prems(1)]]] Cons.prems r
    by (cases r) simp_all
qed

definition waiting :: "surroundings \<Rightarrow> uuid \<Rightarrow> operation \<Rightarrow> platform world \<Rightarrow> bool" where
  "waiting E i row w \<longleftrightarrow>
     quiet w \<and> reachable (store w) \<and> 0 \<le> clock (store w) \<and>
     row \<in> set (operations (store w)) \<and> op_ID row = i \<and> \<not> IsTerminal (op_Status row) \<and>
     0 \<le> op_AttemptCount row \<and> op_AttemptCount row < 32 \<and> op_MaxRetries row \<le> 32 \<and>
     (\<exists>v. load_input E (op_Input row) = Inr v) \<and>
     (\<exists>m. main_queue (redis_state (store w)) = [m] \<and> envelope_of E m = JobFor (UuidText i)) \<and>
     delayed (redis_state (store w)) = []"

definition finished :: "uuid \<Rightarrow> int \<Rightarrow> platform world \<Rightarrow> bool" where
  "finished i n w \<longleftrightarrow>
     quiet w \<and> main_queue (redis_state (store w)) = [] \<and> delayed (redis_state (store w)) = [] \<and>
     (\<exists>row\<in>set (operations (store w)).
        op_ID row = i \<and> IsTerminal (op_Status row) \<and> op_AttemptCount row \<le> n)"

lemma brpop_quiet:
  assumes "quiet w"
  shows "call brpop_stmt w =
    (Inr (fst (redis_brpop (redis_state (store w)))),
     w\<lparr>pos := Suc (pos w),
       store := (store w)\<lparr>redis_state := snd (redis_brpop (redis_state (store w)))\<rparr>\<rparr>)"
  using assms by (simp add: call_quiet brpop_stmt_def redis_cmd_def case_prod_beta)

lemma terminal_listed:
  "op_Status row \<in> {''SUCCEEDED'', ''FAILED'', ''DEAD_LETTERED'', ''CANCELLED''} \<longleftrightarrow>
   IsTerminal (op_Status row)"
  by (auto simp: IsTerminal_iff status_defs)

lemma counter_popped [simp]: "counter t (r\<lparr>main_queue := ms\<rparr>) = counter t r"
  by (simp add: counter_def)

text \<open>A round on a waiting operation starts an attempt and finishes it.\<close>

lemma worker_round_starts:
  assumes "waiting E i row w" and "load_input E (op_Input row) = Inr input"
    and "fresh (tape w (pos w + 4)) \<notin> at_ID ` set (operation_attempts (store w))"
  defines "p \<equiv> store w" and "u \<equiv> fresh (tape w (pos w + 4))" and "n \<equiv> op_AttemptCount row + 1"
    and "t \<equiv> op_TenantID row"
  obtains w1 where
    "worker_round E x w = finish_attempt E x (UuidText i) u (op_OpType row) input w1"
    and "moves platform_step w w1" and "pos w + 4 < pos w1"
    and "running_at i (started_row i n (pg_now p) row) w1"
    and "store w1 = p\<lparr>operations := map (started_row i n (pg_now p)) (operations p),
        operation_attempts := operation_attempts p @
          [new_attempt u i \<lparr>sa_WorkerID = WORKER_ID E, sa_AttemptNumber = n\<rparr> (pg_now p)],
        redis_state := set_counter t (counter t (redis_state p) + 1) ((redis_state p)\<lparr>main_queue := []\<rparr>)\<rparr>"
proof -
  have q: "quiet w" and re: "reachable (store w)" and row: "row \<in> set (operations (store w))"
    and id: "op_ID row = i" and nt: "\<not> IsTerminal (op_Status row)"
    and n: "int4_ok (op_AttemptCount row + 1)"
    using assms(1) by (auto simp: waiting_def int4_ok_def)
  obtain m where m: "main_queue (redis_state (store w)) = [m]" "envelope_of E m = JobFor (UuidText i)"
    using assms(1) by (auto simp: waiting_def)
  let ?r = "redis_state (store w)"
  have b: "redis_brpop ?r = (Some m, ?r\<lparr>main_queue := []\<rparr>)" using m by (simp add: redis_brpop_def)
  define v where "v = w\<lparr>pos := Suc (pos w), store := (store w)\<lparr>redis_state := ?r\<lparr>main_queue := []\<rparr>\<rparr>\<rparr>"
  have pop: "call brpop_stmt w = (Inr (Some m), v)" using brpop_quiet [OF q] b by (simp add: v_def)
  have v: "quiet v" "tape v = tape w" "pos v = Suc (pos w)" "operations (store v) = operations (store w)"
    using q by (simp_all add: v_def)
  have m0: "moves platform_step w v"
    using full.brpop_moves [OF quiet_tame [OF q]] by (simp add: pop)
  then have sv: "schema_ok (store v)" using reachable_moves [OF re] schema.at_reachable by blast
  have get: "get_operation E (UuidText i) v = (Inr row, v\<lparr>pos := pos w + 3\<rparr>)"
    using get_operation_quiet [of v row i E] v sv row id by (simp add: numeral_3_eq_3)
  define y where "y = v\<lparr>pos := pos w + 3\<rparr>"
  have y: "quiet y" "schema_ok (store y)" "row \<in> set (operations (store y))"
    "Suc (pos y) = pos w + 4" "tape y = tape w"
    using v sv row by (simp_all add: y_def)
  have new: "fresh (tape y (Suc (pos y))) \<notin> at_ID ` set (operation_attempts (store y))"
    unfolding y(4,5) using assms(3) by (simp add: y_def v_def)
  obtain w1 :: "platform world" where
    st: "start_attempt E (UuidText i) (WORKER_ID E) n y = (Inr u, w1)"
    and q1: "quiet w1" and p1: "pos w + 4 < pos w1"
    and s1: "store w1 = (store y)\<lparr>
        operations := map (started_row i n (pg_now (store y))) (operations (store y)),
        operation_attempts := operation_attempts (store y) @
          [new_attempt u i \<lparr>sa_WorkerID = WORKER_ID E, sa_AttemptNumber = n\<rparr> (pg_now (store y))],
        redis_state := set_counter t (counter t (redis_state (store y)) + 1) (redis_state (store y))\<rparr>"
    using start_attempt_quiet [OF y(1-3) id n new, of E "WORKER_ID E", unfolded y(4,5)]
    unfolding u_def n_def t_def by blast
  have "moves platform_step y w1"
    using full.start_attempt_moves [OF quiet_tame [OF y(1)], of E "UuidText i" "WORKER_ID E" n] st by simp
  moreover have "moves platform_step v y" using v by (simp add: moves_def y_def)
  ultimately have m1: "moves platform_step w w1" using m0 by (blast intro: moves_trans)
  show thesis
  proof (rule that [OF _ m1 p1])
    show "worker_round E x w = finish_attempt E x (UuidText i) u (op_OpType row) input w1"
      using nt terminal_listed [of row] st
      by (simp add: worker_round_def pop m(2) process_job_def get assms(2) n_def flip: y_def)
    show "store w1 = p\<lparr>operations := map (started_row i n (pg_now p)) (operations p),
        operation_attempts := operation_attempts p @
          [new_attempt u i \<lparr>sa_WorkerID = WORKER_ID E, sa_AttemptNumber = n\<rparr> (pg_now p)],
        redis_state := set_counter t (counter t (redis_state p) + 1) ((redis_state p)\<lparr>main_queue := []\<rparr>)\<rparr>"
      by (simp add: s1 p_def y_def v_def)
    then show "running_at i (started_row i n (pg_now p) row) w1"
      using q1 row id reachable_moves [OF re m1]
      by (auto simp: running_at_def started_row_def p_def)
  qed
qed

lemma worker_round_waiting:
  assumes "waiting E i row w"
    and "fresh (tape w (pos w + 4)) \<notin> at_ID ` set (operation_attempts (store w))"
  defines "row1 \<equiv> started_row i (op_AttemptCount row + 1) (pg_now (store w)) row"
  shows "\<exists>tasks w1 p1. worker_round E x w = (Inr (), tasks, w1) \<and> moves platform_step w w1 \<and>
    pos w + 4 < pos w1 \<and> clock p1 = clock (store w) \<and>
    at_ID ` set (operation_attempts p1) =
      insert (fresh (tape w (pos w + 4))) (at_ID ` set (operation_attempts (store w))) \<and>
    main_queue (redis_state p1) = [] \<and> delayed (redis_state p1) = [] \<and>
    settled (x_job x) row1 p1 (store w1)"
proof -
  obtain input where "load_input E (op_Input row) = Inr input" using assms(1) by (auto simp: waiting_def)
  from worker_round_starts [OF assms(1) this assms(2), of x]
  obtain w1 where r: "worker_round E x w =
      finish_attempt E x (UuidText i) (fresh (tape w (pos w + 4))) (op_OpType row) input w1"
    and m1: "moves platform_step w w1" and p1: "pos w + 4 < pos w1" and run: "running_at i row1 w1"
    and s1: "store w1 = (store w)\<lparr>
        operations := map (started_row i (op_AttemptCount row + 1) (pg_now (store w))) (operations (store w)),
        operation_attempts := operation_attempts (store w) @
          [new_attempt (fresh (tape w (pos w + 4))) i
             \<lparr>sa_WorkerID = WORKER_ID E, sa_AttemptNumber = op_AttemptCount row + 1\<rparr> (pg_now (store w))],
        redis_state := set_counter (op_TenantID row) (counter (op_TenantID row) (redis_state (store w)) + 1)
          ((redis_state (store w))\<lparr>main_queue := []\<rparr>)\<rparr>"
    unfolding row1_def by metis
  obtain tasks w2 where
    f: "finish_attempt E x (UuidText i) (fresh (tape w (pos w + 4))) (op_OpType row) input w1 =
        (Inr (), tasks, w2)"
    and m2: "moves platform_step w1 w2" and se: "settled (x_job x) row1 (store w1) (store w2)"
    using finish_attempt_quiet [OF run] by blast
  have "pos w + 4 < pos w2" using p1 m2 by (simp add: moves_def)
  moreover have "delayed (redis_state (store w)) = []" using assms(1) by (simp add: waiting_def)
  ultimately show ?thesis
    using moves_trans [OF m1 m2] se r f
    by (intro exI [of _ tasks] exI [of _ w2] exI [of _ "store w1"]) (simp add: s1 new_attempt_def)
qed

lemma retry_ready_bounds:
  assumes "0 \<le> op_AttemptCount row" and "op_AttemptCount row \<le> 32" and "0 \<le> c" and "72 * second \<le> d"
  shows "0 \<le> retry_ready row c \<and> retry_ready row c \<le> unix (c + d)"
proof -
  let ?b = "BackoffDelay (op_AttemptCount row) c"
  have "0 \<le> ?b" "?b \<le> 72 * second"
    using BackoffDelay_near_base [OF assms(1-3)] base_delay_bounds [OF assms(1,2)]
    by (auto simp: second_def)
  then have "0 \<le> c + ?b" "c + ?b \<le> c + d" using assms(3,4) by auto
  then show ?thesis
    by (simp add: retry_ready_def unix_def second_def zdiv_mono1 pos_imp_zdiv_nonneg_iff)
qed

lemma zadd_promoted:
  assumes "main_queue r = []" and "delayed r = delayed (redis_zadd s m r0)" and "delayed r0 = []"
    and "0 \<le> s" and "s \<le> n"
  defines "r' \<equiv> promote (redis_zrangebyscore 0 n r) r"
  shows "main_queue r' = [m] \<and> delayed r' = []"
proof -
  have d: "delayed r = [ZEntry s m]" using assms(2,3) by (simp add: redis_zadd_def)
  then have "redis_zrangebyscore 0 n r = [m]"
    using assms(4,5) by (simp add: redis_zrangebyscore_def)
  then show ?thesis by (simp add: r'_def promote_main_queue promote_delayed assms(1) d)
qed

text \<open>A retry scheduled at the time \<open>c\<close> is in the queue after a tick 72 seconds later.\<close>

lemma retry_comes_back:
  assumes "main_queue r = []" and "delayed r = delayed (redis_zadd (retry_ready row c) m r0)"
    and "delayed r0 = []" and "0 \<le> op_AttemptCount row" and "op_AttemptCount row \<le> 32" and "0 \<le> c"
    and "72 * second \<le> d"
  defines "r' \<equiv> promote (redis_zrangebyscore 0 (unix (c + d)) r) r"
  shows "main_queue r' = [m]" and "delayed r' = []"
  using zadd_promoted [OF assms(1-3), of "unix (c + d)"] retry_ready_bounds [OF assms(4-7)]
  by (simp_all add: r'_def)

lemma promote_nothing: "delayed r = [] \<Longrightarrow> promote (redis_zrangebyscore 0 n r) r = r"
  by (simp add: redis_zrangebyscore_def promote_def)

text \<open>The end of a shift: what is left after the round, at the later time, and the promotion.\<close>

lemma shift_rest:
  assumes "worker_round E x w = (r, tasks, w1)" and "quiet w1"
  shows "\<exists>w'. shift E x d w = (r, w') \<and> quiet w' \<and> tape w' = tape w1 \<and> pos w1 \<le> pos w' \<and>
    operations (store w') = operations (store w1) \<and>
    operation_attempts (store w') = operation_attempts (store w1) \<and>
    clock (store w') = clock (store w1) + d \<and>
    usage_events (store w') =
      usage_events (store (fold (run_task (x_raw x) (post_to_usage x)) tasks w1)) \<and>
    redis_state (store w') =
      promote (redis_zrangebyscore 0 (unix (clock (store w1) + d)) (redis_state (store w1)))
        (redis_state (store w1))"
proof -
  define w2 where "w2 = fold (run_task (x_raw x) (post_to_usage x)) tasks w1"
  define w3 where "w3 = w2\<lparr>store := (store w2)\<lparr>clock := clock (store w2) + d\<rparr>\<rparr>"
  define w' where "w' = retryScheduler_tick w3"
  note t = run_tasks_quiet [OF assms(2) w2_def [symmetric]]
  have w3: "quiet w3" "tape w3 = tape w1" "pos w1 \<le> pos w3"
    "operations (store w3) = operations (store w1)"
    "operation_attempts (store w3) = operation_attempts (store w1)"
    "clock (store w3) = clock (store w1) + d" "redis_state (store w3) = redis_state (store w1)"
    "usage_events (store w3) = usage_events (store w2)"
    using t by (simp_all add: w3_def usage_frame_def)
  have m: "moves platform_step w3 w'"
    using full.retryScheduler_tick_moves [OF quiet_tame [OF w3(1)], of undefined] by (simp add: w'_def)
  have "store w' = (store w3)\<lparr>redis_state :=
      promote (redis_zrangebyscore 0 (unix (clock (store w3))) (redis_state (store w3)))
        (redis_state (store w3))\<rparr>"
    using PromoteDueRetries_quiet(2) [OF w3(1)] by (simp add: retryScheduler_tick_def w'_def)
  moreover have "shift E x d w = (r, w')"
    by (simp add: shift_def assms(1) Let_def w'_def w3_def w2_def)
  moreover have "quiet w'" using moves_quiet [OF m w3(1)] .
  moreover have "tape w' = tape w1" "pos w1 \<le> pos w'" using m w3(2,3) by (simp_all add: moves_def)
  ultimately show ?thesis using w3 w2_def by (intro exI [of _ w']) simp
qed

lemma shift_waiting:
  assumes w: "waiting E i row w"
    and f: "fresh (tape w (pos w + 4)) \<notin> at_ID ` set (operation_attempts (store w))"
    and enc: "\<And>j. envelope_of E (x_job x j) = JobFor (UuidText (j_OperationID j))"
    and d: "72 * second \<le> d"
  defines "c \<equiv> op_AttemptCount row + 1"
  shows "\<exists>w'. shift E x d w = (Inr (), w') \<and> tape w' = tape w \<and> pos w + 4 < pos w' \<and>
    at_ID ` set (operation_attempts (store w')) =
      insert (fresh (tape w (pos w + 4))) (at_ID ` set (operation_attempts (store w))) \<and>
    (finished i c w' \<or>
     (\<exists>row'. waiting E i row' w' \<and> op_AttemptCount row' = c \<and>
        op_MaxRetries row' = op_MaxRetries row \<and> c < op_MaxRetries row))"
proof -
  define row1 where "row1 = started_row i c (pg_now (store w)) row"
  have row1: "op_ID row1 = i" "op_AttemptCount row1 = c" "op_MaxRetries row1 = op_MaxRetries row"
    "op_Input row1 = op_Input row"
    using w by (auto simp: row1_def started_row_def waiting_def)
  obtain tasks w1 p1 where r: "worker_round E x w = (Inr (), tasks, w1)"
    and m1: "moves platform_step w w1" and pos1: "pos w + 4 < pos w1" and c1: "clock p1 = clock (store w)"
    and ids: "at_ID ` set (operation_attempts p1) =
      insert (fresh (tape w (pos w + 4))) (at_ID ` set (operation_attempts (store w)))"
    and empty: "main_queue (redis_state p1) = []" "delayed (redis_state p1) = []"
    and se: "settled (x_job x) row1 p1 (store w1)"
    using worker_round_waiting [OF w f] unfolding row1_def c_def by blast
  have q: "quiet w" "reachable (store w)" "0 \<le> clock (store w)" using w by (simp_all add: waiting_def)
  have q1: "quiet w1" using moves_quiet [OF m1 q(1)] .
  obtain w' where s: "shift E x d w = (Inr (), w')" and q': "quiet w'" and t': "tape w' = tape w1"
    and pos': "pos w1 \<le> pos w'" and ops': "operations (store w') = operations (store w1)"
    and att': "operation_attempts (store w') = operation_attempts (store w1)"
    and clock': "clock (store w') = clock (store w1) + d"
    and red': "redis_state (store w') =
      promote (redis_zrangebyscore 0 (unix (clock (store w1) + d)) (redis_state (store w1)))
        (redis_state (store w1))"
    using shift_rest [OF r q1, of d] by blast
  have d0: "0 \<le> d" using d by (simp add: second_def)
  have "moves platform_step w w'" using shift_moves [OF quiet_tame [OF q(1)] d0, of E x] s by simp
  then have re': "reachable (store w')" using reachable_moves [OF q(2)] by blast
  have clock1: "clock (store w1) = clock (store w)" using se c1 by (simp add: settled_def)
  have main1: "main_queue (redis_state (store w1)) = []" using se empty by (simp add: settled_def)
  obtain row' where row': "row' \<in> set (operations (store w1))" "op_ID row' = i"
    "op_MaxRetries row' = op_MaxRetries row" "op_AttemptCount row' = c" "op_Input row' = op_Input row"
    and alt: "if IsTerminal (op_Status row') then delayed (redis_state (store w1)) = []
      else c < op_MaxRetries row \<and> delayed (redis_state (store w1)) =
        delayed (redis_zadd (retry_ready row1 (clock (store w)))
          (x_job x (retry_job row1 (clock (store w)))) (redis_state p1))"
    using se [unfolded settled_def row1 empty c1] by blast
  have "finished i c w' \<or>
     (\<exists>row'. waiting E i row' w' \<and> op_AttemptCount row' = c \<and>
        op_MaxRetries row' = op_MaxRetries row \<and> c < op_MaxRetries row)"
  proof (cases "IsTerminal (op_Status row')")
    case True
    then have "redis_state (store w') = redis_state (store w1)" using alt red' promote_nothing by simp
    then have "finished i c w'"
      using True alt main1 q' row' ops' by (auto simp: finished_def)
    then show ?thesis ..
  next
    case False
    then have cm: "c < op_MaxRetries row" and del: "delayed (redis_state (store w1)) =
        delayed (redis_zadd (retry_ready row1 (clock (store w)))
          (x_job x (retry_job row1 (clock (store w)))) (redis_state p1))"
      using alt by simp_all
    have c: "0 \<le> c" "c < 32" using w cm by (auto simp: waiting_def c_def)
    have "main_queue (redis_state (store w')) = [x_job x (retry_job row1 (clock (store w)))]"
      "delayed (redis_state (store w')) = []"
      using retry_comes_back [OF main1 del empty(2), of d] c row1 q(3) d by (simp_all add: red' clock1)
    moreover have "envelope_of E (x_job x (retry_job row1 (clock (store w)))) = JobFor (UuidText i)"
      by (simp add: enc retry_job_def row1)
    ultimately have "waiting E i row' w'"
      using False w q' re' row' ops' c clock' clock1 q(3) d0 by (simp add: waiting_def)
    then show ?thesis using row' cm by blast
  qed
  moreover have "tape w' = tape w" using t' m1 by (simp add: moves_def)
  ultimately show ?thesis using s pos1 pos' ids se att' by (auto simp: settled_def)
qed

text \<open>A shift in which there is nothing to do leaves everything as it is.\<close>

definition as_before :: "platform world \<Rightarrow> platform world \<Rightarrow> bool" where
  "as_before w w' \<longleftrightarrow>
     quiet w' \<and> operations (store w') = operations (store w) \<and>
     operation_attempts (store w') = operation_attempts (store w) \<and>
     usage_events (store w') = usage_events (store w) \<and> redis_state (store w') = redis_state (store w)"

lemma shift_idle:
  assumes "quiet w" and "main_queue (redis_state (store w)) = []" and "delayed (redis_state (store w)) = []"
  shows "\<exists>w'. shift E x d w = (Inr (), w') \<and> as_before w w'"
proof -
  have r: "worker_round E x w = (Inr (), [], w\<lparr>pos := Suc (pos w)\<rparr>)"
    using brpop_quiet [OF assms(1)] assms(2) by (simp add: worker_round_def redis_brpop_def)
  obtain w' where s: "shift E x d w = (Inr (), w')" and "quiet w'"
    and "operations (store w') = operations (store w)"
    and "operation_attempts (store w') = operation_attempts (store w)"
    and "usage_events (store w') = usage_events (store w)"
    and "redis_state (store w') = redis_state (store w)"
    using shift_rest [OF r, of d] assms promote_nothing by auto
  then show ?thesis by (auto simp: as_before_def)
qed

lemma shifts_idle:
  "quiet w \<Longrightarrow> main_queue (redis_state (store w)) = [] \<Longrightarrow> delayed (redis_state (store w)) = [] \<Longrightarrow>
   \<exists>w'. shifts E x ds w = (Inr (), w') \<and> as_before w w'"
proof (induction ds arbitrary: w)
  case Nil
  then show ?case by (simp add: as_before_def)
next
  case (Cons d ds)
  obtain w1 where "shift E x d w = (Inr (), w1)" "as_before w w1"
    using shift_idle [OF Cons.prems, of E x d] by blast
  then show ?case using Cons.IH [of w1] Cons.prems by (auto simp: as_before_def)
qed

lemma shifts_finished:
  assumes "finished i n w"
  shows "\<exists>w'. shifts E x ds w = (Inr (), w') \<and> finished i n w'"
  using shifts_idle [of w E x ds] assms by (auto simp: finished_def as_before_def)

lemma shift_finished: "finished i n w \<Longrightarrow> \<exists>w'. shift E x d w = (Inr (), w') \<and> finished i n w'"
  using shifts_finished [of i n w E x "[d]"] by (auto split: prod.splits sum.splits)

lemma finished_mono: "finished i n w \<Longrightarrow> n \<le> m \<Longrightarrow> finished i m w"
  by (auto simp: finished_def)

text \<open>The id the database draws for the attempt of a shift is not that of an earlier attempt.\<close>

fun unused_ids :: "surroundings \<Rightarrow> ext \<Rightarrow> int list \<Rightarrow> platform world \<Rightarrow> bool" where
  "unused_ids E x [] w \<longleftrightarrow> True"
| "unused_ids E x (d # ds) w \<longleftrightarrow>
     (main_queue (redis_state (store w)) \<noteq> [] \<longrightarrow>
        fresh (tape w (pos w + 4)) \<notin> at_ID ` set (operation_attempts (store w))) \<and>
     unused_ids E x ds (snd (shift E x d w))"

lemma shifts_finish:
  assumes "waiting E i row w" and "\<forall>d\<in>set ds. 72 * second \<le> d"
    and enc: "\<And>j. envelope_of E (x_job x j) = JobFor (UuidText (j_OperationID j))"
    and "max 1 (op_MaxRetries row - op_AttemptCount row) \<le> int (length ds)"
    and "unused_ids E x ds w"
  shows "\<exists>w'. shifts E x ds w = (Inr (), w') \<and>
    finished i (max (op_AttemptCount row + 1) (op_MaxRetries row)) w'"
  using assms(1,2,4,5)
proof (induction ds arbitrary: w row)
  case Nil
  then show ?case by simp
next
  case (Cons d ds)
  have "fresh (tape w (pos w + 4)) \<notin> at_ID ` set (operation_attempts (store w))"
    using Cons.prems(1,4) by (auto simp: waiting_def)
  from shift_waiting [OF Cons.prems(1) this enc, of d]
  obtain w1 where s: "shift E x d w = (Inr (), w1)"
    and alt: "finished i (op_AttemptCount row + 1) w1 \<or>
     (\<exists>row'. waiting E i row' w1 \<and> op_AttemptCount row' = op_AttemptCount row + 1 \<and>
        op_MaxRetries row' = op_MaxRetries row \<and> op_AttemptCount row + 1 < op_MaxRetries row)"
    using Cons.prems(2) by auto
  have eq: "shifts E x (d # ds) w = shifts E x ds w1" by (simp add: s)
  from alt show ?case
  proof (elim disjE exE conjE)
    assume "finished i (op_AttemptCount row + 1) w1"
    then have "finished i (max (op_AttemptCount row + 1) (op_MaxRetries row)) w1"
      by (rule finished_mono) simp
    from shifts_finished [OF this, of E x ds] show ?thesis by (simp only: eq)
  next
    fix row'
    assume row': "waiting E i row' w1" "op_AttemptCount row' = op_AttemptCount row + 1"
      "op_MaxRetries row' = op_MaxRetries row" "op_AttemptCount row + 1 < op_MaxRetries row"
    then show ?thesis
      using Cons.IH [OF row'(1)] Cons.prems(2-4) s unfolding eq by simp
  qed
qed

text \<open>C11: Progress. Let an operation that is not terminal have the only job there is: the queue holds it and
  the delayed set is empty. Let its input be one the worker can load (a string that holds no JSON is
  not: \<open>string_input_ends_worker\<close>), let the worker read its jobs as the service wrote them, and let the
  operation have made less than 32 attempts of at most 32, where the backoff is in its bounds. Then it
  is terminal after as many undisturbed shifts as it has attempts left (at least one), if each shift
  lets at least 72 seconds pass and the ids of new attempts are new; whatever the providers answer, the
  worker keeps going meanwhile, the operation has used no more attempts than it was given, and neither
  the queue nor the delayed set holds a job any more.\<close>

theorem operation_finishes:
  assumes "waiting E i row w" and "\<forall>d\<in>set ds. 72 * second \<le> d"
    and "\<And>j. envelope_of E (x_job x j) = JobFor (UuidText (j_OperationID j))"
    and "max 1 (op_MaxRetries row - op_AttemptCount row) \<le> int (length ds)"
    and "unused_ids E x ds w"
  shows "fst (shifts E x ds w) = Inr () \<and>
    (\<exists>row'\<in>set (operations (store (snd (shifts E x ds w)))). op_ID row' = i \<and>
       IsTerminal (op_Status row') \<and>
       op_AttemptCount row' \<le> max (op_AttemptCount row + 1) (op_MaxRetries row)) \<and>
    main_queue (redis_state (store (snd (shifts E x ds w)))) = [] \<and>
    delayed (redis_state (store (snd (shifts E x ds w)))) = []"
  using shifts_finish [OF assms] by (auto simp: finished_def)

section \<open>Jobs that are lost\<close>

text \<open>A job is taken from the queue before anything is known about its operation, and nobody puts
  it back: if the operations service cannot be reached just then, the round ends as if the job were
  done, the job is gone and the operation waits as before, with no job.\<close>

theorem job_lost_on_fetch:
  assumes "calm w (pos w)" and "refused w (Suc (pos w))"
    and "main_queue (redis_state (store w)) = ms @ [m]" and "envelope_of E m = JobFor oid"
  shows "fst (worker_round E x w) = Inr () \<and> fst (snd (worker_round E x w)) = [] \<and>
    store (snd (snd (worker_round E x w))) =
      (store w)\<lparr>redis_state := (redis_state (store w))\<lparr>main_queue := ms\<rparr>\<rparr>"
proof -
  let ?w1 = "w\<lparr>pos := Suc (pos w),
      store := (store w)\<lparr>redis_state := (redis_state (store w))\<lparr>main_queue := ms\<rparr>\<rparr>\<rparr>"
  have pop: "call brpop_stmt w = (Inr (Some m), ?w1)"
    using assms(3) by (simp add: call_calm [OF assms(1)] brpop_stmt_def redis_cmd_def redis_brpop_def)
  have "http_call h ?w1 = (None, ?w1\<lparr>pos := Suc (Suc (pos w))\<rparr>)"
    for h :: "platform world \<Rightarrow> ops_body response \<times> platform world"
    using assms(2) by (simp add: http_call_def refused_def)
  then show ?thesis
    by (simp add: worker_round_def pop assms(4) process_job_def get_operation_def checked_def)
qed

lemma schema_ok_redis: "schema_ok (p\<lparr>redis_state := r\<rparr>) = schema_ok p"
  by (simp add: schema_ok_def primary_keys_def foreign_keys_def unique_indexes_def)

text \<open>An input that is a JSON string is decoded once more, outside the \<open>try\<close>: if its text is no
  JSON, the exception ends the worker after the attempt has been started, so the operation stays
  RUNNING with an open attempt and its tenant's slot taken, and its job is gone.\<close>

theorem string_input_ends_worker:
  fixes x :: ext
  assumes "quiet w" and "schema_ok (store w)"
    and "main_queue (redis_state (store w)) = ms @ [m]" and "envelope_of E m = JobFor (UuidText i)"
    and "row \<in> set (operations (store w))" and "op_ID row = i" and "\<not> IsTerminal (op_Status row)"
    and "int4_ok (op_AttemptCount row + 1)"
    and "fresh (tape w (pos w + 4)) \<notin> at_ID ` set (operation_attempts (store w))"
    and "as_str E (op_Input row) = Some s" and "json_loads E s = Inl e" and "0 < n"
  defines "p' \<equiv> store (snd (snd (worker_rounds E x n w)))"
  shows "fst (worker_rounds E x n w) = Inl (OtherError e) \<and>
    (\<exists>row'\<in>set (operations p'). op_ID row' = i \<and> op_Status row' = StatusRunning) \<and>
    (\<exists>a\<in>set (operation_attempts p'). at_OperationID a = i \<and> at_FinishedAt a = None) \<and>
    main_queue (redis_state p') = ms \<and> delayed (redis_state p') = delayed (redis_state (store w)) \<and>
    counter (op_TenantID row) (redis_state p') = counter (op_TenantID row) (redis_state (store w)) + 1"
proof -
  define v where "v = w\<lparr>pos := Suc (pos w),
      store := (store w)\<lparr>redis_state := (redis_state (store w))\<lparr>main_queue := ms\<rparr>\<rparr>\<rparr>"
  have pop: "call brpop_stmt w = (Inr (Some m), v)"
    using assms(3) by (simp add: brpop_quiet [OF assms(1)] redis_brpop_def v_def)
  define u where "u = v\<lparr>pos := pos w + 3\<rparr>"
  have u: "quiet v" "quiet u" "schema_ok (store v)" "schema_ok (store u)"
    "row \<in> set (operations (store v))" "row \<in> set (operations (store u))"
    "tape u = tape w" "Suc (pos u) = pos w + 4" "pos v = Suc (pos w)"
    using assms(1,2,5) by (simp_all add: v_def u_def schema_ok_redis)
  have get: "get_operation E (UuidText i) v = (Inr row, u)"
    using get_operation_quiet [OF u(1,3,5) assms(6), of E] by (simp add: u_def u(9) numeral_3_eq_3)
  have new: "fresh (tape u (Suc (pos u))) \<notin> at_ID ` set (operation_attempts (store u))"
    unfolding u(7,8) using assms(9) by (simp add: u_def v_def)
  from start_attempt_quiet [OF u(2,4,6) assms(6,8) new, of E "WORKER_ID E"]
  obtain a and w1 :: "platform world" where
    st: "start_attempt E (UuidText i) (WORKER_ID E) (op_AttemptCount row + 1) u = (Inr a, w1)"
    and s1: "store w1 = (store u)\<lparr>
        operations := map (started_row i (op_AttemptCount row + 1) (pg_now (store u)))
          (operations (store u)),
        operation_attempts := operation_attempts (store u) @
          [new_attempt a i \<lparr>sa_WorkerID = WORKER_ID E, sa_AttemptNumber = op_AttemptCount row + 1\<rparr>
             (pg_now (store u))],
        redis_state := set_counter (op_TenantID row)
          (counter (op_TenantID row) (redis_state (store u)) + 1) (redis_state (store u))\<rparr>"
    by metis
  have "worker_round E x w = (Inl (OtherError e), [], w1)"
    using assms(7) terminal_listed [of row]
    by (simp add: worker_round_def pop assms(4,10,11) process_job_def get st load_input_def)
  then have r: "worker_rounds E x n w = (Inl (OtherError e), [], w1)"
    using assms(12) by (cases n) simp_all
  have "started_row i (op_AttemptCount row + 1) (pg_now (store u)) row \<in> set (operations (store w1))"
    using u(6) by (simp add: s1)
  then have "\<exists>row'\<in>set (operations (store w1)). op_ID row' = i \<and> op_Status row' = StatusRunning"
    by (rule rev_bexI) (simp add: started_row_def assms(6))
  then show ?thesis
    unfolding p'_def r by (simp add: s1 new_attempt_def u_def v_def)
qed

section \<open>The fallback\<close>

text \<open>
  The answers of the providers, if each configured one is asked in turn, and what is made of them:
  the first that is not a transient failure counts; if there is none, the last failure.
\<close>

definition answers ::
    "surroundings \<Rightarrow> provider list \<Rightarrow> string \<Rightarrow> json \<Rightarrow> nat \<Rightarrow> (string \<times> (py_exn + json) \<times> int) list"
  where
  "answers E pvs op_type input n =
     map (\<lambda>(k, pv). (pv_name pv, classify_reply E (pv_name pv) (ask E (pv_name pv) op_type input k),
                     elapsed_ms E k))
       (enumerate n (filter pv_available pvs))"

fun transient :: "py_exn + json \<Rightarrow> bool" where
  "transient (Inl (ProviderError msg category)) \<longleftrightarrow> category \<noteq> ''permanent''"
| "transient _ \<longleftrightarrow> False"

definition first_answer ::
    "py_exn \<Rightarrow> (string \<times> (py_exn + json) \<times> int) list \<Rightarrow> py_exn + json \<times> string \<times> int" where
  "first_answer unset rs =
     (case find (\<lambda>(name, r, t). \<not> transient r) rs of
        Some (name, Inr output, t) \<Rightarrow> Inr (output, name, t)
      | Some (name, Inl e, t) \<Rightarrow> Inl e
      | None \<Rightarrow> Inl (if rs = [] then unset else projl (fst (snd (last rs)))))"

lemma try_providers_first:
  "fst (try_providers E pvs e ty input w) =
     first_answer (case e of Some e' \<Rightarrow> e' | None \<Rightarrow> ProviderError
         ''no AI provider configured (set GEMINI_API_KEY or OPENROUTER_API_KEY)'' ''permanent'')
       (answers E pvs ty input (pos w))"
proof (induction pvs arbitrary: e w)
  case Nil
  then show ?case by (simp add: answers_def first_answer_def)
next
  case (Cons pv pvs)
  show ?case
  proof (cases "pv_available pv")
    case False
    then show ?thesis using Cons.IH by (simp add: answers_def)
  next
    case True
    let ?r = "classify_reply E (pv_name pv) (ask E (pv_name pv) ty input (pos w))"
    have a: "answers E (pv # pvs) ty input (pos w) =
        (pv_name pv, ?r, elapsed_ms E (pos w)) # answers E pvs ty input (Suc (pos w))"
      using True by (simp add: answers_def)
    show ?thesis
    proof (cases "transient ?r")
      case True
      then obtain msg cat where r: "?r = Inl (ProviderError msg cat)" "cat \<noteq> ''permanent''"
        by (cases ?r) (auto elim: transient.elims)
      then show ?thesis
        using Cons.IH [of "Some (ProviderError msg cat)"] \<open>pv_available pv\<close> a
        by (auto simp: pv_process_def first_answer_def split: option.splits)
    next
      case False
      then show ?thesis
        using \<open>pv_available pv\<close> a
        by (cases ?r rule: transient.cases) (auto simp: pv_process_def first_answer_def)
    qed
  qed
qed

text \<open>C25: The provider chain: the result is that of the first configured provider, Gemini before
  OpenRouter, that does not fail transiently, with its name and time, its own failure included; if
  all fail transiently it is the last failure, and if none is configured a permanent one.\<close>

theorem fallback_is_first_answer:
  "fst (process_with_fallback E ty input w) =
     first_answer
       (ProviderError ''no AI provider configured (set GEMINI_API_KEY or OPENROUTER_API_KEY)''
          ''permanent'')
       (answers E [GeminiProvider E, OpenRouterProvider E] ty input (pos w))"
  unfolding process_with_fallback_def try_providers_first by simp

section \<open>Examples\<close>

text \<open>A job is the decimal text of its operation's id; Gemini cannot be reached, or answers.\<close>

definition job_ext :: ext where
  "job_ext =
     \<lparr>x_jsonb = Some, x_month = (\<lambda>t. t), x_job = (\<lambda>j. digits (unat (j_OperationID j))),
      x_event = (\<lambda>e. Some ''{}''), x_url = (\<lambda>u. True), x_raw = (\<lambda>j. j), x_secret = ''s''\<rparr>"

definition sample_surroundings :: "provider_reply \<Rightarrow> surroundings" where
  "sample_surroundings a =
     \<lparr>envelope_of = (\<lambda>s. case unsigned_value s of
          None \<Rightarrow> Malformed | Some n \<Rightarrow> JobFor (UuidText (word_of_int n))),
      as_str = (\<lambda>j. None), json_loads = Inr, json_dumps = Some,
      ask = (\<lambda>name ty input n. a), elapsed_ms = (\<lambda>n. 12), error_text = (\<lambda>n. ''error''),
      gemini_key = ''key'', openrouter_key = [], WORKER_ID = ''w1''\<rparr>"

definition op_jobbed :: platform where
  "op_jobbed = snd (lpush_stmt ''2'' 0 (snd (insert_operation Some (UuidText 1) (Some ''k1'')
     ''summarize'' (Some ''{}'') 1 2 tenant_a)))"

lemma op_jobbed_reachable: "reachable op_jobbed"
proof -
  note gs = reachable_step [OF _ platform_step.guarded]
  show ?thesis
    unfolding op_jobbed_def
    by (rule gs [OF gs [OF sample_reachable(1) guarded_step.insert_op] guarded_step.lpush])
qed

lemma op_jobbed_simps [simp]:
  "operations op_jobbed = [sample_op\<lparr>op_MaxRetries := 1\<rparr>]"
  "operation_attempts op_jobbed = []" "clock op_jobbed = 5000"
  "main_queue (redis_state op_jobbed) = [''2'']" "delayed (redis_state op_jobbed) = []"
  by code_simp+

lemma sample_envelope:
  "envelope_of (sample_surroundings a) (x_job job_ext j) = JobFor (UuidText (j_OperationID j))"
  by (simp add: sample_surroundings_def job_ext_def unsigned_value_digits)

lemma sample_waiting:
  "waiting (sample_surroundings a) 2 (sample_op\<lparr>op_MaxRetries := 1\<rparr>) (sample_world op_jobbed)"
proof -
  have "envelope_of (sample_surroundings a) ''2'' = JobFor (UuidText 2)" by code_simp
  moreover have "load_input (sample_surroundings a) ''{}'' = Inr ''{}''" by code_simp
  ultimately show ?thesis
    by (simp add: waiting_def op_jobbed_reachable sample_op_def IsTerminal_iff status_defs)
qed

theorem operation_finishes_witness:
  "\<exists>row\<in>set (operations (store (snd (shifts (sample_surroundings (NetworkError ''down'')) job_ext
     [72 * second] (sample_world op_jobbed))))).
     op_ID row = 2 \<and> IsTerminal (op_Status row) \<and> op_AttemptCount row \<le> 1"
  using operation_finishes [OF sample_waiting _ sample_envelope,
      of "[72 * second]" "NetworkError ''down''"]
  by (simp add: sample_op_def)

theorem job_lost_on_fetch_witness:
  "operations (store (snd (snd (worker_round (sample_surroundings (NetworkError ''down'')) job_ext
     (refusing 1 (sample_world op_jobbed)))))) = operations op_jobbed \<and>
   main_queue (redis_state (store (snd (snd (worker_round (sample_surroundings (NetworkError ''down''))
     job_ext (refusing 1 (sample_world op_jobbed))))))) = []"
proof -
  let ?w = "refusing 1 (sample_world op_jobbed)"
  have "calm ?w (pos ?w)" "refused ?w (Suc (pos ?w))"
    by (simp_all add: refusing_def calm_def refused_def)
  moreover have "main_queue (redis_state (store ?w)) = [] @ [''2'']" by (simp add: refusing_def)
  moreover have "envelope_of (sample_surroundings (NetworkError ''down'')) ''2'' = JobFor (UuidText 2)"
    by code_simp
  ultimately show ?thesis
    using job_lost_on_fetch [of ?w "[]" "''2''" "sample_surroundings (NetworkError ''down'')"
        "UuidText 2" job_ext]
    by (simp add: refusing_def)
qed

theorem string_input_ends_worker_witness:
  "\<exists>row\<in>set (operations (store (snd (snd (worker_rounds ((sample_surroundings (NetworkError ''down''))
     \<lparr>as_str := Some, json_loads := (\<lambda>s. Inl ''bad'')\<rparr>) job_ext 5 (sample_world op_jobbed)))))).
     op_ID row = 2 \<and> op_Status row = StatusRunning"
proof -
  let ?E = "(sample_surroundings (NetworkError ''down''))\<lparr>as_str := Some, json_loads := (\<lambda>s. Inl ''bad'')\<rparr>"
  let ?row = "sample_op\<lparr>op_MaxRetries := 1\<rparr>"
  have e: "envelope_of ?E ''2'' = JobFor (UuidText 2)" by code_simp
  have row: "op_ID ?row = 2" "\<not> IsTerminal (op_Status ?row)" "int4_ok (op_AttemptCount ?row + 1)"
    by (simp_all add: sample_op_def IsTerminal_iff status_defs int4_ok_def)
  have w: "schema_ok (store (sample_world op_jobbed))"
    "main_queue (redis_state (store (sample_world op_jobbed))) = [] @ [''2'']"
    "?row \<in> set (operations (store (sample_world op_jobbed)))"
    "fresh (tape (sample_world op_jobbed) (pos (sample_world op_jobbed) + 4)) \<notin>
       at_ID ` set (operation_attempts (store (sample_world op_jobbed)))"
    by (simp_all add: schema.at_reachable op_jobbed_reachable)
  have j: "as_str ?E (op_Input ?row) = Some (op_Input ?row)" "json_loads ?E (op_Input ?row) = Inl ''bad''"
    "0 < (5::nat)"
    by simp_all
  show ?thesis
    using string_input_ends_worker [OF quiet_sample w(1,2) e w(3) row w(4) j, of job_ext] by blast
qed

end
