(* ===== verification/Losses.thy ===== *)
theory Losses
  imports Progress
begin

text \<open>
  What is lost, or done twice, when the reply to the worker's report of a success is lost.
\<close>

definition reply_lost :: "'s world \<Rightarrow> bool" where
  "reply_lost w \<longleftrightarrow> others (tape w (pos w)) = id \<and> outcome (tape w (pos w)) = LostReply \<and>
     (\<forall>n>pos w. calm w n)"

lemma moves_calm_from: "moves S w w' \<Longrightarrow> calm_from w \<Longrightarrow> calm_from w'"
  by (auto simp: moves_def calm_from_def calm_def)

lemma tame_later [simp]: "tame S (w\<lparr>pos := n\<rparr>) = tame S w"
  by (simp add: tame_def)

lemma counter_zadd [simp]: "counter t (redis_zadd s m r) = counter t r"
  by (simp add: counter_def redis_zadd_def)

lemma counter_freed [simp]: "counter t (freed t r) = max 0 (counter t r - 1)"
  by (simp add: freed_def)

lemma counter_retried [simp]: "counter t (retried enc req row now r) = counter t r"
  by (simp add: retried_def)

lemma twice_less: "max 0 (max 0 (c - 1) - 1) = max 0 (c - 2 :: int)"
  by linarith

lemma finished_bad_false:
  "at_ID (finished_bad a req n b) = a \<Longrightarrow> at_Success (finished_bad a req n b) = Some False"
  by (simp add: finished_bad_def split: if_splits)

lemma report_answered:
  assumes "calm w (pos w)"
    and "completeAttempt (x_jsonb x) (x_job x) (worker_request oid (Some req)) (w\<lparr>pos := Suc (pos w)\<rparr>) =
      ((WriteJSON 200 b, tasks), w1)"
  shows "report E x oid req w = (Inr (), tasks, w1)"
  using assms by (simp add: report_def Let_def calm_def WriteJSON_def)

lemma report_unanswered:
  assumes "reply_lost w"
    and "completeAttempt (x_jsonb x) (x_job x) (worker_request oid (Some req)) (w\<lparr>pos := Suc (pos w)\<rparr>) =
      ((resp, tasks), w1)"
  shows "report E x oid req w = (Inl (OtherError (error_text E (pos w1))), tasks, w1)"
  using assms by (simp add: report_def Let_def reply_lost_def)

text \<open>The report of success is applied, but the worker sees an error.\<close>

lemma success_unanswered:
  assumes "reply_lost w" and "tame platform_step w" and "reachable (store w)"
    and "row \<in> set (operations (store w))" and "op_ID row = i"
    and "json_dumps E out = Some body" and "x_jsonb x body = Some res" and "int4_ok lat"
  defines "p \<equiv> store w" and "t \<equiv> op_TenantID row"
  obtains req msg w' where "complete_attempt_success E x (UuidText i) aid out prov lat w =
      (Inl (OtherError msg), [GoNotifySuccess t i (Some body)], w')"
    and "calm_from w'" and "reachable (store w')"
    and "store w' = p\<lparr>operations := map (succeeded_row i (Some res) (pg_now p)) (operations p),
        operation_attempts := map (finished_ok aid req (pg_now p)) (operation_attempts p),
        redis_state := freed t (redis_state p)\<rparr>"
proof -
  let ?req = "\<lparr>ca_AttemptID = UuidText aid, ca_Success = True, ca_Output = Some body,
             ca_Provider = prov, ca_LatencyMs = lat, ca_ErrorCategory = [], ca_ErrorDetail = []\<rparr>"
  let ?v = "w\<lparr>pos := Suc (pos w)\<rparr>"
  have cv: "calm_from ?v" using assms(1) by (auto simp: reply_lost_def calm_from_def)
  have c: "completes (worker_request (UuidText i) (Some ?req)) i aid ?req row ?v"
    using cv assms(3-5) schema.at_reachable by (simp add: completes_def worker_request_def)
  have o: "output_ok (x_jsonb x) ?req" using assms(7,8) by (simp add: output_ok_def)
  obtain resp ts w' where h: "completeAttempt (x_jsonb x) (x_job x)
      (worker_request (UuidText i) (Some ?req)) ?v = ((resp, ts), w')" by (metis prod_cases3 prod.collapse)
  have s: "ts = [GoNotifySuccess t i (Some body)]"
    "store w' = p\<lparr>operations := map (succeeded_row i (Some res) (pg_now p)) (operations p),
        operation_attempts := map (finished_ok aid ?req (pg_now p)) (operation_attempts p),
        redis_state := freed t (redis_state p)\<rparr>"
    using completeAttempt_succeeds [OF c _ o, of "x_job x"] h assms(7) by (simp_all add: p_def t_def)
  have m: "moves platform_step ?v w'"
    using full.completeAttempt_moves [of ?v "x_jsonb x" "x_job x" "worker_request (UuidText i) (Some ?req)"]
      assms(2) h by simp
  have "complete_attempt_success E x (UuidText i) aid out prov lat w =
      (Inl (OtherError (error_text E (pos w'))), ts, w')"
    using report_unanswered [OF assms(1) h, of E] by (simp add: complete_attempt_success_def assms(6))
  then show thesis
    using that moves_calm_from [OF m cv] reachable_moves [OF _ m] assms(3) s by simp
qed

text \<open>The report of a failure for an operation that has succeeded.\<close>

lemma failure_after_success:
  assumes "calm_from w" and "reachable (store w)" and "row \<in> set (operations (store w))"
    and "op_ID row = i" and "op_Status row = StatusSucceeded"
  defines "p \<equiv> store w" and "t \<equiv> op_TenantID row" and "again \<equiv> op_AttemptCount row < op_MaxRetries row"
  obtains w' where "complete_attempt_failure E x (UuidText i) aid ''transient'' det w =
      (Inr (), if again then [] else [GoNotifyTerminalFailure t i StatusDeadLettered], w')"
    and "row \<in> set (operations (store w'))"
    and "\<forall>b\<in>set (operation_attempts (store w')). at_ID b = aid \<longrightarrow> at_Success b = Some False"
    and "redis_state (store w') =
      (if again then redis_zadd (retry_ready row (clock p)) (x_job x (retry_job row (clock p)))
         (freed t (redis_state p)) else freed t (redis_state p))"
proof -
  let ?req = "\<lparr>ca_AttemptID = UuidText aid, ca_Success = False, ca_Output = None, ca_Provider = [],
        ca_LatencyMs = 0, ca_ErrorCategory = ''transient'', ca_ErrorDetail = take 2000 det\<rparr>"
  let ?v = "w\<lparr>pos := Suc (pos w)\<rparr>" and ?r = "worker_request (UuidText i) (Some ?req)"
  let ?s = "if again then StatusRetrying else StatusDeadLettered"
  have "completes ?r i aid ?req row ?v"
    using assms(1-4) schema.at_reachable by (simp add: completes_def worker_request_def)
  note f = completeAttempt_fails [OF this, of "x_jsonb x" "x_job x", simplified]
  have dec: "decided ?req row = ?s" and wr: "will_retry ?req row \<longleftrightarrow> again"
    by (simp_all add: decided_cases will_retry_def again_def)
  obtain w' where h: "completeAttempt (x_jsonb x) (x_job x) ?r ?v = ((WriteJSON 200 (StatusBody ?s),
      if again then [] else [GoNotifyTerminalFailure t i StatusDeadLettered]), w')"
    using f dec by (cases "completeAttempt (x_jsonb x) (x_job x) ?r ?v") (auto simp: t_def)
  have s: "operations (store w') = map (failed_row i ?s (take 2000 det) (pg_now p)) (operations p)"
    "operation_attempts (store w') = map (finished_bad aid ?req (pg_now p)) (operation_attempts p)"
    "redis_state (store w') = retried (x_job x) ?req row (clock p) (freed t (redis_state p))"
    using f h dec by (simp_all add: p_def t_def)
  show thesis
  proof (rule that)
    show "complete_attempt_failure E x (UuidText i) aid ''transient'' det w =
        (Inr (), if again then [] else [GoNotifyTerminalFailure t i StatusDeadLettered], w')"
      using report_answered [OF _ h] assms(1) by (simp add: complete_attempt_failure_def calm_from_def)
    have "failed_row i ?s (take 2000 det) (pg_now p) row = row" using assms(5) by (simp add: failed_row_def)
    then show "row \<in> set (operations (store w'))"
      using imageI [OF assms(3), of "failed_row i ?s (take 2000 det) (pg_now p)"] by (simp add: s(1) p_def)
    show "\<forall>b\<in>set (operation_attempts (store w')). at_ID b = aid \<longrightarrow> at_Success b = Some False"
      unfolding s(2) set_map by (intro ballI impI) (elim imageE, simp only: finished_bad_false)
    show "redis_state (store w') =
      (if again then redis_zadd (retry_ready row (clock p)) (x_job x (retry_job row (clock p)))
         (freed t (redis_state p)) else freed t (redis_state p))"
      unfolding s(3) retried_def wr ..
  qed
qed

text \<open>C38: The reply to a report of success is lost: the worker takes that for a failure and reports one. The
  operation has SUCCEEDED with its output, but its attempt is recorded as failed, its slot is given
  back twice, so one more operation of the tenant may run than allowed, and the customer is told of
  the success and, if it was the last attempt, of a terminal failure as well; if it was not, a retry
  of the succeeded operation is scheduled.\<close>

theorem lost_success_reply:
  fixes aid :: uuid and x :: ext
  assumes "process_with_fallback E ty input w = (Inr (out, prov, lat), w1)"
    and "reply_lost w1" and "tame platform_step w1" and "reachable (store w1)"
    and "row \<in> set (operations (store w1))" and "op_ID row = i" and "op_Status row = StatusRunning"
    and "json_dumps E out = Some body" and "x_jsonb x body = Some res" and "int4_ok lat"
  defines "r \<equiv> finish_attempt E x (UuidText i) aid ty input w" and "t \<equiv> op_TenantID row"
    and "p \<equiv> store w1"
  defines "p' \<equiv> store (snd (snd r))" and "again \<equiv> op_AttemptCount row < op_MaxRetries row"
  shows "fst r = Inr () \<and>
    fst (snd r) = GoNotifySuccess t i (Some body) #
      (if again then [] else [GoNotifyTerminalFailure t i StatusDeadLettered]) \<and>
    (\<exists>row'\<in>set (operations p'). op_ID row' = i \<and> op_Status row' = StatusSucceeded \<and>
       op_Output row' = Some res) \<and>
    (\<forall>b\<in>set (operation_attempts p'). at_ID b = aid \<longrightarrow> at_Success b = Some False) \<and>
    counter t (redis_state p') = max 0 (counter t (redis_state p) - 2) \<and>
    (if again
     then \<exists>job. j_OperationID job = i \<and>
       delayed (redis_state p') =
         delayed (redis_zadd (retry_ready row (clock p)) (x_job x job) (redis_state p))
     else delayed (redis_state p') = delayed (redis_state p))"
proof -
  obtain req msg w2 where su: "complete_attempt_success E x (UuidText i) aid out prov lat w1 =
      (Inl (OtherError msg), [GoNotifySuccess t i (Some body)], w2)"
    and w2: "calm_from w2" "reachable (store w2)"
    and s2: "store w2 = p\<lparr>operations := map (succeeded_row i (Some res) (pg_now p)) (operations p),
        operation_attempts := map (finished_ok aid req (pg_now p)) (operation_attempts p),
        redis_state := freed t (redis_state p)\<rparr>"
    unfolding p_def t_def by (rule success_unanswered [OF assms(2-6,8-10)])
  define row' where "row' = succeeded_row i (Some res) (pg_now p) row"
  have row: "row' \<in> set (operations (store w2))" "op_ID row' = i" "op_Status row' = StatusSucceeded"
    "op_Output row' = Some res" "op_TenantID row' = t" "op_AttemptCount row' = op_AttemptCount row"
    "op_MaxRetries row' = op_MaxRetries row" "retry_ready row' c = retry_ready row c" for c
    using assms(5-7) by (auto simp: s2 succeeded_row_def p_def t_def row'_def retry_ready_def)
  have eqs: "op_TenantID row' = t" "clock (store w2) = clock p" "redis_state (store w2) = freed t (redis_state p)"
    "op_AttemptCount row' < op_MaxRetries row' \<longleftrightarrow> again" "retry_ready row' (clock p) = retry_ready row (clock p)"
    by (simp_all add: row again_def s2)
  obtain w3 where fa: "complete_attempt_failure E x (UuidText i) aid ''transient''
      (''worker exception: '' @ msg) w2 =
      (Inr (), if again then [] else [GoNotifyTerminalFailure t i StatusDeadLettered], w3)"
    and row3: "row' \<in> set (operations (store w3))"
    and at: "\<forall>b\<in>set (operation_attempts (store w3)). at_ID b = aid \<longrightarrow> at_Success b = Some False"
    and rd: "redis_state (store w3) =
      (if again then redis_zadd (retry_ready row (clock p)) (x_job x (retry_job row' (clock p)))
         (freed t (freed t (redis_state p))) else freed t (freed t (redis_state p)))"
    by (rule failure_after_success [OF w2 row(1-3), where E = E and x = x and aid = aid and
          det = "''worker exception: '' @ msg", unfolded eqs])
  have r: "fst r = Inr ()" "p' = store w3" "fst (snd r) = GoNotifySuccess t i (Some body) #
      (if again then [] else [GoNotifyTerminalFailure t i StatusDeadLettered])"
    using fa by (simp_all add: p'_def r_def finish_attempt_def assms(1) su)
  have "counter t (redis_state p') = max 0 (counter t (redis_state p) - 2)"
    unfolding r(2) rd by (cases again) (simp_all only: if_True if_False counter_zadd counter_freed twice_less)
  moreover have "j_OperationID (retry_job row' c) = i" for c using row(2) by (simp add: retry_job_def)
  then have "if again
     then \<exists>job. j_OperationID job = i \<and>
       delayed (redis_state p') =
         delayed (redis_zadd (retry_ready row (clock p)) (x_job x job) (redis_state p))
     else delayed (redis_state p') = delayed (redis_state p)"
    unfolding r(2) rd
    by (auto simp: zadd_delayed_cong [of "freed t (freed t (redis_state p))" "redis_state p"])
  ultimately show ?thesis using r at row3 row(2-4) by auto
qed

text \<open>The reply to the report, which comes after the call of the provider, is lost.\<close>

definition lossy_world :: "platform \<Rightarrow> platform world" where
  "lossy_world p = (sample_world p)\<lparr>tape := sample_turn(1 := (sample_turn 1)\<lparr>outcome := LostReply\<rparr>)\<rparr>"

theorem lost_success_reply_witness:
  "\<exists>row\<in>set (operations (store (snd (snd (finish_attempt
     (sample_surroundings (Answered 200 [] (ModelText ''x''))) job_ext (UuidText 2) 3 ''summarize'' []
     (lossy_world op_running)))))).
     op_ID row = 2 \<and> op_Status row = StatusSucceeded \<and> op_Output row = Some ''x''"
proof -
  let ?E = "sample_surroundings (Answered 200 [] (ModelText ''x''))" and ?w = "lossy_world op_running"
  let ?w1 = "?w\<lparr>pos := 1\<rparr>"
  have "extract_json ?E ''x'' = Inr ''x''" by code_simp
  then have "classify_reply ?E name (ask ?E name ty input n) = Inr ''x''" for name ty input n
    by (simp add: classify_reply_def) (simp add: sample_surroundings_def)
  then have p: "process_with_fallback ?E ''summarize'' [] ?w = (Inr (''x'', ''gemini'', 12), ?w1)"
    by (simp add: process_with_fallback_def GeminiProvider_def pv_available_def pv_process_def)
      (simp add: sample_surroundings_def lossy_world_def)
  have l: "reply_lost ?w1" by (simp add: reply_lost_def lossy_world_def calm_def)
  have t: "tame platform_step ?w1" by (simp add: tame_def lossy_world_def)
  have s: "store ?w1 = op_running" by (simp add: lossy_world_def)
  have r: "hd (operations op_running) \<in> set (operations op_running)"
    "op_ID (hd (operations op_running)) = 2" "op_Status (hd (operations op_running)) = StatusRunning"
    using sample_running_row by code_simp+
  have x: "json_dumps ?E ''x'' = Some ''x''" "x_jsonb job_ext ''x'' = Some ''x''" "int4_ok 12"
    by (simp_all add: sample_surroundings_def job_ext_def int4_ok_def)
  have re: "reachable (store ?w1)" and row: "hd (operations op_running) \<in> set (operations (store ?w1))"
    unfolding s by (rule sample_reachable(4), rule r(1))
  show ?thesis
    using lost_success_reply [OF p l t re row r(2,3) x, of 3] by blast
qed

end
