(* ===== verification/Gateway.thy ===== *)
theory Gateway
  imports Routes Credentials
begin

text \<open>
  The gateway (\<open>gateway/src\<close>, TypeScript): the pipeline every public request passes, from the
  request id over authentication, rate limit, quota and concurrency to the proxy, and the admin
  surface. Its own Redis keys are a state beside the platform's; its requests reach the services'
  route tables as \<open>fetch\<close> makes them from a URL.
\<close>

section \<open>Values\<close>

text \<open>A JavaScript number made of an integer: the nearest double, which is an integer again.\<close>

definition js_number :: "int \<Rightarrow> int" where
  "js_number n = f64_trunc (f64 (of_int n))"

record tenant_context =
  tc_tenantId :: uuid
  tc_tier :: string
  tc_rateLimitRpm :: int
  tc_monthlyQuota :: int
  tc_maxConcurrentOps :: int

definition applyTenantContext :: "ValidatedKey \<Rightarrow> tenant_context" where
  "applyTenantContext v =
     \<lparr>tc_tenantId = vk_TenantID v, tc_tier = vk_Tier v,
      tc_rateLimitRpm = js_number (vk_RateLimitRPM v),
      tc_monthlyQuota = js_number (vk_MonthlyQuota v),
      tc_maxConcurrentOps = js_number (vk_MaxConcurrentOps v)\<rparr>"

text \<open>The text of a UUID, as PostgreSQL gives it back.\<close>

definition uuid_text :: "uuid \<Rightarrow> string" where
  "uuid_text u =
     (let hex = map (\<lambda>i. hex_digit (unat (drop_bit (4 * (31 - i)) u) mod 16)) [0..<32];
          part = (\<lambda>n k. take k (drop n hex))
      in part 0 8 @ ''-'' @ part 8 4 @ ''-'' @ part 12 4 @ ''-'' @ part 16 4 @ ''-'' @ part 20 12)"

section \<open>The gateway's Redis keys\<close>

text \<open>
  \<open>nexora:authcache:<key>\<close> with its time of expiry, and \<open>nexora:ratelimit:<tenant>:<minute>\<close>, a
  counter that may have one. Time is the platform's clock. An expired key is as good as absent.
\<close>

record gateway_redis =
  authcache :: "string \<Rightarrow> (gotime \<times> ValidatedKey) option"
  windows :: "uuid \<times> int \<Rightarrow> (int \<times> gotime option) option"

definition VALIDATION_CACHE_TTL_SECONDS :: int where "VALIDATION_CACHE_TTL_SECONDS = 30"

definition cached :: "string \<Rightarrow> gotime \<Rightarrow> gateway_redis \<Rightarrow> ValidatedKey option" where
  "cached key now r =
     (case authcache r key of Some (e, v) \<Rightarrow> if now < e then Some v else None | None \<Rightarrow> None)"

definition set_cached ::
    "string \<Rightarrow> ValidatedKey \<Rightarrow> gotime \<Rightarrow> gateway_redis \<Rightarrow> unit \<times> gateway_redis" where
  "set_cached key v now r =
     ((), r\<lparr>authcache := (authcache r)(key \<mapsto> (now + VALIDATION_CACHE_TTL_SECONDS * second, v))\<rparr>)"

definition live_window :: "uuid \<times> int \<Rightarrow> gotime \<Rightarrow> gateway_redis \<Rightarrow> int \<times> gotime option" where
  "live_window k now r =
     (case windows r k of
        None \<Rightarrow> (0, None)
      | Some (n, None) \<Rightarrow> (n, None)
      | Some (n, Some e) \<Rightarrow> if now < e then (n, Some e) else (0, None))"

definition incr_window :: "uuid \<times> int \<Rightarrow> gotime \<Rightarrow> gateway_redis \<Rightarrow> int \<times> gateway_redis" where
  "incr_window k now r =
     (case live_window k now r of
        (n, e) \<Rightarrow> (n + 1, r\<lparr>windows := (windows r)(k \<mapsto> (n + 1, e))\<rparr>))"

definition expire_window :: "uuid \<times> int \<Rightarrow> gotime \<Rightarrow> gateway_redis \<Rightarrow> unit \<times> gateway_redis" where
  "expire_window k now r =
     ((), case live_window k now r of
        (n, e) \<Rightarrow> r\<lparr>windows := (windows r)(k \<mapsto> (n, Some (now + 60 * second)))\<rparr>)"

section \<open>The world of the gateway\<close>

datatype service = CustomerAccess | OperationsService | UsageWebhooks

text \<open>
  The platform's turns go on while the gateway works: before each of its calls the others may change
  the platform and, as other instances of the gateway, its keys. \<open>g_sent\<close> records the requests it
  has sent to the services.
\<close>

record gworld =
  g_redis :: gateway_redis
  g_world :: "platform world"
  g_others :: "nat \<Rightarrow> platform \<Rightarrow> gateway_redis \<Rightarrow> gateway_redis"
  g_sent :: "(service \<times> http_request) list"

text \<open>A Redis command; \<open>None\<close> is a rejected promise.\<close>

definition redis_call ::
    "(gotime \<Rightarrow> gateway_redis \<Rightarrow> 'a \<times> gateway_redis) \<Rightarrow> gworld \<Rightarrow> 'a option \<times> gworld" where
  "redis_call f g =
     (let w = g_world g; t = tape w (pos w); p = others t (store w);
          r = g_others g (pos w) p (g_redis g);
          w1 = w\<lparr>pos := Suc (pos w), store := p\<rparr>
      in
      if outcome t = Refused then (None, g\<lparr>g_redis := r, g_world := w1\<rparr>)
      else
        (case f (clock p) r of (a, r') \<Rightarrow>
           (if outcome t = Done then Some a else None, g\<lparr>g_redis := r', g_world := w1\<rparr>)))"

text \<open>
  \<open>JSON.stringify\<close> of the body of a validation, what the Go services see of a path once \<open>fetch\<close> has
  encoded it and they have decoded it, and \<open>url.ParseQuery\<close>.
\<close>

record surface =
  n_ext :: ext
  n_dec :: decoders
  validate_body :: "string \<Rightarrow> json"
  seen_path :: "string list \<Rightarrow> string list"
  parse_query :: "string \<Rightarrow> string \<Rightarrow> string"

datatype upstream =
    OperationsReply "ops_body response"
  | UsageReply "usage_body response"
  | AccessReply "access_body response"

fun upstream_status :: "upstream \<Rightarrow> int" where
  "upstream_status (OperationsReply r) = r_status r"
| "upstream_status (UsageReply r) = r_status r"
| "upstream_status (AccessReply r) = r_status r"

fun upstream_server ::
    "surface \<Rightarrow> service \<Rightarrow> http_request \<Rightarrow> platform world \<Rightarrow> upstream \<times> platform world" where
  "upstream_server N OperationsService q w =
     (case operations_server (n_ext N) (n_dec N) q w of (r, w1) \<Rightarrow> (OperationsReply r, w1))"
| "upstream_server N UsageWebhooks q w =
     (case usage_server (n_ext N) (n_dec N) q w of (r, w1) \<Rightarrow> (UsageReply r, w1))"
| "upstream_server N CustomerAccess q w =
     (case access_server (n_ext N) (n_dec N) q w of (r, w1) \<Rightarrow> (AccessReply r, w1))"

text \<open>What \<open>resp.json()\<close> gives where the gateway reads it; \<open>None\<close> is an exception.\<close>

fun validated_of :: "upstream \<Rightarrow> ValidatedKey option" where
  "validated_of (AccessReply r) =
     (case r_body r of JSON (ValidatedBody v) \<Rightarrow> Some v | _ \<Rightarrow> None)"
| "validated_of _ = None"

fun consumed_of :: "upstream \<Rightarrow> int option" where
  "consumed_of (UsageReply r) =
     (case r_body r of JSON (UnitsConsumedBody n) \<Rightarrow> Some n | _ \<Rightarrow> None)"
| "consumed_of _ = None"

definition fetch :: "surface \<Rightarrow> service \<Rightarrow> http_request \<Rightarrow> gworld \<Rightarrow> upstream option \<times> gworld" where
  "fetch N s q g =
     (case http_call (upstream_server N s q) (g_world g) of (r, w1) \<Rightarrow>
        (r, g\<lparr>g_world := w1, g_sent := g_sent g @ [(s, q)]\<rparr>))"

section \<open>URLs\<close>

text \<open>
  \<open>new URL(base + target)\<close> for a target that starts with a slash: tabs and line breaks are dropped, a
  fragment and a query are cut off, a backslash counts as a slash, and dot segments are resolved.
\<close>

definition url_clean :: "string \<Rightarrow> string" where
  "url_clean s =
     filter (\<lambda>c. c \<notin> {CHR 0x09, CHR 0x0A, CHR 0x0D})
       (rev (dropWhile (\<lambda>c. (of_char c :: nat) \<le> 32) (rev s)))"

fun split_on :: "(char \<Rightarrow> bool) \<Rightarrow> string \<Rightarrow> string list" where
  "split_on p [] = [[]]"
| "split_on p (c # cs) =
     (if p c then [] # split_on p cs
      else (case split_on p cs of [] \<Rightarrow> [[c]] | s # ss \<Rightarrow> (c # s) # ss))"

definition single_dot :: "string \<Rightarrow> bool" where
  "single_dot s \<longleftrightarrow> map lower_char s \<in> {''.'', ''%2e''}"

definition double_dot :: "string \<Rightarrow> bool" where
  "double_dot s \<longleftrightarrow> map lower_char s \<in> {''..'', ''.%2e'', ''%2e.'', ''%2e%2e''}"

fun resolve :: "string list \<Rightarrow> string list \<Rightarrow> string list" where
  "resolve acc [] = rev acc"
| "resolve acc [s] =
     (if double_dot s then rev ([] # tl acc) else if single_dot s then rev ([] # acc)
      else rev (s # acc))"
| "resolve acc (s # t # ss) =
     (if double_dot s then resolve (tl acc) (t # ss) else if single_dot s then resolve acc (t # ss)
      else resolve (s # acc) (t # ss))"

definition url_target :: "string \<Rightarrow> string list \<times> string" where
  "url_target target =
     (let u = takeWhile (\<lambda>c. c \<noteq> CHR ''#'') (url_clean target);
          path = takeWhile (\<lambda>c. c \<noteq> CHR ''?'') u;
          query = drop (Suc (length path)) u
      in (resolve [] (split_on (\<lambda>c. c = CHR ''/'' \<or> c = CHR 0x5C) (tl path)), query))"

section \<open>The pipeline\<close>

text \<open>
  A request as the client sent it: its headers by lower-case name, the text \<open>JSON.stringify\<close> makes of
  its parsed body, and the query string \<open>URLSearchParams\<close> makes of its parameters; whether
  \<open>express.json\<close> refuses its body, and whether its method is HEAD, for which Express takes the route
  of GET.
\<close>

record client_request =
  cl_headers :: "string \<Rightarrow> string option"
  cl_body :: json
  cl_query :: string
  cl_malformed :: bool
  cl_head :: bool

text \<open>
  The client gets a problem, what a service answered, or a plain status; or nothing, because a promise
  was rejected and nobody catches that (Node then ends the process of the gateway as well, which is
  not modelled: the theorems speak of a gateway that runs).
\<close>

datatype gateway_reply =
    Problem int string string
  | Relayed upstream
  | Plain int
  | Rejected

definition sendProblem :: "int \<Rightarrow> string \<Rightarrow> string \<Rightarrow> gateway_reply" where
  "sendProblem status title rid = Problem status title rid"

definition requestId :: "client_request \<Rightarrow> gworld \<Rightarrow> string \<times> gworld" where
  "requestId cl g =
     (case cl_headers cl ''x-request-id'' of
        Some (c # cs) \<Rightarrow> (c # cs, g)
      | _ \<Rightarrow>
          (let w = g_world g in
           (uuid_text (fresh (tape w (pos w))), g\<lparr>g_world := w\<lparr>pos := Suc (pos w)\<rparr>\<rparr>)))"

definition presented_key :: "client_request \<Rightarrow> string option" where
  "presented_key cl =
     (case cl_headers cl ''authorization'' of
        Some a \<Rightarrow>
          if take 7 a = ''Bearer '' then Some (drop 7 a) else cl_headers cl ''x-api-key''
      | None \<Rightarrow> cl_headers cl ''x-api-key'')"

definition validate_request :: "surface \<Rightarrow> string \<Rightarrow> http_request" where
  "validate_request N key =
     \<lparr>hq_method = POST, hq_path = [''internal'', ''auth'', ''validate''], hq_tenant = [],
      hq_reqid = [], hq_idem = [], hq_quota = [], hq_query = (\<lambda>_. []),
      hq_body = validate_body N key\<rparr>"

definition authMiddleware ::
    "surface \<Rightarrow> client_request \<Rightarrow> string \<Rightarrow> gworld \<Rightarrow> (gateway_reply + tenant_context) \<times> gworld" where
  "authMiddleware N cl rid g =
     (let unavailable = sendProblem 503 ''upstream_unavailable'' rid in
      case presented_key cl of
        None \<Rightarrow> (Inl (sendProblem 401 ''missing_credentials'' rid), g)
      | Some apiKey \<Rightarrow>
          if apiKey = [] then (Inl (sendProblem 401 ''missing_credentials'' rid), g)
          else
          (case redis_call (\<lambda>now r. (cached apiKey now r, r)) g of
             (None, g1) \<Rightarrow> (Inl unavailable, g1)
           | (Some (Some v), g1) \<Rightarrow> (Inr (applyTenantContext v), g1)
           | (Some None, g1) \<Rightarrow>
               (case fetch N CustomerAccess (validate_request N apiKey) g1 of
                  (None, g2) \<Rightarrow> (Inl unavailable, g2)
                | (Some resp, g2) \<Rightarrow>
                    if upstream_status resp \<noteq> 200
                    then (Inl (sendProblem 401 ''invalid_api_key'' rid), g2)
                    else
                    (case validated_of resp of
                       Some v \<Rightarrow>
                         (case redis_call (set_cached apiKey v) g2 of
                            (None, g3) \<Rightarrow> (Inl unavailable, g3)
                          | (Some _, g3) \<Rightarrow> (Inr (applyTenantContext v), g3))
                     | None \<Rightarrow> (Inl unavailable, g2)))))"

definition currentMinuteBucket :: "gotime \<Rightarrow> int" where
  "currentMinuteBucket now = now div (60 * second)"

definition rateLimitMiddleware ::
    "tenant_context \<Rightarrow> string \<Rightarrow> gworld \<Rightarrow> (gateway_reply + unit) \<times> gworld" where
  "rateLimitMiddleware tc rid g =
     (let k = (tc_tenantId tc, currentMinuteBucket (clock (store (g_world g)))) in
      case redis_call (incr_window k) g of
        (None, g1) \<Rightarrow> (Inl Rejected, g1)
      | (Some count, g1) \<Rightarrow>
          (case (if count = 1 then redis_call (expire_window k) g1 else (Some (), g1)) of
             (None, g2) \<Rightarrow> (Inl Rejected, g2)
           | (Some _, g2) \<Rightarrow>
               if tc_rateLimitRpm tc < count
               then (Inl (sendProblem 429 ''rate_limited'' rid), g2) else (Inr (), g2)))"

definition consumption_request :: "uuid \<Rightarrow> string \<Rightarrow> http_request" where
  "consumption_request t rid =
     \<lparr>hq_method = GET, hq_path = [''internal'', ''usage'', ''consumption'', uuid_text t],
      hq_tenant = [], hq_reqid = rid, hq_idem = [], hq_quota = [], hq_query = (\<lambda>_. []),
      hq_body = []\<rparr>"

definition quotaGuard ::
    "surface \<Rightarrow> tenant_context \<Rightarrow> string \<Rightarrow> gworld \<Rightarrow> (gateway_reply + unit) \<times> gworld" where
  "quotaGuard N tc rid g =
     (case fetch N UsageWebhooks (consumption_request (tc_tenantId tc) rid) g of
        (None, g1) \<Rightarrow> (Inr (), g1)
      | (Some resp, g1) \<Rightarrow>
          if upstream_status resp < 200 \<or> 300 \<le> upstream_status resp then (Inr (), g1)
          else
          (case consumed_of resp of
             Some n \<Rightarrow>
               if tc_monthlyQuota tc \<le> js_number n
               then (Inl (sendProblem 429 ''quota_exhausted'' rid), g1) else (Inr (), g1)
           | None \<Rightarrow> (Inr (), g1)))"

text \<open>The counter is the one the operations service keeps.\<close>

definition concurrencyGuard ::
    "tenant_context \<Rightarrow> string \<Rightarrow> gworld \<Rightarrow> (gateway_reply + unit) \<times> gworld" where
  "concurrencyGuard tc rid g =
     (case call (reading (\<lambda>p. Inr (counter (tc_tenantId tc) (redis_state p)))) (g_world g) of
        (Inl _, w1) \<Rightarrow> (Inl Rejected, g\<lparr>g_world := w1\<rparr>)
      | (Inr current, w1) \<Rightarrow>
          if tc_maxConcurrentOps tc \<le> js_number current
          then (Inl (sendProblem 429 ''concurrency_limit_exceeded'' rid), g\<lparr>g_world := w1\<rparr>)
          else (Inr (), g\<lparr>g_world := w1\<rparr>))"

definition proxy_request ::
    "surface \<Rightarrow> http_method \<Rightarrow> string \<Rightarrow> client_request \<Rightarrow> string \<Rightarrow> tenant_context \<Rightarrow> http_request"
  where
  "proxy_request N m target cl rid tc =
     (case url_target target of
        (path, query) \<Rightarrow>
          \<lparr>hq_method = m, hq_path = seen_path N path, hq_tenant = uuid_text (tc_tenantId tc),
           hq_reqid = rid,
           hq_idem = (case cl_headers cl ''idempotency-key'' of None \<Rightarrow> [] | Some k \<Rightarrow> k),
           hq_quota = decimal (tc_monthlyQuota tc), hq_query = parse_query N query,
           hq_body = (if m = GET \<or> m = HEAD then [] else cl_body cl)\<rparr>)"

definition proxyTo ::
    "surface \<Rightarrow> service \<Rightarrow> http_method \<Rightarrow> string \<Rightarrow> client_request \<Rightarrow> string \<Rightarrow> tenant_context \<Rightarrow>
     gworld \<Rightarrow> gateway_reply \<times> gworld" where
  "proxyTo N s m target cl rid tc g =
     (case fetch N s (proxy_request N m target cl rid tc) g of
        (None, g1) \<Rightarrow> (sendProblem 503 ''upstream_unavailable'' rid, g1)
      | (Some resp, g1) \<Rightarrow> (Relayed resp, g1))"

section \<open>Routes\<close>

text \<open>
  The routes with the text Express has decoded for \<open>:id\<close>, which may hold any character. The handler
  of CORS answers every OPTIONS request; a path without a route gets Express's 404.
\<close>

datatype gateway_route =
    CreateOp
  | ListOps
  | GetOp string
  | CancelOp string
  | UsageOf
  | AddWebhook
  | ListWebhooks
  | AddApiKey
  | ListApiKeys
  | RemoveApiKey string
  | AdminOp string
  | AdminAttempts string
  | AdminOps
  | AdminSummary
  | AdminTenants
  | Healthz
  | Preflight
  | NoRoute

fun plain_route :: "gateway_route \<Rightarrow> int option" where
  "plain_route Healthz = Some 200"
| "plain_route Preflight = Some 204"
| "plain_route NoRoute = Some 404"
| "plain_route _ = None"

definition query_suffix :: "client_request \<Rightarrow> string" where
  "query_suffix cl = (if cl_query cl = [] then [] else ''?'' @ cl_query cl)"

definition tenant_keys_path :: "tenant_context \<Rightarrow> string" where
  "tenant_keys_path tc = ''/internal/tenants/'' @ uuid_text (tc_tenantId tc) @ ''/api-keys''"

text \<open>Service, method and target of a public route.\<close>

fun public_target ::
    "gateway_route \<Rightarrow> client_request \<Rightarrow> tenant_context \<Rightarrow> (service \<times> http_method \<times> string) option" where
  "public_target CreateOp cl tc = Some (OperationsService, POST, ''/v1/operations'')"
| "public_target ListOps cl tc = Some (OperationsService, GET, ''/v1/operations'' @ query_suffix cl)"
| "public_target (GetOp i) cl tc = Some (OperationsService, GET, ''/v1/operations/'' @ i)"
| "public_target (CancelOp i) cl tc =
     Some (OperationsService, POST, ''/v1/operations/'' @ i @ ''/cancel'')"
| "public_target UsageOf cl tc = Some (UsageWebhooks, GET, ''/v1/usage'')"
| "public_target AddWebhook cl tc = Some (UsageWebhooks, POST, ''/v1/webhooks'')"
| "public_target ListWebhooks cl tc = Some (UsageWebhooks, GET, ''/v1/webhooks'')"
| "public_target AddApiKey cl tc = Some (CustomerAccess, POST, tenant_keys_path tc)"
| "public_target ListApiKeys cl tc = Some (CustomerAccess, GET, tenant_keys_path tc)"
| "public_target (RemoveApiKey i) cl tc =
     Some (CustomerAccess, DELETE, ''/internal/api-keys/'' @ i)"
| "public_target _ cl tc = None"

fun admin_target :: "gateway_route \<Rightarrow> client_request \<Rightarrow> (service \<times> string) option" where
  "admin_target (AdminOp i) cl = Some (OperationsService, ''/internal/operations/'' @ i)"
| "admin_target (AdminAttempts i) cl =
     Some (OperationsService, ''/internal/operations/'' @ i @ ''/attempts'')"
| "admin_target AdminOps cl = Some (OperationsService, ''/internal/operations'' @ query_suffix cl)"
| "admin_target AdminSummary cl = Some (OperationsService, ''/internal/summary'')"
| "admin_target AdminTenants cl = Some (CustomerAccess, ''/internal/tenants'')"
| "admin_target _ cl = None"

definition admin_fetch ::
    "surface \<Rightarrow> service \<Rightarrow> string \<Rightarrow> string \<Rightarrow> gworld \<Rightarrow> gateway_reply \<times> gworld" where
  "admin_fetch N s target rid g =
     (case url_target target of
        (path, query) \<Rightarrow>
          (case fetch N s
                  \<lparr>hq_method = GET, hq_path = seen_path N path, hq_tenant = [], hq_reqid = rid,
                   hq_idem = [], hq_quota = [], hq_query = parse_query N query, hq_body = []\<rparr> g of
             (None, g1) \<Rightarrow> (Rejected, g1)
           | (Some resp, g1) \<Rightarrow> (Relayed resp, g1)))"

definition guards ::
    "surface \<Rightarrow> gateway_route \<Rightarrow> tenant_context \<Rightarrow> string \<Rightarrow> gworld \<Rightarrow>
     (gateway_reply + unit) \<times> gworld" where
  "guards N route tc rid g =
     (case rateLimitMiddleware tc rid g of
        (Inl a, g1) \<Rightarrow> (Inl a, g1)
      | (Inr _, g1) \<Rightarrow>
          if route = CreateOp then
            (case quotaGuard N tc rid g1 of
               (Inl a, g2) \<Rightarrow> (Inl a, g2)
             | (Inr _, g2) \<Rightarrow> concurrencyGuard tc rid g2)
          else (Inr (), g1))"

definition gateway ::
    "surface \<Rightarrow> client_request \<Rightarrow> gateway_route \<Rightarrow> gworld \<Rightarrow> gateway_reply \<times> gworld" where
  "gateway N cl route g =
     (if cl_malformed cl then (Plain 400, g)
      else
        (case requestId cl g of
           (rid, g0) \<Rightarrow>
             (case plain_route route of
                Some code \<Rightarrow> (Plain code, g0)
              | None \<Rightarrow>
                  (case admin_target route cl of
                     Some (s, target) \<Rightarrow> admin_fetch N s target rid g0
                   | None \<Rightarrow>
                       (case authMiddleware N cl rid g0 of
                          (Inl a, g1) \<Rightarrow> (a, g1)
                        | (Inr tc, g1) \<Rightarrow>
                            (case guards N route tc rid g1 of
                               (Inl a, g2) \<Rightarrow> (a, g2)
                             | (Inr _, g2) \<Rightarrow>
                                 (case public_target route cl tc of
                                    None \<Rightarrow> (Plain 404, g2)
                                  | Some (s, m, target) \<Rightarrow>
                                      proxyTo N s (if cl_head cl \<and> m = GET then HEAD else m) target cl
                                        rid tc g2)))))))"

end
