(* ===== verification/Ingress.thy ===== *)
theory Ingress
  imports Gateway
begin

text \<open>
  What the gateway guarantees: the tenant every forwarded request carries is the owner of the API key
  the client presented; and what it does not.
\<close>

section \<open>Runs of the gateway\<close>

text \<open>
  A cached validation names the tenant that has the key, active or revoked. The other instances of the
  gateway keep that, and so does the platform, in which keys neither vanish nor change hands.
\<close>

definition owns :: "surface \<Rightarrow> string \<Rightarrow> uuid \<Rightarrow> platform \<Rightarrow> bool" where
  "owns N key t p \<longleftrightarrow>
     (\<exists>k\<in>set (api_keys p). ak_KeyHash k = HashKey (x_secret (n_ext N)) key \<and> ak_TenantID k = t)"

definition cache_fine :: "surface \<Rightarrow> gateway_redis \<Rightarrow> platform \<Rightarrow> bool" where
  "cache_fine N r p \<longleftrightarrow>
     (\<forall>key e v. authcache r key = Some (e, v) \<longrightarrow> owns N key (vk_TenantID v) p)"

definition sound :: "surface \<Rightarrow> gworld \<Rightarrow> bool" where
  "sound N g \<longleftrightarrow>
     tame platform_step (g_world g) \<and> cache_fine N (g_redis g) (store (g_world g)) \<and>
     (\<forall>n p r. cache_fine N r p \<longrightarrow> cache_fine N (g_others g n p r) p) \<and>
     (\<forall>key. dec_validate (n_dec N) (validate_body N key) = Some \<lparr>vr_APIKey = key\<rparr>)"

lemma owns_run:
  assumes "owns N key t p" and "platform_step\<^sup>*\<^sup>* p q"
  shows "owns N key t q"
proof -
  obtain k where k: "k \<in> set (api_keys p)" "ak_KeyHash k = HashKey (x_secret (n_ext N)) key"
    "ak_TenantID k = t"
    using assms(1) by (auto simp: owns_def)
  have "prefix (map key_identity (api_keys p)) (map key_identity (api_keys q))"
    using kept.run [OF assms(2)] by (simp add: records_kept_def)
  then have "key_identity k \<in> key_identity ` set (api_keys q)"
    using k(1) set_mono_prefix by fastforce
  then obtain k' where "k' \<in> set (api_keys q)" "key_identity k' = key_identity k" by auto
  then show ?thesis using k by (auto simp: owns_def key_identity_def)
qed

lemma cache_run: "cache_fine N r p \<Longrightarrow> platform_step\<^sup>*\<^sup>* p q \<Longrightarrow> cache_fine N r q"
  unfolding cache_fine_def by (blast intro: owns_run)

text \<open>\<open>g'\<close> is a later point of \<open>g\<close>, and the requests sent on the way are all in \<open>Q\<close>.\<close>

definition goes :: "gworld \<Rightarrow> (service \<times> http_request) set \<Rightarrow> gworld \<Rightarrow> bool" where
  "goes g Q g' \<longleftrightarrow>
     moves platform_step (g_world g) (g_world g') \<and> g_others g' = g_others g \<and>
     (\<exists>qs. g_sent g' = g_sent g @ qs \<and> set qs \<subseteq> Q)"

lemma goes_refl [intro]: "goes g Q g"
  by (auto simp: goes_def)

lemma goes_trans:
  assumes "goes g Q g'" and "goes g' Q' g''" and "Q \<subseteq> R" and "Q' \<subseteq> R"
  shows "goes g R g''"
proof -
  obtain qs qs' where "g_sent g' = g_sent g @ qs" "set qs \<subseteq> Q" "g_sent g'' = g_sent g' @ qs'"
    "set qs' \<subseteq> Q'"
    using assms(1,2) by (auto simp: goes_def)
  then have "g_sent g'' = g_sent g @ qs @ qs'" "set (qs @ qs') \<subseteq> R" using assms(3,4) by auto
  then show ?thesis using assms(1,2) moves_trans unfolding goes_def by metis
qed

lemma goes_mono: "goes g Q g' \<Longrightarrow> Q \<subseteq> R \<Longrightarrow> goes g R g'"
  by (auto simp: goes_def)

lemma redis_call_goes:
  assumes "redis_call f g = (x, g')" and "sound N g"
    and "\<And>now r p. cache_fine N r p \<Longrightarrow> platform_step\<^sup>*\<^sup>* (store (g_world g)) p \<Longrightarrow>
      cache_fine N (snd (f now r)) p"
  shows "goes g {} g'" and "sound N g'"
    and "x = Some a \<Longrightarrow> \<exists>now r. cache_fine N r (store (g_world g')) \<and> a = fst (f now r)"
proof -
  define w p r where "w = g_world g" and "p = others (tape w (pos w)) (store w)"
    and "r = g_others g (pos w) p (g_redis g)"
  have run: "platform_step\<^sup>*\<^sup>* (store w) p"
    using assms(2) by (simp add: sound_def tame_def p_def w_def)
  have fine: "cache_fine N r p"
    using assms(2) cache_run [OF _ run] by (simp add: sound_def r_def w_def)
  have g': "g_world g' = w\<lparr>pos := Suc (pos w), store := p\<rparr>" "g_others g' = g_others g"
    "g_sent g' = g_sent g" "g_redis g' = r \<or> g_redis g' = snd (f (clock p) r)"
    "x = Some a \<Longrightarrow> a = fst (f (clock p) r)"
    using assms(1)
    by (auto simp: redis_call_def Let_def w_def p_def r_def split: prod.splits if_splits)
  show "goes g {} g'" using run by (simp add: goes_def moves_def g' w_def)
  have "cache_fine N (g_redis g') p" using g'(4) fine assms(3) [OF fine] run by (auto simp: w_def)
  then show "sound N g'" using assms(2) by (simp add: sound_def g' tame_def w_def)
  show "x = Some a \<Longrightarrow> \<exists>now r. cache_fine N r (store (g_world g')) \<and> a = fst (f now r)"
    using fine g'(1,5) by auto
qed

lemma server_moves:
  assumes "tame platform_step w"
  shows "moves platform_step w (snd (upstream_server N s q w))"
proof -
  have "moves platform_step w (snd (answer_operations (n_ext N) o' w))" for o'
    using full.serve_all_moves [OF assms, of "n_ext N" "Operations o'"] by (simp add: answer_serve)
  moreover have "moves platform_step w (snd (answer_usage (n_ext N) u' w))" for u'
    using full.serve_all_moves [OF assms, of "n_ext N" "Usage u'"] by (simp add: answer_serve)
  moreover have "moves platform_step w (snd (answer_access (n_ext N) a' w))" for a'
    using full.serve_all_moves [OF assms, of "n_ext N" "Access a'"] by (simp add: answer_serve)
  ultimately have a: "moves platform_step w (snd (respond (answer_operations (n_ext N)) o' w))"
    "moves platform_step w (snd (respond (answer_usage (n_ext N)) u' w))"
    "moves platform_step w (snd (respond (answer_access (n_ext N)) a' w))" for o' u' a'
    by (simp_all add: respond_def split: routed.splits)
  show ?thesis
    using a by (cases s)
      (simp_all add: operations_server_def usage_server_def access_server_def case_prod_beta)
qed

lemma fetch_goes:
  assumes "fetch N s q g = (x, g')" and "sound N g"
  shows "goes g {(s, q)} g'" and "sound N g'"
proof -
  obtain w1 where h: "http_call (upstream_server N s q) (g_world g) = (x, w1)"
    and g': "g' = g\<lparr>g_world := w1, g_sent := g_sent g @ [(s, q)]\<rparr>"
    using assms(1) by (auto simp: fetch_def split: prod.splits)
  have t: "tame platform_step (g_world g)" using assms(2) by (simp add: sound_def)
  have m: "moves platform_step (g_world g) w1"
    using http_call_moves [OF t, of "upstream_server N s q"] server_moves h by simp
  show "goes g {(s, q)} g'" using m by (simp add: goes_def g')
  show "sound N g'"
    using assms(2) m moves_tame [OF m t] cache_run
    by (auto simp: sound_def g' moves_def)
qed

section \<open>Authentication\<close>

text \<open>The service's answer 200 to a validation: the key's row is there afterwards.\<close>

lemma validateKey_owner:
  assumes "validateKey secret r w = (WriteJSON c (ValidatedBody v), w1)" and "decoded r = Some req"
  shows "\<exists>k\<in>set (api_keys (store w1)). ak_KeyHash k = HashKey secret (vr_APIKey req) \<and>
    ak_TenantID k = vk_TenantID v"
proof -
  have "call (reading (\<lambda>p. case validated_rows (HashKey secret (vr_APIKey req)) p of
      [] \<Rightarrow> Inl NoRows | v # _ \<Rightarrow> Inr v)) w = (Inr v, w1)"
    using assms
    by (auto simp: validateKey_def ValidateKeyHash_def Let_def split: if_splits sum.splits prod.splits)
  then obtain u p where "reading (\<lambda>p. case validated_rows (HashKey secret (vr_APIKey req)) p of
      [] \<Rightarrow> Inl NoRows | v # _ \<Rightarrow> Inr v) u p = (Inr v, store w1)"
    by (rule call_from) simp
  then have "v \<in> set (validated_rows (HashKey secret (vr_APIKey req)) (store w1))"
    by (auto simp: reading_def split: list.splits)
  then show ?thesis by (auto simp: validated_rows_iff accepts_def limits_of_def)
qed

lemma validate_route:
  "lookup (access_routes d (validate_request N key)) POST [''internal'', ''auth'', ''validate''] False =
     Api (PostAuthValidate (seen d (dec_validate d) (validate_request N key) []))"
  by (simp add: access_routes_def Let_def)

lemma validated_owner:
  assumes "fetch N CustomerAccess (validate_request N key) g = (Some resp, g')" and "sound N g"
    and "validated_of resp = Some v"
  shows "owns N key (vk_TenantID v) (store (g_world g'))"
proof -
  let ?q = "validate_request N key"
  define r where "r = seen (n_dec N) (dec_validate (n_dec N)) ?q []"
  define w where "w = (g_world g)\<lparr>pos := Suc (pos (g_world g)),
    store := others (tape (g_world g) (pos (g_world g))) (store (g_world g))\<rparr>"
  have "decoded r = Some \<lparr>vr_APIKey = key\<rparr>"
    using assms(2) by (simp add: r_def seen_def validate_request_def sound_def)
  moreover have srv: "upstream_server N CustomerAccess ?q w' =
      (case validateKey (x_secret (n_ext N)) r w' of (a, w1) \<Rightarrow> (AccessReply a, w1))" for w'
    using validate_route [of "n_dec N" N key]
    by (simp add: access_server_def respond_def r_def) (simp add: validate_request_def)
  obtain a w1 where v: "validateKey (x_secret (n_ext N)) r w = (a, w1)" by fastforce
  have "resp = AccessReply a \<and> g_world g' = w1"
    using assms(1) srv [of w] v
    by (auto simp: fetch_def http_call_def Let_def w_def split: if_splits)
  moreover have "\<exists>c. a = WriteJSON c (ValidatedBody v)"
    using assms(3) calculation
    by (cases a) (auto simp: WriteJSON_def split: body.splits access_body.splits)
  ultimately show ?thesis
    using validateKey_owner v by (fastforce simp: owns_def)
qed

text \<open>The requests the gateway makes on its own account: validations and lookups of consumption.\<close>

definition sent_by_guards :: "surface \<Rightarrow> (service \<times> http_request) set" where
  "sent_by_guards N =
     range (\<lambda>key. (CustomerAccess, validate_request N key)) \<union>
     range (\<lambda>(t, rid). (UsageWebhooks, consumption_request t rid))"

lemma store_goes:
  assumes x: "fetch N CustomerAccess (validate_request N key) g = (Some resp, g1)" and "sound N g"
    and v: "validated_of resp = Some v" and y: "redis_call (set_cached key v) g1 = (y, g2)"
  shows "goes g1 {} g2 \<and> sound N g2 \<and> owns N key (vk_TenantID v) (store (g_world g2))"
proof -
  have o: "owns N key (vk_TenantID v) (store (g_world g1))" by (rule validated_owner [OF x assms(2) v])
  have "cache_fine N (snd (set_cached key v now r)) p"
    if "cache_fine N r p" "platform_step\<^sup>*\<^sup>* (store (g_world g1)) p" for now r p
    using that owns_run [OF o that(2)] by (auto simp: set_cached_def cache_fine_def)
  note g2 = redis_call_goes [OF y fetch_goes(2) [OF x assms(2)] this]
  have "owns N key (vk_TenantID v) (store (g_world g2))"
    using owns_run [OF o] g2(1) by (simp add: goes_def moves_def)
  then show ?thesis using g2 by blast
qed

lemma auth_goes:
  assumes "authMiddleware N cl rid g = (r, g')" and "sound N g"
  shows "goes g (sent_by_guards N) g' \<and> sound N g' \<and>
    (\<forall>tc. r = Inr tc \<longrightarrow> (\<exists>key. presented_key cl = Some key \<and>
       owns N key (tc_tenantId tc) (store (g_world g'))))"
proof (cases "presented_key cl")
  case None
  then show ?thesis using assms by (auto simp: authMiddleware_def)
next
  case (Some key)
  show ?thesis
  proof (cases "key = []")
    case True
    then show ?thesis using assms Some by (auto simp: authMiddleware_def)
  next
    case False
    obtain c g1 where c: "redis_call (\<lambda>now r. (cached key now r, r)) g = (c, g1)" by fastforce
    note c1 = redis_call_goes [OF c assms(2)]
    have g1: "goes g {} g1" "sound N g1" using c1 by auto
    have hit: "owns N key (vk_TenantID v) (store (g_world g1))" if h: "c = Some (Some v)" for v
    proof -
      obtain now r where "cache_fine N r (store (g_world g1))" "cached key now r = Some v"
        using c1(3) [OF _ h] by auto
      then show ?thesis
        unfolding cache_fine_def cached_def by (auto split: option.splits prod.splits if_splits)
    qed
    obtain x g2 where x: "fetch N CustomerAccess (validate_request N key) g1 = (x, g2)" by fastforce
    note g2 = fetch_goes [OF x g1(2)]
    have sub: "{(CustomerAccess, validate_request N key)} \<subseteq> sent_by_guards N"
      by (auto simp: sent_by_guards_def)
    have g2': "goes g (sent_by_guards N) g2" using goes_trans [OF g1(1) g2(1)] sub by simp
    have g1': "goes g (sent_by_guards N) g1" using g1(1) by (rule goes_mono) simp
    have stored: "goes g (sent_by_guards N) g3 \<and> sound N g3 \<and>
        owns N key (vk_TenantID v) (store (g_world g3))"
      if "x = Some resp" "validated_of resp = Some v" "redis_call (set_cached key v) g2 = (y, g3)"
      for resp v y g3
      using store_goes [OF x [unfolded that(1)] g1(2) that(2,3)] goes_trans [OF g2', of "{}" g3] by simp
    have "goes g (sent_by_guards N) g' \<and> sound N g' \<and>
      (\<forall>tc. r = Inr tc \<longrightarrow> owns N key (tc_tenantId tc) (store (g_world g')))"
    proof (cases c)
      case None
      then show ?thesis using assms(1) Some False c g1 g1' by (auto simp: authMiddleware_def)
    next
      case c: (Some hv)
      show ?thesis
      proof (cases hv)
        case (Some v)
        then show ?thesis
          using assms(1) \<open>presented_key cl = Some key\<close> False c hit g1 g1' \<open>redis_call _ g = _\<close>
          by (auto simp: authMiddleware_def applyTenantContext_def)
      next
        case None
        then have r: "(r, g') = (case x of
             None \<Rightarrow> (Inl (sendProblem 503 ''upstream_unavailable'' rid), g2)
           | Some resp \<Rightarrow>
               if upstream_status resp \<noteq> 200
               then (Inl (sendProblem 401 ''invalid_api_key'' rid), g2)
               else (case validated_of resp of
                   Some v \<Rightarrow>
                     (case redis_call (set_cached key v) g2 of
                        (None, g3) \<Rightarrow> (Inl (sendProblem 503 ''upstream_unavailable'' rid), g3)
                      | (Some _, g3) \<Rightarrow> (Inr (applyTenantContext v), g3))
                 | None \<Rightarrow> (Inl (sendProblem 503 ''upstream_unavailable'' rid), g2)))"
          using assms(1) \<open>presented_key cl = Some key\<close> False c \<open>redis_call _ g = _\<close> x
          by (simp add: authMiddleware_def Let_def split: option.splits)
        show ?thesis
          using r stored g2' g2(2)
          by (auto simp: applyTenantContext_def split: option.splits if_splits prod.splits)
      qed
    qed
    then show ?thesis using Some by blast
  qed
qed

section \<open>The other guards and the proxy\<close>

lemma window_fine:
  "cache_fine N r p \<Longrightarrow> cache_fine N (snd (incr_window k now r)) p"
  "cache_fine N r p \<Longrightarrow> cache_fine N (snd (expire_window k now r)) p"
  by (simp_all add: cache_fine_def incr_window_def expire_window_def split: prod.splits)

lemma rateLimit_goes:
  assumes "rateLimitMiddleware tc rid g = (r, g')" and "sound N g"
  shows "goes g {} g' \<and> sound N g'"
proof -
  define k where "k = (tc_tenantId tc, currentMinuteBucket (clock (store (g_world g))))"
  obtain c g1 where c: "redis_call (incr_window k) g = (c, g1)" by fastforce
  have g1: "goes g {} g1" "sound N g1"
    using redis_call_goes(1,2) [OF c assms(2)] window_fine(1) by blast+
  obtain e g2 where e: "redis_call (expire_window k) g1 = (e, g2)" by fastforce
  have g2: "goes g1 {} g2" "sound N g2"
    using redis_call_goes(1,2) [OF e g1(2)] window_fine(2) by blast+
  have "goes g {} g2" using goes_trans [OF g1(1) g2(1)] by simp
  then show ?thesis
    using assms(1) c e g1 g2(2)
    by (auto simp: rateLimitMiddleware_def Let_def k_def split: option.splits if_splits)
qed

lemma quota_goes:
  assumes "quotaGuard N tc rid g = (r, g')" and "sound N g"
  shows "goes g (sent_by_guards N) g' \<and> sound N g'"
proof -
  let ?q = "consumption_request (tc_tenantId tc) rid"
  obtain x g1 where x: "fetch N UsageWebhooks ?q g = (x, g1)" by fastforce
  have "g' = g1"
    using assms(1) x by (auto simp: quotaGuard_def split: option.splits if_splits)
  moreover have "goes g (sent_by_guards N) g1"
    using fetch_goes(1) [OF x assms(2)] by (rule goes_mono) (auto simp: sent_by_guards_def)
  ultimately show ?thesis using fetch_goes(2) [OF x assms(2)] by simp
qed

lemma concurrency_goes:
  assumes "concurrencyGuard tc rid g = (r, g')" and "sound N g"
  shows "goes g {} g' \<and> sound N g'"
proof -
  obtain x w1 where x:
    "call (reading (\<lambda>p. Inr (counter (tc_tenantId tc) (redis_state p)))) (g_world g) = (x, w1)"
    by fastforce
  have t: "tame platform_step (g_world g)" using assms(2) by (simp add: sound_def)
  have m: "moves platform_step (g_world g) w1"
    using reading_moves [OF t, of "\<lambda>p. Inr (counter (tc_tenantId tc) (redis_state p))"] x by simp
  have g': "g' = g\<lparr>g_world := w1\<rparr>"
    using assms(1) x by (auto simp: concurrencyGuard_def split: sum.splits if_splits)
  have "goes g {} g'" using m by (simp add: goes_def g')
  moreover have "sound N g'"
    using assms(2) m moves_tame [OF m t] cache_run by (auto simp: sound_def g' moves_def)
  ultimately show ?thesis by simp
qed

lemma guards_goes:
  assumes "guards N route tc rid g = (r, g')" and "sound N g"
  shows "goes g (sent_by_guards N) g' \<and> sound N g'"
proof -
  obtain a g1 where a: "rateLimitMiddleware tc rid g = (a, g1)" by fastforce
  have g1: "goes g (sent_by_guards N) g1" "sound N g1"
    using rateLimit_goes [OF a assms(2)] goes_mono by blast+
  obtain b g2 where b: "quotaGuard N tc rid g1 = (b, g2)" by fastforce
  have g2: "goes g (sent_by_guards N) g2" "sound N g2"
    using quota_goes [OF b g1(2)] goes_trans [OF g1(1)] by blast+
  obtain c g3 where c: "concurrencyGuard tc rid g2 = (c, g3)" by fastforce
  have g3: "goes g (sent_by_guards N) g3" "sound N g3"
    using concurrency_goes [OF c g2(2)] goes_trans [OF g2(1)] by blast+
  show ?thesis
    using assms(1) a b c g1 g2 g3
    by (auto simp: guards_def split: sum.splits if_splits)
qed

lemma requestId_goes:
  assumes "requestId cl g = (rid, g')" and "sound N g"
  shows "goes g {} g' \<and> sound N g'"
proof -
  have "g' = g \<or> g' = g\<lparr>g_world := (g_world g)\<lparr>pos := Suc (pos (g_world g))\<rparr>\<rparr>"
    using assms(1) by (auto simp: requestId_def Let_def split: option.splits list.splits)
  then show ?thesis
    using assms(2) by (auto simp: goes_def moves_def sound_def tame_def)
qed

text \<open>The tenant of every request that is sent.\<close>

lemma forward_goes:
  assumes x: "fetch N s (proxy_request N m target cl rid tc) g = (x, g')" and "sound N g"
    and "owns N key (tc_tenantId tc) (store (g_world g))" and "presented_key cl = Some key"
  shows "goes g {(s, q). \<exists>key t. presented_key cl = Some key \<and> owns N key t (store (g_world g')) \<and>
    hq_tenant q = uuid_text t} g'"
proof -
  note g' = fetch_goes(1) [OF x assms(2)]
  have "owns N key (tc_tenantId tc) (store (g_world g'))"
    using owns_run [OF assms(3)] g' by (simp add: goes_def moves_def)
  then show ?thesis
    using assms(4) by (intro goes_mono [OF g']) (auto simp: proxy_request_def split: prod.splits)
qed

lemma sent_authentic:
  assumes "sound N g" and "gateway N cl route g = (a, g')"
    and "(s, q) \<in> set (drop (length (g_sent g)) (g_sent g'))"
  shows "hq_tenant q = [] \<and> ((s, q) \<in> sent_by_guards N \<or> admin_target route cl \<noteq> None) \<or>
    (\<exists>key t. presented_key cl = Some key \<and> owns N key t (store (g_world g')) \<and>
       hq_tenant q = uuid_text t)"
proof (cases "cl_malformed cl")
  case True
  then show ?thesis using assms(2,3) by (simp add: gateway_def)
next
  case wf: False
  let ?ok = "\<lambda>g'. {(s, q). hq_tenant q = [] \<and> ((s, q) \<in> sent_by_guards N \<or> admin_target route cl \<noteq> None) \<or>
    (\<exists>key t. presented_key cl = Some key \<and> owns N key t (store (g_world g')) \<and>
       hq_tenant q = uuid_text t)}"
  have guard: "sent_by_guards N \<subseteq> ?ok h" for h
    by (auto simp: sent_by_guards_def validate_request_def consumption_request_def)
  obtain rid g0 where rid: "requestId cl g = (rid, g0)" by fastforce
  have g0: "goes g {} g0" "sound N g0" using requestId_goes [OF rid assms(1)] by auto
  have "goes g (?ok g') g'"
  proof (cases "plain_route route")
    case (Some code)
    then show ?thesis using assms(2) wf rid g0(1) goes_mono by (auto simp: gateway_def)
  next
    case plain: None
    show ?thesis
    proof (cases "admin_target route cl")
      case (Some st)
      obtain s' target where st: "st = (s', target)" by fastforce
      obtain path query where u: "url_target target = (path, query)" by fastforce
      let ?q = "\<lparr>hq_method = GET, hq_path = seen_path N path, hq_tenant = [], hq_reqid = rid,
                   hq_idem = [], hq_quota = [], hq_query = parse_query N query, hq_body = []\<rparr>"
      obtain x g1 where x: "fetch N s' ?q g0 = (x, g1)" by fastforce
      have "g' = g1"
        using assms(2) wf rid plain Some st u x by (auto simp: gateway_def admin_fetch_def split: option.splits)
      then have "goes g0 {(s', ?q)} g'" using fetch_goes(1) [OF x g0(2)] by simp
      then show ?thesis using goes_trans [OF g0(1)] Some by (simp add: goes_trans)
    next
      case None
      obtain r g1 where r: "authMiddleware N cl rid g0 = (r, g1)" by fastforce
      note auth = auth_goes [OF r g0(2)]
      have g1: "goes g (?ok h) g1" "sound N g1" for h
        using auth goes_trans [OF g0(1), of "sent_by_guards N" g1] guard by (auto intro: goes_mono)
      show ?thesis
      proof (cases r)
        case (Inl e)
        then show ?thesis using assms(2) wf rid plain None r g1(1) by (simp add: gateway_def)
      next
        case (Inr tc)
        then obtain key where key: "presented_key cl = Some key"
          and own: "owns N key (tc_tenantId tc) (store (g_world g1))" using auth by blast
        obtain b g2 where b: "guards N route tc rid g1 = (b, g2)" by fastforce
        note gd = guards_goes [OF b g1(2)]
        have g2: "goes g (?ok h) g2" for h
          using goes_trans [OF g1(1) conjunct1 [OF gd]] guard by blast
        show ?thesis
        proof (cases b)
          case (Inl e)
          then show ?thesis
            using assms(2) wf rid plain None r Inr b g2 by (simp add: gateway_def \<open>r = Inr tc\<close>)
        next
          case ok: (Inr u)
          show ?thesis
          proof (cases "public_target route cl tc")
            case None
            then show ?thesis
              using assms(2) wf rid plain \<open>admin_target route cl = None\<close> r Inr b ok g2
              by (simp add: gateway_def)
          next
            case (Some t)
            obtain s' m target where t: "t = (s', m, target)" by (metis prod_cases3)
            let ?q = "proxy_request N (if cl_head cl \<and> m = GET then HEAD else m) target cl rid tc"
            obtain x g3 where x: "fetch N s' ?q g2 = (x, g3)" by fastforce
            have g3: "g' = g3"
              using assms(2) wf rid plain \<open>admin_target route cl = None\<close> r Inr b ok Some t x
              by (auto simp: gateway_def proxyTo_def split: option.splits)
            have "owns N key (tc_tenantId tc) (store (g_world g2))"
              using owns_run [OF own] gd by (simp add: goes_def moves_def)
            note f = forward_goes [OF x conjunct2 [OF gd] this key]
            have "goes g2 (?ok g') g'" unfolding g3 by (rule goes_mono [OF f]) auto
            from goes_trans [OF g2 [of g'] this] show ?thesis by (simp only: subset_refl simp_thms)
          qed
        qed
      qed
    qed
  qed
  then obtain qs where "g_sent g' = g_sent g @ qs" "set qs \<subseteq> ?ok g'" by (auto simp: goes_def)
  then have "(s, q) \<in> ?ok g'" using assms(3) by auto
  then show ?thesis by simp
qed

text \<open>C9: The tenant is authentic: whatever the client sends, whoever else is at work and whatever
  fails, a request that the gateway passes on to a service carries the id of the tenant that owns the
  API key the client presented, or, if it is one of the gateway's own lookups or of the admin
  surface, none at all.\<close>

theorem gateway_authentic:
  assumes "sound N g" and "gateway N cl route g = (a, g')"
    and "(s, q) \<in> set (drop (length (g_sent g)) (g_sent g'))"
  shows "hq_tenant q = [] \<and> ((s, q) \<in> sent_by_guards N \<or> admin_target route cl \<noteq> None) \<or>
    (\<exists>key t. presented_key cl = Some key \<and> owns N key t (store (g_world g')) \<and>
       hq_tenant q = uuid_text t)"
  using assms by (rule sent_authentic)

end
