(* ===== verification/Throttle.thy ===== *)
theory Throttle
  imports Ingress
begin

text \<open>
  The gateway undisturbed: for how long a cached validation outlives a revocation, the fixed-window
  rate limit, and the decision on a new operation.
\<close>

section \<open>The gateway alone\<close>

definition alone :: "gworld \<Rightarrow> bool" where
  "alone g \<longleftrightarrow> quiet (g_world g) \<and> (\<forall>n p r. g_others g n p r = r)"

abbreviation now_of :: "gworld \<Rightarrow> gotime" where
  "now_of g \<equiv> clock (store (g_world g))"

abbreviation later :: "nat \<Rightarrow> gworld \<Rightarrow> gworld" where
  "later n g \<equiv> g\<lparr>g_world := (g_world g)\<lparr>pos := pos (g_world g) + n\<rparr>\<rparr>"

lemma redis_call_alone:
  assumes "alone g"
  shows "redis_call f g =
    (Some (fst (f (now_of g) (g_redis g))),
     (later 1 g)\<lparr>g_redis := snd (f (now_of g) (g_redis g))\<rparr>)"
  using assms by (simp add: redis_call_def alone_def quiet_def Let_def case_prod_beta)

lemma fetch_alone:
  assumes "alone g"
  shows "fetch N s q g =
    (let r = upstream_server N s q ((g_world g)\<lparr>pos := Suc (pos (g_world g))\<rparr>)
     in (Some (fst r), g\<lparr>g_world := snd r, g_sent := g_sent g @ [(s, q)]\<rparr>))"
  using assms by (simp add: fetch_def alone_def http_call_quiet Let_def)

lemma alone_pos [simp]: "alone (g\<lparr>g_world := (g_world g)\<lparr>pos := n\<rparr>\<rparr>) = alone g"
  and alone_redis [simp]: "alone (g\<lparr>g_redis := r\<rparr>) = alone g"
  and alone_sent [simp]: "alone (g\<lparr>g_sent := qs\<rparr>) = alone g"
  by (simp_all add: alone_def)

section \<open>Revocation and the cache\<close>

lemma validated_none:
  assumes "schema_ok p" and "k \<in> set (api_keys p)" and "ak_Status k = key_revoked"
  shows "validated_rows (ak_KeyHash k) p = []"
proof (rule ccontr)
  assume "validated_rows (ak_KeyHash k) p \<noteq> []"
  then obtain v where "accepts p (ak_KeyHash k) v"
    using validated_rows_iff by (metis list.set_intros(1) neq_Nil_conv)
  then obtain k' where k': "k' \<in> set (api_keys p)" "ak_KeyHash k' = ak_KeyHash k"
    "ak_Status k' = key_active" by (auto simp: accepts_def)
  have "inj_on ak_KeyHash (set (api_keys p))"
    using assms(1) by (auto simp: schema_ok_def unique_indexes_def distinct_map)
  then have "k' = k" using k' assms(2) by (auto dest: inj_onD)
  then show False using k'(3) assms(3) by simp
qed

text \<open>What the gateway learns when it has to ask the access service about a key.\<close>

lemma validation_fetched:
  assumes "alone g" and "dec_validate (n_dec N) (validate_body N key) = Some \<lparr>vr_APIKey = key\<rparr>"
    and "key \<noteq> []"
  obtains resp g2 where "fetch N CustomerAccess (validate_request N key) g = (Some (AccessReply resp), g2)"
    and "alone g2" and "store (g_world g2) = store (g_world g)" and "g_redis g2 = g_redis g"
    and "validated_rows (HashKey (x_secret (n_ext N)) key) (store (g_world g)) = [] \<Longrightarrow> r_status resp = 401"
    and "\<And>v. validated_rows (HashKey (x_secret (n_ext N)) key) (store (g_world g)) = [v] \<Longrightarrow>
      resp = WriteJSON 200 (ValidatedBody v)"
proof -
  let ?q = "validate_request N key" and ?w = "(g_world g)\<lparr>pos := Suc (pos (g_world g))\<rparr>"
  define r where "r = seen (n_dec N) (dec_validate (n_dec N)) ?q []"
  have d: "decoded r = Some \<lparr>vr_APIKey = key\<rparr>"
    using assms(2) by (simp add: r_def seen_def validate_request_def)
  have srv: "access_server (n_ext N) (n_dec N) ?q w = validateKey (x_secret (n_ext N)) r w" for w
    using validate_route [of "n_dec N" N key]
    by (simp add: access_server_def respond_def r_def) (simp add: validate_request_def)
  have v: "store (snd (validateKey (x_secret (n_ext N)) r ?w)) = store (g_world g)"
    "quiet (snd (validateKey (x_secret (n_ext N)) r ?w))"
    "validated_rows (HashKey (x_secret (n_ext N)) key) (store (g_world g)) = [] \<Longrightarrow>
      r_status (fst (validateKey (x_secret (n_ext N)) r ?w)) = 401"
    "\<And>v. validated_rows (HashKey (x_secret (n_ext N)) key) (store (g_world g)) = [v] \<Longrightarrow>
      fst (validateKey (x_secret (n_ext N)) r ?w) = WriteJSON 200 (ValidatedBody v)"
    using d assms(1,3)
    by (auto simp: validateKey_def ValidateKeyHash_def call_quiet alone_def reading_def Let_def
        split: list.splits sum.splits)
  let ?resp = "fst (validateKey (x_secret (n_ext N)) r ?w)"
    and ?g2 = "g\<lparr>g_world := snd (validateKey (x_secret (n_ext N)) r ?w),
      g_sent := g_sent g @ [(CustomerAccess, ?q)]\<rparr>"
  have "fetch N CustomerAccess ?q g = (Some (AccessReply ?resp), ?g2)"
    using assms(1) by (simp add: fetch_alone srv Let_def case_prod_beta)
  then show thesis using that [of ?resp ?g2] v assms(1) by (simp add: alone_def)
qed

text \<open>Passing the check without a cached validation, and what that leaves in the cache.\<close>

lemma auth_asks:
  assumes "alone g" and "dec_validate (n_dec N) (validate_body N key) = Some \<lparr>vr_APIKey = key\<rparr>"
    and "presented_key cl = Some key" and "key \<noteq> []" and "cached key (now_of g) (g_redis g) = None"
    and "validated_rows (HashKey (x_secret (n_ext N)) key) (store (g_world g)) = [v]"
  shows "fst (authMiddleware N cl rid g) = Inr (applyTenantContext v)"
proof -
  have "alone (later 1 g)" using assms(1) by simp
  then obtain resp g2 where "fetch N CustomerAccess (validate_request N key) (later 1 g) =
      (Some (AccessReply resp), g2)"
    and g2: "alone g2" "resp = WriteJSON 200 (ValidatedBody v)"
    by (rule validation_fetched [OF _ assms(2,4)]) (use assms(6) in simp)
  moreover have "redis_call (\<lambda>now r. (cached key now r, r)) g = (Some None, later 1 g)"
    using assms(1,5) by (simp add: redis_call_alone)
  ultimately show ?thesis
    using assms(3,4) by (simp add: authMiddleware_def redis_call_alone WriteJSON_def set_cached_def)
qed

lemma auth_stores:
  assumes "alone g" and "dec_validate (n_dec N) (validate_body N key) = Some \<lparr>vr_APIKey = key\<rparr>"
    and "presented_key cl = Some key" and "key \<noteq> []" and "cached key (now_of g) (g_redis g) = None"
    and "authMiddleware N cl rid g = (Inr tc, g1)"
  obtains v where "tc = applyTenantContext v"
    and "authcache (g_redis g1) key = Some (now_of g + 30 * second, v)"
proof -
  have "alone (later 1 g)" using assms(1) by simp
  then obtain resp g2 where x: "fetch N CustomerAccess (validate_request N key) (later 1 g) =
      (Some (AccessReply resp), g2)"
    and g2: "alone g2" "store (g_world g2) = store (g_world g)"
    by (rule validation_fetched [OF _ assms(2,4)]) simp
  have "redis_call (\<lambda>now r. (cached key now r, r)) g = (Some None, later 1 g)"
    using assms(1,5) by (simp add: redis_call_alone)
  then obtain v where "validated_of (AccessReply resp) = Some v" "tc = applyTenantContext v"
    "g1 = snd (redis_call (set_cached key v) g2)"
    using assms(3,4,6) x
    by (auto simp: authMiddleware_def Let_def redis_call_alone [OF g2(1)] split: if_splits option.splits)
  then show thesis
    using that [of v] g2 by (simp add: redis_call_alone set_cached_def VALIDATION_CACHE_TTL_SECONDS_def)
qed

text \<open>C27: Let the gateway let a client in with a key whose validation it had to ask for and has stored, and
  let the key be revoked and nobody store another validation of it. Then, undisturbed, whoever
  presents the key is let in with the limits it had until thirty seconds after that first check, and
  from then on is answered with 401: so long does a revocation take, and no longer.\<close>

theorem revocation_delay:
  assumes "alone g0" and "cached key (now_of g0) (g_redis g0) = None"
    and "presented_key cl0 = Some key" and "authMiddleware N cl0 rid0 g0 = (Inr tc, g1)"
    and "authcache (g_redis g) key = authcache (g_redis g1) key"
    and "alone g" and "schema_ok (store (g_world g))"
    and "dec_validate (n_dec N) (validate_body N key) = Some \<lparr>vr_APIKey = key\<rparr>"
    and "presented_key cl = Some key" and "key \<noteq> []"
    and "k \<in> set (api_keys (store (g_world g)))" and "ak_Status k = key_revoked"
    and "ak_KeyHash k = HashKey (x_secret (n_ext N)) key"
  shows "fst (authMiddleware N cl rid g) =
    (if now_of g < now_of g0 + 30 * second then Inr tc
     else Inl (sendProblem 401 ''invalid_api_key'' rid))"
proof -
  obtain v where tc: "tc = applyTenantContext v"
    and c: "authcache (g_redis g) key = Some (now_of g0 + 30 * second, v)"
    using auth_stores [OF assms(1,8,3,10,2,4)] assms(5) by metis
  show ?thesis
  proof (cases "now_of g < now_of g0 + 30 * second")
    case True
    then show ?thesis
      using assms(6,9,10) c tc by (simp add: authMiddleware_def redis_call_alone cached_def)
  next
    case False
    have "alone (later 1 g)" using assms(6) by simp
    then obtain resp g2 where x: "fetch N CustomerAccess (validate_request N key) (later 1 g) =
        (Some (AccessReply resp), g2)"
      and "validated_rows (HashKey (x_secret (n_ext N)) key) (store (g_world g)) = [] \<Longrightarrow> r_status resp = 401"
      by (rule validation_fetched [OF _ assms(8,10)]) simp
    moreover have "validated_rows (HashKey (x_secret (n_ext N)) key) (store (g_world g)) = []"
      using validated_none [OF assms(7,11,12)] assms(13) by simp
    moreover have "redis_call (\<lambda>now r. (cached key now r, r)) g = (Some None, later 1 g)"
      using False assms(6) c by (simp add: redis_call_alone cached_def)
    ultimately show ?thesis
      using False assms(9,10) by (simp add: authMiddleware_def)
  qed
qed

section \<open>The rate limit\<close>

definition at_time :: "gotime \<Rightarrow> gworld \<Rightarrow> gworld" where
  "at_time c g = g\<lparr>g_world := (g_world g)\<lparr>store := (store (g_world g))\<lparr>clock := c\<rparr>\<rparr>\<rparr>"

fun isr :: "'a + 'b \<Rightarrow> bool" where
  "isr (Inr x) = True"
| "isr (Inl x) = False"

text \<open>The tenant's requests at the given times, one after the other: which of them pass.\<close>

fun passes :: "tenant_context \<Rightarrow> string \<Rightarrow> gotime list \<Rightarrow> gworld \<Rightarrow> bool list" where
  "passes tc rid [] g = []"
| "passes tc rid (c # cs) g =
     (case rateLimitMiddleware tc rid (at_time c g) of (r, g1) \<Rightarrow> isr r # passes tc rid cs g1)"

lemma same_bucket:
  assumes "currentMinuteBucket c = currentMinuteBucket c'"
  shows "c < c' + 60 * second"
proof -
  let ?m = "60 * second"
  have m: "0 < ?m" by (simp add: second_def)
  define x where "x = c div ?m * ?m"
  have "c div ?m = c' div ?m" using assms by (simp add: currentMinuteBucket_def)
  then have "c = x + c mod ?m" "c' = x + c' mod ?m"
    using div_mult_mod_eq [of c ?m] div_mult_mod_eq [of c' ?m] by (simp_all add: x_def)
  moreover have "c mod ?m < ?m" "0 \<le> c' mod ?m" using m by simp_all
  ultimately show ?thesis by linarith
qed

text \<open>The window of the minute \<open>b\<close> has counted \<open>n\<close> requests and outlives the minute.\<close>

definition counted :: "uuid \<Rightarrow> int \<Rightarrow> nat \<Rightarrow> gateway_redis \<Rightarrow> bool" where
  "counted t b n r \<longleftrightarrow>
     (if n = 0 then windows r (t, b) = None
      else \<exists>e. windows r (t, b) = Some (int n, Some e) \<and> (\<forall>c. currentMinuteBucket c = b \<longrightarrow> c < e))"

lemma counted_next:
  assumes "counted t b n r" and l: "live_window (t, currentMinuteBucket c) c r = (m, e)"
    and w: "windows r' = (windows r)((t, currentMinuteBucket c) \<mapsto>
      (m + 1, if m = 0 then Some (c + 60 * second) else e))"
  shows "currentMinuteBucket c = b \<longrightarrow> m = int n"
    and "counted t b (if currentMinuteBucket c = b then Suc n else n) r'"
proof -
  show m: "currentMinuteBucket c = b \<longrightarrow> m = int n"
    using assms(1) l by (auto simp: counted_def live_window_def split: if_splits)
  show "counted t b (if currentMinuteBucket c = b then Suc n else n) r'"
  proof (cases "currentMinuteBucket c = b")
    case False
    then show ?thesis using assms(1) w by (simp add: counted_def)
  next
    case b: True
    show ?thesis
    proof (cases "n = 0")
      case True
      have "c' < c + 60 * second" if "currentMinuteBucket c' = b" for c'
        using same_bucket [of c' c] that b by simp
      then show ?thesis using True b m w by (simp add: counted_def)
    next
      case False
      then obtain e' where "windows r (t, b) = Some (int n, Some e')"
        and e': "\<forall>c. currentMinuteBucket c = b \<longrightarrow> c < e'"
        using assms(1) by (auto simp: counted_def)
      then have "e = Some e'" using l b by (auto simp: live_window_def)
      then show ?thesis using False b m w e' by (simp add: counted_def)
    qed
  qed
qed

lemma limiter_counts:
  assumes "alone g" and "counted (tc_tenantId tc) b n (g_redis g)"
  obtains r g1 where "rateLimitMiddleware tc rid (at_time c g) = (r, g1)" and "alone g1"
    and "currentMinuteBucket c = b \<longrightarrow> isr r = (int n < tc_rateLimitRpm tc)"
    and "counted (tc_tenantId tc) b (if currentMinuteBucket c = b then Suc n else n) (g_redis g1)"
proof -
  let ?k = "(tc_tenantId tc, currentMinuteBucket c)" and ?g = "at_time c g"
  obtain m e where l: "live_window ?k c (g_redis g) = (m, e)" by fastforce
  define g1 where "g1 = (later 1 ?g)\<lparr>g_redis := (g_redis g)
      \<lparr>windows := (windows (g_redis g))(?k \<mapsto> (m + 1, e))\<rparr>\<rparr>"
  have al: "alone ?g" "now_of ?g = c" "g_redis ?g = g_redis g"
    using assms(1) by (simp_all add: alone_def at_time_def)
  have c1: "redis_call (incr_window ?k) ?g = (Some (m + 1), g1)"
    by (simp add: redis_call_alone [OF al(1)] incr_window_def al(2,3) l g1_def)
  have al1: "alone g1" "now_of g1 = c" using al by (simp_all add: g1_def)
  define g2 where "g2 = (later 1 g1)\<lparr>g_redis := snd (expire_window ?k c (g_redis g1))\<rparr>"
  have c2: "redis_call (expire_window ?k) g1 = (Some (), g2)"
    by (simp add: redis_call_alone [OF al1(1)] al1(2) g2_def)
  define g3 where "g3 = (if m + 1 = 1 then g2 else g1)"
  have mw: "rateLimitMiddleware tc rid ?g =
      (if tc_rateLimitRpm tc < m + 1 then Inl (sendProblem 429 ''rate_limited'' rid) else Inr (), g3)"
    using c1 c2 by (simp add: rateLimitMiddleware_def al(2) g3_def Let_def)
  have "\<forall>x. e = Some x \<longrightarrow> c < x"
    using l by (auto simp: live_window_def split: option.splits if_splits)
  then have "windows (g_redis g3) = (windows (g_redis g))(?k \<mapsto>
      (m + 1, if m = 0 then Some (c + 60 * second) else e))"
    by (auto simp: g3_def g2_def g1_def expire_window_def live_window_def split: option.splits prod.splits)
  note step = counted_next [OF assms(2) l this]
  show thesis
    using that [OF mw] step al1(1) by (simp add: g3_def g2_def)
qed

text \<open>The fates of the requests in the minute \<open>b\<close>, in their order.\<close>

definition in_minute :: "int \<Rightarrow> gotime list \<Rightarrow> bool list \<Rightarrow> bool list" where
  "in_minute b cs ps = map snd (filter (\<lambda>(c, p). currentMinuteBucket c = b) (zip cs ps))"

lemma length_passes [simp]: "length (passes tc rid cs g) = length cs"
  by (induction cs arbitrary: g) (auto split: prod.splits)

lemma passes_counted:
  assumes "alone g" and "counted (tc_tenantId tc) b n (g_redis g)"
  shows "in_minute b cs (passes tc rid cs g) = map (\<lambda>i. int i < tc_rateLimitRpm tc)
    [n..<n + length (filter (\<lambda>c. currentMinuteBucket c = b) cs)]"
  using assms
proof (induction cs arbitrary: g n)
  case Nil
  then show ?case by (simp add: in_minute_def)
next
  case (Cons c cs)
  obtain r g1 where r: "rateLimitMiddleware tc rid (at_time c g) = (r, g1)" and g1: "alone g1"
    and p: "currentMinuteBucket c = b \<longrightarrow> isr r = (int n < tc_rateLimitRpm tc)"
    and ct: "counted (tc_tenantId tc) b (if currentMinuteBucket c = b then Suc n else n) (g_redis g1)"
    by (rule limiter_counts [OF Cons.prems, where c = c and rid = rid])
  show ?case
    using Cons.IH [OF g1 ct] p
    by (simp add: r in_minute_def upt_conv_Cons del: upt_Suc)
qed

text \<open>C26: Undisturbed, one request after the other: in every minute of the clock exactly the first \<open>rate_limit_rpm\<close> requests of a tenant pass the rate
  limiter, however its requests are spread over that minute, and whatever it sends in others.\<close>

theorem rate_limit_minutes:
  assumes "alone g" and "windows (g_redis g) (tc_tenantId tc, b) = None"
  shows "in_minute b cs (passes tc rid cs g) = map (\<lambda>i. int i < tc_rateLimitRpm tc)
    [0..<length (filter (\<lambda>c. currentMinuteBucket c = b) cs)]"
  using passes_counted [OF assms(1), of tc b 0 cs rid] assms(2) by (simp add: counted_def)

text \<open>In one minute.\<close>

theorem rate_limit_window:
  assumes "alone g" and "\<forall>c\<in>set cs. currentMinuteBucket c = b"
    and "windows (g_redis g) (tc_tenantId tc, b) = None"
  shows "passes tc rid cs g = map (\<lambda>i. int i < tc_rateLimitRpm tc) [0..<length cs]"
proof -
  have "filter (\<lambda>c. currentMinuteBucket c = b) cs = cs" using assms(2) by (simp add: filter_id_conv)
  moreover have "filter (\<lambda>(c, p). currentMinuteBucket c = b) (zip cs (passes tc rid cs g)) =
      zip cs (passes tc rid cs g)"
    using assms(2) by (auto simp: filter_id_conv dest: set_zip_leftD)
  ultimately show ?thesis
    using passes_counted [OF assms(1), of tc b 0 cs rid] assms(3)
    by (simp add: counted_def in_minute_def)
qed

lemma minutes_of_burst:
  assumes "c0 \<le> c" and "c < c0 + 60 * second"
  shows "currentMinuteBucket c = currentMinuteBucket c0 \<or>
    currentMinuteBucket c = currentMinuteBucket c0 + 1"
proof -
  have "0 < 60 * second" by (simp add: second_def)
  then have "c0 div (60 * second) \<le> c div (60 * second)"
    "c div (60 * second) \<le> (c0 + 60 * second) div (60 * second)"
    using assms by (intro zdiv_mono1; simp)+
  moreover have "(c0 + 60 * second) div (60 * second) = c0 div (60 * second) + 1"
    by (simp add: second_def)
  ultimately show ?thesis by (auto simp: currentMinuteBucket_def)
qed

lemma passed_in_minute:
  assumes "alone g" and "windows (g_redis g) (tc_tenantId tc, b) = None"
  shows "length (filter id (in_minute b cs (passes tc rid cs g))) \<le> nat (tc_rateLimitRpm tc)"
proof -
  have "length (filter (\<lambda>i. int i < m) [0..<n]) \<le> nat m" for m n
  proof -
    have "length (filter (\<lambda>i. int i < m) [0..<n]) = card {i. i < n \<and> int i < m}"
      by (simp add: distinct_card [symmetric])
    also have "\<dots> \<le> card {..<nat m}" by (rule card_mono) auto
    finally show ?thesis by simp
  qed
  then show ?thesis
    using passes_counted [OF assms(1), of tc b 0 cs rid] assms(2)
    by (simp add: counted_def filter_map o_def)
qed

text \<open>The limit is one of calendar minutes: in an interval of sixty seconds a tenant can get twice the limit
  through, half of it on either side of a full minute, but never more.\<close>

theorem rate_burst:
  assumes "alone g" and "\<And>b. windows (g_redis g) (tc_tenantId tc, b) = None"
    and "\<forall>c\<in>set cs. c0 \<le> c \<and> c < c0 + 60 * second"
  shows "length (filter id (passes tc rid cs g)) \<le> 2 * nat (tc_rateLimitRpm tc)"
proof -
  let ?ps = "passes tc rid cs g" and ?b = "currentMinuteBucket c0"
  have split: "length (filter id ps) = length (filter id (in_minute b xs ps)) +
      length (filter id (in_minute (b + 1) xs ps))"
    if "length ps = length xs" "\<forall>c\<in>set xs. currentMinuteBucket c = b \<or> currentMinuteBucket c = b + 1"
    for b ps xs
    using that by (induction ps xs rule: list_induct2) (auto simp: in_minute_def)
  have "\<forall>c\<in>set cs. currentMinuteBucket c = ?b \<or> currentMinuteBucket c = ?b + 1"
    using assms(3) minutes_of_burst by blast
  from split [OF length_passes this, of tc rid g]
  show ?thesis
    using passed_in_minute [OF assms(1,2), of ?b cs rid] passed_in_minute [OF assms(1,2), of "?b + 1" cs rid]
    by simp
qed

section \<open>The decision on a new operation\<close>

lemma length_uuid_text: "length (uuid_text u) = 36"
  by (simp add: uuid_text_def Let_def)

lemma uuid_text_nonempty [simp]: "uuid_text u \<noteq> []"
  using length_uuid_text [of u] by auto

lemma rateLimit_alone:
  fixes tc :: tenant_context
  assumes "alone g"
  defines "k \<equiv> (tc_tenantId tc, currentMinuteBucket (now_of g))"
  obtains g1 where "rateLimitMiddleware tc rid g =
      (if tc_rateLimitRpm tc < fst (live_window k (now_of g) (g_redis g)) + 1
       then Inl (sendProblem 429 ''rate_limited'' rid) else Inr (), g1)"
    and "alone g1" and "store (g_world g1) = store (g_world g)"
    and "tape (g_world g1) = tape (g_world g)"
    and "authcache (g_redis g1) = authcache (g_redis g)" and "g_sent g1 = g_sent g"
    and "fst (live_window k (now_of g) (g_redis g1)) = fst (live_window k (now_of g) (g_redis g)) + 1"
    and "pos (g_world g) \<le> pos (g_world g1)"
proof -
  obtain n e where l: "live_window k (now_of g) (g_redis g) = (n, e)" by fastforce
  define g1 where "g1 = (later 1 g)\<lparr>g_redis := (g_redis g)
      \<lparr>windows := (windows (g_redis g))(k \<mapsto> (n + 1, e))\<rparr>\<rparr>"
  have c: "redis_call (incr_window k) g = (Some (n + 1), g1)"
    by (simp add: redis_call_alone [OF assms(1)] incr_window_def l g1_def)
  have g1: "alone g1" "store (g_world g1) = store (g_world g)" "tape (g_world g1) = tape (g_world g)"
    "authcache (g_redis g1) = authcache (g_redis g)" "g_sent g1 = g_sent g"
    using assms(1) by (simp_all add: g1_def)
  have e: "\<forall>x. e = Some x \<longrightarrow> now_of g < x"
    using l by (auto simp: live_window_def split: option.splits if_splits)
  then have live: "live_window k (now_of g) (g_redis g1) = (n + 1, e)"
    by (auto simp: live_window_def g1_def split: option.splits)
  define g2 where "g2 = (later 1 g1)\<lparr>g_redis := snd (expire_window k (now_of g1) (g_redis g1))\<rparr>"
  have live2: "fst (live_window k (now_of g) (g_redis g2)) = n + 1"
    using live by (simp add: g2_def g1(2) expire_window_def) (simp add: live_window_def second_def)
  have p: "pos (g_world g) \<le> pos (g_world g1)" "pos (g_world g) \<le> pos (g_world g2)"
    by (simp_all add: g1_def g2_def)
  have x: "redis_call (expire_window k) g1 = (Some (), g2)"
    by (simp add: redis_call_alone [OF g1(1)] g2_def)
  have g2: "alone g2" "store (g_world g2) = store (g_world g)" "tape (g_world g2) = tape (g_world g)"
    "authcache (g_redis g2) = authcache (g_redis g)" "g_sent g2 = g_sent g"
    using g1 by (simp_all add: g2_def expire_window_def split: prod.splits)
  show thesis
  proof (cases "n + 1 = 1")
    case True
    show thesis
      by (rule that [of g2])
        (use True c x g2 live2 p in \<open>simp_all add: rateLimitMiddleware_def Let_def l flip: k_def\<close>)
  next
    case False
    show thesis
      by (rule that [of g1])
        (use False c g1 live p in \<open>simp_all add: rateLimitMiddleware_def Let_def l flip: k_def\<close>)
  qed
qed

definition units_of :: "surface \<Rightarrow> uuid \<Rightarrow> platform \<Rightarrow> int" where
  "units_of N t p = sum_list (map us_Units (month_events (x_month (n_ext N)) t p))"

lemma quota_alone:
  assumes "alone g" and "ident (n_dec N) (uuid_text (tc_tenantId tc)) = UuidText (tc_tenantId tc)"
  obtains g1 where "quotaGuard N tc rid g =
      (if tc_monthlyQuota tc \<le> js_number (units_of N (tc_tenantId tc) (store (g_world g)))
       then Inl (sendProblem 429 ''quota_exhausted'' rid) else Inr (), g1)"
    and "alone g1" and "store (g_world g1) = store (g_world g)"
    and "tape (g_world g1) = tape (g_world g)" and "g_redis g1 = g_redis g"
    and "pos (g_world g) \<le> pos (g_world g1)"
proof -
  let ?q = "consumption_request (tc_tenantId tc) rid"
  let ?w = "(g_world g)\<lparr>pos := Suc (pos (g_world g))\<rparr>"
  have q: "quiet ?w" using assms(1) by (simp add: alone_def)
  have "lookup (usage_routes (n_dec N) ?q) GET
      [''internal'', ''usage'', ''consumption'', uuid_text (tc_tenantId tc)] False =
      Api (GetConsumption (seen (n_dec N) (\<lambda>_. None) ?q (uuid_text (tc_tenantId tc))))"
    by (simp add: usage_routes_def Let_def)
  then have "usage_server (n_ext N) (n_dec N) ?q ?w = getConsumption (x_month (n_ext N))
      (seen (n_dec N) (\<lambda>_. None) ?q (uuid_text (tc_tenantId tc))) ?w"
    by (simp add: usage_server_def respond_def) (simp add: consumption_request_def)
  also have "\<dots> = (WriteJSON 200 (UnitsConsumedBody (units_of N (tc_tenantId tc) (store (g_world g)))),
      ?w\<lparr>pos := Suc (Suc (pos (g_world g)))\<rparr>)"
    using q assms(2)
    by (simp add: getConsumption_def GetUsageSummary_def call_quiet usage_row_def reading_def
        seen_def units_of_def Let_def)
  finally have "fetch N UsageWebhooks ?q g =
      (Some (UsageReply (WriteJSON 200 (UnitsConsumedBody
         (units_of N (tc_tenantId tc) (store (g_world g)))))),
       (later 2 g)\<lparr>g_sent := g_sent g @ [(UsageWebhooks, ?q)]\<rparr>)"
    using assms(1) by (simp add: fetch_alone)
  then show thesis
    using assms(1)
    by (intro that [of "(later 2 g)\<lparr>g_sent := g_sent g @ [(UsageWebhooks, ?q)]\<rparr>"])
      (simp_all add: quotaGuard_def WriteJSON_def)
qed

text \<open>C20: Undisturbed, the gateway lets a new operation through exactly if the tenant is within its rate
  limit, has not used up its monthly quota and runs fewer operations than it may; otherwise the
  answer is 429 and names the first of the three that fails, in this order.\<close>

theorem admission_decision:
  fixes tc :: tenant_context and g :: gworld
  assumes "alone g" and "ident (n_dec N) (uuid_text (tc_tenantId tc)) = UuidText (tc_tenantId tc)"
  defines "t \<equiv> tc_tenantId tc" and "p \<equiv> store (g_world g)"
  shows "fst (guards N CreateOp tc rid g) =
    (if tc_rateLimitRpm tc <
          fst (live_window (t, currentMinuteBucket (clock p)) (clock p) (g_redis g)) + 1
     then Inl (sendProblem 429 ''rate_limited'' rid)
     else if tc_monthlyQuota tc \<le> js_number (units_of N t p)
     then Inl (sendProblem 429 ''quota_exhausted'' rid)
     else if tc_maxConcurrentOps tc \<le> js_number (counter t (redis_state p))
     then Inl (sendProblem 429 ''concurrency_limit_exceeded'' rid)
     else Inr ())"
proof -
  obtain g1 where r: "rateLimitMiddleware tc rid g =
      (if tc_rateLimitRpm tc <
          fst (live_window (t, currentMinuteBucket (clock p)) (clock p) (g_redis g)) + 1
       then Inl (sendProblem 429 ''rate_limited'' rid) else Inr (), g1)"
    and g1: "alone g1" "store (g_world g1) = p"
    using rateLimit_alone [OF assms(1)] unfolding t_def p_def by blast
  obtain g2 where q: "quotaGuard N tc rid g1 =
      (if tc_monthlyQuota tc \<le> js_number (units_of N t p)
       then Inl (sendProblem 429 ''quota_exhausted'' rid) else Inr (), g2)"
    and g2: "alone g2" "store (g_world g2) = p"
    using quota_alone [OF g1(1) assms(2)] unfolding t_def g1(2) by metis
  have "fst (concurrencyGuard tc rid g2) =
      (if tc_maxConcurrentOps tc \<le> js_number (counter t (redis_state p))
       then Inl (sendProblem 429 ''concurrency_limit_exceeded'' rid) else Inr ())"
    using g2 by (simp add: concurrencyGuard_def call_quiet alone_def reading_def t_def)
  then show ?thesis by (simp add: guards_def r q)
qed

text \<open>
  A new operation within all three limits passes; the guards change nothing on the platform, and the
  window of the minute has counted one more request.
\<close>

lemma guards_pass:
  fixes tc :: tenant_context and g :: gworld
  assumes "alone g" and "ident (n_dec N) (uuid_text (tc_tenantId tc)) = UuidText (tc_tenantId tc)"
  defines "t \<equiv> tc_tenantId tc" and "p \<equiv> store (g_world g)"
  defines "k \<equiv> (t, currentMinuteBucket (clock p))"
  assumes "fst (live_window k (clock p) (g_redis g)) < tc_rateLimitRpm tc"
    and "js_number (units_of N t p) < tc_monthlyQuota tc"
    and "js_number (counter t (redis_state p)) < tc_maxConcurrentOps tc"
  obtains g3 where "guards N CreateOp tc rid g = (Inr (), g3)" and "alone g3"
    and "store (g_world g3) = p" and "tape (g_world g3) = tape (g_world g)"
    and "authcache (g_redis g3) = authcache (g_redis g)"
    and "fst (live_window k (clock p) (g_redis g3)) = fst (live_window k (clock p) (g_redis g)) + 1"
    and "pos (g_world g) \<le> pos (g_world g3)"
proof -
  obtain g1 where r: "rateLimitMiddleware tc rid g =
      (if tc_rateLimitRpm tc < fst (live_window k (clock p) (g_redis g)) + 1
       then Inl (sendProblem 429 ''rate_limited'' rid) else Inr (), g1)"
    and g1: "alone g1" "store (g_world g1) = p" "tape (g_world g1) = tape (g_world g)"
      "authcache (g_redis g1) = authcache (g_redis g)"
      "fst (live_window k (clock p) (g_redis g1)) = fst (live_window k (clock p) (g_redis g)) + 1"
      "pos (g_world g) \<le> pos (g_world g1)"
    using rateLimit_alone [OF assms(1), of tc rid] unfolding t_def p_def k_def by blast
  obtain g2 where q: "quotaGuard N tc rid g1 =
      (if tc_monthlyQuota tc \<le> js_number (units_of N t p)
       then Inl (sendProblem 429 ''quota_exhausted'' rid) else Inr (), g2)"
    and g2: "alone g2" "store (g_world g2) = p" "tape (g_world g2) = tape (g_world g1)"
      "g_redis g2 = g_redis g1" "pos (g_world g1) \<le> pos (g_world g2)"
    using quota_alone [OF g1(1) assms(2), of rid] unfolding t_def g1(2) by metis
  have "concurrencyGuard tc rid g2 = (Inr (), later 1 g2)"
    using g2(1,2) assms(8)
    by (simp add: concurrencyGuard_def call_quiet alone_def reading_def t_def)
  then show thesis
    using assms(6,7) g1 g2 by (intro that [of "later 1 g2"]) (simp_all add: guards_def r q)
qed

text \<open>The quota guard fails open: if the lookup is not answered, the request passes.\<close>

lemma quota_fails_open:
  assumes "outcome (tape (g_world g) (pos (g_world g))) \<noteq> Done"
  shows "fst (quotaGuard N tc rid g) = Inr ()"
  using assms
  by (auto simp: quotaGuard_def fetch_def http_call_def Let_def split: prod.splits option.splits)

end
