(* ===== verification/Escapes.thy ===== *)
theory Escapes
  imports Throttle
begin

text \<open>
  What a path parameter can reach. A plain id leads to operations of the client's own tenant only. But
  the gateway puts the decoded text of \<open>:id\<close> into a URL unescaped, so dot segments in it lead to
  routes it does not expose, and the routes it does expose for an API key take an id of any tenant.
\<close>

section \<open>Texts in a URL\<close>

definition plain_char :: "char \<Rightarrow> bool" where
  "plain_char c \<longleftrightarrow> c \<in> set ''0123456789abcdefghijklmnopqrstuvwxyz-''"

abbreviation plain :: "string \<Rightarrow> bool" where
  "plain s \<equiv> \<forall>c\<in>set s. plain_char c"

text \<open>
  Plain texts pass URL encoding and decoding unchanged, and PostgreSQL reads back the text of a UUID it
  wrote.
\<close>

definition plain_surface :: "surface \<Rightarrow> bool" where
  "plain_surface N \<longleftrightarrow>
     (\<forall>ps. (\<forall>s\<in>set ps. plain s) \<longrightarrow> seen_path N ps = ps) \<and>
     (\<forall>u. ident (n_dec N) (uuid_text u) = UuidText u)"

lemma hex_digit_plain:
  assumes "n < 16"
  shows "plain_char (hex_digit n)"
proof -
  have "\<forall>n<16. plain_char (hex_digit n)" by code_simp
  then show ?thesis using assms by simp
qed

lemma plain_uuid_text [simp]: "plain (uuid_text u)"
proof -
  have "plain_char (CHR ''-'')" by code_simp
  then show ?thesis
    by (auto simp: uuid_text_def Let_def hex_digit_plain dest!: in_set_takeD in_set_dropD)
qed

lemma plain_chars:
  assumes "plain_char c"
  shows "32 < (of_char c :: nat) \<and> c \<noteq> CHR ''#'' \<and> c \<noteq> CHR ''?'' \<and> c \<noteq> CHR ''/'' \<and> c \<noteq> CHR 0x5C"
proof -
  have "\<forall>c\<in>set ''0123456789abcdefghijklmnopqrstuvwxyz-''.
      32 < (of_char c :: nat) \<and> c \<noteq> CHR ''#'' \<and> c \<noteq> CHR ''?'' \<and> c \<noteq> CHR ''/'' \<and> c \<noteq> CHR 0x5C"
    by code_simp
  then show ?thesis using assms unfolding plain_char_def by (rule bspec)
qed

definition clean_char :: "char \<Rightarrow> bool" where
  "clean_char c \<longleftrightarrow> 32 < (of_char c :: nat) \<and> c \<noteq> CHR ''#'' \<and> c \<noteq> CHR ''?''"

lemma clean_not_dropped: "clean_char c \<Longrightarrow> c \<notin> {CHR 0x09, CHR 0x0A, CHR 0x0D}"
  by (auto simp: clean_char_def)

lemma url_target_clean:
  assumes "\<forall>c\<in>set t. clean_char c"
  shows "url_target t =
    (resolve [] (split_on (\<lambda>c. c = CHR ''/'' \<or> c = CHR 0x5C) (tl t)), [])"
proof -
  have u: "url_clean t = t"
  proof -
    have "dropWhile (\<lambda>c. (of_char c :: nat) \<le> 32) (rev t) = rev t"
      using assms by (cases "rev t") (auto simp: clean_char_def not_le simp flip: set_rev [of t])
    moreover have "\<forall>c\<in>set t. c \<notin> {CHR 0x09, CHR 0x0A, CHR 0x0D}"
      using assms clean_not_dropped by blast
    ultimately show ?thesis by (simp add: url_clean_def filter_id_conv)
  qed
  have h: "takeWhile (\<lambda>c. c \<noteq> CHR ''#'') t = t" "takeWhile (\<lambda>c. c \<noteq> CHR ''?'') t = t"
    using assms by (auto simp: clean_char_def takeWhile_eq_all_conv)
  show ?thesis unfolding url_target_def Let_def u h by simp
qed

lemma clean_plain: "plain_char c \<Longrightarrow> clean_char c"
  using plain_chars [of c] by (simp add: clean_char_def)

lemma split_on_none: "\<forall>c\<in>set s. \<not> p c \<Longrightarrow> split_on p s = [s]"
  by (induction s) auto

lemma split_on_plain:
  "plain s \<Longrightarrow> split_on (\<lambda>c. c = CHR ''/'' \<or> c = CHR 0x5C) s = [s]"
  by (rule split_on_none) (auto dest: plain_chars)

lemma uuid_text_dots [simp]: "\<not> double_dot (uuid_text u)" "\<not> single_dot (uuid_text u)"
proof -
  have "length (map lower_char (uuid_text u)) = 36" by (simp add: length_uuid_text)
  then show "\<not> double_dot (uuid_text u)" "\<not> single_dot (uuid_text u)"
    by (auto simp: double_dot_def single_dot_def simp del: length_map)
qed

lemma dots [simp]: "double_dot ''..''" "\<not> double_dot ''v1''" "\<not> single_dot ''v1''"
  "\<not> double_dot ''operations''" "\<not> single_dot ''operations''" "\<not> double_dot ''internal''"
  "\<not> single_dot ''internal''" "\<not> double_dot ''api-keys''" "\<not> single_dot ''api-keys''"
  by code_simp+

lemma plain_words [simp]: "plain ''v1''" "plain ''operations''" "plain ''internal''"
  "plain ''api-keys''"
  by code_simp+

lemma targets:
  "url_target (''/v1/operations/'' @ uuid_text u) = ([''v1'', ''operations'', uuid_text u], [])"
  "url_target (''/v1/operations/'' @ ''../../internal/operations/'' @ uuid_text u) =
     ([''internal'', ''operations'', uuid_text u], [])"
  "url_target (''/internal/api-keys/'' @ uuid_text u) = ([''internal'', ''api-keys'', uuid_text u], [])"
proof -
  have c: "\<forall>c\<in>set (a @ uuid_text u). clean_char c" if "\<forall>c\<in>set a. clean_char c" for a
    using that plain_uuid_text clean_plain by auto
  have lits: "\<forall>c\<in>set ''/v1/operations/''. clean_char c" "\<forall>c\<in>set ''/internal/api-keys/''. clean_char c"
    "\<forall>c\<in>set (''/v1/operations/'' @ ''../../internal/operations/''). clean_char c"
    by code_simp+
  note t = lits [THEN c, THEN url_target_clean]
  show "url_target (''/v1/operations/'' @ uuid_text u) = ([''v1'', ''operations'', uuid_text u], [])"
    unfolding t by (simp add: split_on_plain)
  show "url_target (''/internal/api-keys/'' @ uuid_text u) = ([''internal'', ''api-keys'', uuid_text u], [])"
    unfolding t by (simp add: split_on_plain)
  show "url_target (''/v1/operations/'' @ ''../../internal/operations/'' @ uuid_text u) =
     ([''internal'', ''operations'', uuid_text u], [])"
    unfolding append_assoc [symmetric] t by (simp add: split_on_plain)
qed

section \<open>A request that passes\<close>

text \<open>
  The client presents a key with a live cached validation, and its tenant is within its rate limit;
  its body is parsed, and the method is that of the route.
\<close>

definition admitted :: "client_request \<Rightarrow> gworld \<Rightarrow> ValidatedKey \<Rightarrow> bool" where
  "admitted cl g v \<longleftrightarrow>
     \<not> cl_malformed cl \<and> \<not> cl_head cl \<and>
     (\<exists>key. presented_key cl = Some key \<and> key \<noteq> [] \<and> cached key (now_of g) (g_redis g) = Some v) \<and>
     fst (live_window (vk_TenantID v, currentMinuteBucket (now_of g)) (now_of g) (g_redis g)) <
       js_number (vk_RateLimitRPM v)"

lemma requestId_alone:
  assumes "alone g"
  obtains rid n where "requestId cl g = (rid, later n g)"
proof -
  have "\<exists>rid n. requestId cl g = (rid, later n g)"
  proof (cases "cl_headers cl ''x-request-id''")
    case (Some h)
    then show ?thesis
      by (cases h) (auto simp: requestId_def Let_def intro: exI [of _ 0] exI [of _ 1])
  qed (auto simp: requestId_def Let_def intro: exI [of _ 1])
  then show ?thesis using that by blast
qed

lemma admitted_auth:
  assumes "alone g" and "admitted cl g v"
  obtains rid n where "requestId cl g = (rid, later n g)"
    and "authMiddleware N cl rid (later n g) = (Inr (applyTenantContext v), later 1 (later n g))"
proof -
  obtain rid n where rid: "requestId cl g = (rid, later n g)" by (rule requestId_alone [OF assms(1)])
  have "alone (later n g)" using assms(1) by simp
  then have "authMiddleware N cl rid (later n g) = (Inr (applyTenantContext v), later 1 (later n g))"
    using assms(2) by (auto simp: admitted_def authMiddleware_def redis_call_alone)
  then show thesis using rid that by blast
qed

lemma relayed:
  assumes "alone g" and "admitted cl g v"
    and "plain_route route = None" and "route \<noteq> CreateOp" and "admin_target route cl = None"
    and "public_target route cl (applyTenantContext v) = Some (s, m, target)"
    and "url_target target = (path, query)" and "seen_path N path = path"
  obtains q w where "fst (gateway N cl route g) = Relayed (fst (upstream_server N s q w))"
    and "store (g_world (snd (gateway N cl route g))) = store (snd (upstream_server N s q w))"
    and "quiet w" and "store w = store (g_world g)"
    and "hq_method q = m" and "hq_path q = path" and "hq_tenant q = uuid_text (vk_TenantID v)"
    and "g_sent (snd (gateway N cl route g)) = g_sent g @ [(s, q)]"
proof -
  let ?tc = "applyTenantContext v"
  obtain rid n where rid: "requestId cl g = (rid, later n g)"
    and a: "authMiddleware N cl rid (later n g) = (Inr ?tc, later 1 (later n g))"
    by (rule admitted_auth [OF assms(1,2)])
  define g0 where "g0 = later 1 (later n g)"
  have al0: "alone g0" "store (g_world g0) = store (g_world g)" "g_redis g0 = g_redis g" "g_sent g0 = g_sent g"
    using assms(1) by (simp_all add: g0_def)
  obtain g1 where rl: "rateLimitMiddleware ?tc rid g0 = (Inr (), g1)"
    and g1: "alone g1" "store (g_world g1) = store (g_world g)" "g_sent g1 = g_sent g"
  proof (rule rateLimit_alone [OF al0(1), of ?tc rid])
    fix g1
    assume r: "rateLimitMiddleware ?tc rid g0 =
      (if tc_rateLimitRpm ?tc < fst (live_window (tc_tenantId ?tc,
            currentMinuteBucket (now_of g0)) (now_of g0)
          (g_redis g0)) + 1
       then Inl (sendProblem 429 ''rate_limited'' rid) else Inr (), g1)"
      and g1: "alone g1" "store (g_world g1) = store (g_world g0)" "g_sent g1 = g_sent g0"
    have "rateLimitMiddleware ?tc rid g0 = (Inr (), g1)"
      unfolding r using assms(2) al0 by (simp add: admitted_def applyTenantContext_def)
    then show thesis using that g1 al0 by simp
  qed
  have gd: "guards N route ?tc rid g0 = (Inr (), g1)"
    using assms(4) by (simp add: guards_def rl)
  define q where "q = proxy_request N m target cl rid ?tc"
  define w where "w = (g_world g1)\<lparr>pos := Suc (pos (g_world g1))\<rparr>"
  have "gateway N cl route g = proxyTo N s m target cl rid ?tc g1"
    using assms(2,3,5,6) by (simp add: gateway_def rid a [folded g0_def] gd admitted_def)
  also have "\<dots> = (Relayed (fst (upstream_server N s q w)),
      g1\<lparr>g_world := snd (upstream_server N s q w), g_sent := g_sent g1 @ [(s, q)]\<rparr>)"
    using g1(1) by (simp add: proxyTo_def fetch_alone Let_def flip: q_def w_def)
  finally have g: "gateway N cl route g = \<dots>" .
  have w: "quiet w" "store w = store (g_world g)" using g1 by (simp_all add: w_def alone_def)
  have q: "hq_method q = m" "hq_path q = path" "hq_tenant q = uuid_text (vk_TenantID v)"
    using assms(7,8) by (simp_all add: q_def proxy_request_def applyTenantContext_def)
  show thesis by (rule that [OF _ _ w q]) (simp_all add: g g1(3))
qed

text \<open>Where the three paths lead.\<close>

lemma reached:
  assumes "plain_surface N"
  shows "hq_method q = GET \<Longrightarrow> hq_path q = [''v1'', ''operations'', uuid_text u] \<Longrightarrow>
      operations_server x (n_dec N) q w = getOperation (seen (n_dec N) (\<lambda>_. None) q (uuid_text u)) w"
    and "hq_method q = GET \<Longrightarrow> hq_path q = [''internal'', ''operations'', uuid_text u] \<Longrightarrow>
      operations_server x (n_dec N) q w =
        adminGetOperation (seen (n_dec N) (\<lambda>_. None) q (uuid_text u)) w"
    and "hq_method q = DELETE \<Longrightarrow> hq_path q = [''internal'', ''api-keys'', uuid_text u] \<Longrightarrow>
      access_server x (n_dec N) q w = revokeAPIKey (seen (n_dec N) (\<lambda>_. None) q (uuid_text u)) w"
    and "url_id (seen (n_dec N) d q (uuid_text u)) = UuidText u"
    and "hq_tenant q = uuid_text t \<Longrightarrow> h_tenant (seen (n_dec N) d q p) = UuidText t"
  using assms
  by (simp_all add: operations_server_def access_server_def respond_def operations_routes_def
      access_routes_def Let_def seen_def plain_surface_def)

lemma plain_path:
  assumes "plain_surface N" and "plain a" and "plain b"
  shows "seen_path N [a, b, uuid_text u] = [a, b, uuid_text u]"
  using assms by (simp add: plain_surface_def)

section \<open>A plain id\<close>

lemma auth_not_relayed: "fst (authMiddleware N cl rid g) \<noteq> Inl (Relayed r)"
  by (auto simp: authMiddleware_def sendProblem_def Let_def split: option.splits prod.splits)

lemma guards_not_relayed: "fst (guards N route tc rid g) \<noteq> Inl (Relayed r)"
  by (auto simp: guards_def rateLimitMiddleware_def quotaGuard_def concurrencyGuard_def sendProblem_def
      Let_def split: option.splits prod.splits sum.splits)

lemma last_sent:
  assumes "sound N g" and "gateway N cl route g = (Relayed r, g')" and "admin_target route cl = None"
  obtains tc rid s m target w q where "public_target route cl tc = Some (s, m, target)"
    and "q = proxy_request N (if cl_head cl \<and> m = GET then HEAD else m) target cl rid tc"
    and "(s, q) \<in> set (drop (length (g_sent g)) (g_sent g'))" and "r = fst (upstream_server N s q w)"
proof -
  have wf: "\<not> cl_malformed cl" "plain_route route = None"
    using assms(2) by (auto simp: gateway_def split: if_splits prod.splits option.splits)
  obtain rid g0 where rid: "requestId cl g = (rid, g0)" by fastforce
  have g0: "goes g {} g0" "sound N g0" using requestId_goes [OF rid assms(1)] by auto
  obtain tc g1 where au: "authMiddleware N cl rid g0 = (Inr tc, g1)"
    using assms(2,3) wf rid auth_not_relayed [of N cl rid g0]
    by (auto simp: gateway_def split: sum.splits prod.splits)
  note g1 = auth_goes [OF au g0(2)]
  obtain g2 where gd: "guards N route tc rid g1 = (Inr (), g2)"
    using assms(2,3) wf rid au guards_not_relayed [of N route tc rid g1]
    by (auto simp: gateway_def split: sum.splits prod.splits)
  have g2: "goes g1 (sent_by_guards N) g2" using guards_goes [OF gd] g1 by blast
  obtain s m target where t: "public_target route cl tc = Some (s, m, target)"
    using assms(2,3) wf rid au gd by (auto simp: gateway_def split: option.splits)
  define q where "q = proxy_request N (if cl_head cl \<and> m = GET then HEAD else m) target cl rid tc"
  obtain x g3 where f: "fetch N s q g2 = (x, g3)" by fastforce
  have x: "x = Some r" "g' = g3"
    using assms(2,3) wf rid au gd t f
    by (auto simp: gateway_def proxyTo_def sendProblem_def q_def split: option.splits)
  have "\<exists>w. r = fst (upstream_server N s q w)"
    using f x(1) by (auto simp: fetch_def http_call_def Let_def split: prod.splits if_splits)
      (metis fst_conv)
  then obtain w where r: "r = fst (upstream_server N s q w)" by blast
  obtain qs where "g_sent g2 = g_sent g @ qs"
    using g0 g1 g2 by (auto simp: goes_def)
  moreover have "g_sent g3 = g_sent g2 @ [(s, q)]" using f by (auto simp: fetch_def split: prod.splits)
  ultimately have "(s, q) \<in> set (drop (length (g_sent g)) (g_sent g'))" using x(2) by simp
  then show thesis using that t q_def r by blast
qed

text \<open>C10: Isolation end to end: asked for an operation by the text of its id, whatever else happens and
  whatever headers the client adds, the gateway shows that operation only to a client whose key
  belongs to the operation's tenant.\<close>

theorem gateway_shows_own:
  assumes "sound N g" and "plain_surface N"
    and "gateway N cl (GetOp (uuid_text i)) g =
      (Relayed (OperationsReply (WriteJSON 200 (OperationBody op))), g')"
  shows "op_ID op = i \<and>
    (\<exists>key. presented_key cl = Some key \<and> owns N key (op_TenantID op) (store (g_world g')))"
proof -
  let ?path = "[''v1'', ''operations'', uuid_text i]"
  obtain q w where sent: "(OperationsService, q) \<in> set (drop (length (g_sent g)) (g_sent g'))"
    and r: "WriteJSON 200 (OperationBody op) = fst (operations_server (n_ext N) (n_dec N) q w)"
    and path: "hq_path q = ?path" and m: "hq_method q = GET \<or> hq_method q = HEAD"
    and q: "\<exists>t. hq_tenant q = uuid_text t"
  proof (rule last_sent [OF assms(1,3)])
    show "admin_target (GetOp (uuid_text i)) cl = None" by simp
  next
    fix tc rid s m target w q
    assume t: "public_target (GetOp (uuid_text i)) cl tc = Some (s, m, target)"
      and q: "q = proxy_request N (if cl_head cl \<and> m = GET then HEAD else m) target cl rid tc"
      and s: "(s, q) \<in> set (drop (length (g_sent g)) (g_sent g'))"
      and r: "OperationsReply (WriteJSON 200 (OperationBody op)) = fst (upstream_server N s q w)"
    have t: "s = OperationsService" "m = GET" "target = ''/v1/operations/'' @ uuid_text i"
      using t by auto
    have "seen_path N ?path = ?path" using assms(2) by (intro plain_path) simp_all
    then have p: "hq_path q = ?path" "hq_method q = (if cl_head cl then HEAD else GET)"
      "hq_tenant q = uuid_text (tc_tenantId tc)"
      unfolding q t proxy_request_def targets by simp_all
    have r: "WriteJSON 200 (OperationBody op) = fst (operations_server (n_ext N) (n_dec N) q w)"
      using r by (simp add: t case_prod_beta)
    show thesis by (rule that [OF s [unfolded t] r p(1)]) (use p in auto)
  qed
  obtain t where t: "hq_tenant q = uuid_text t" using q by blast
  have GET: "hq_method q = GET"
  proof (rule ccontr)
    assume "hq_method q \<noteq> GET"
    then have "hq_method q = HEAD" using m by simp
    then show False
      using r path by (simp add: operations_server_def respond_def operations_routes_def Let_def
          WriteJSON_def WriteHeader_def)
  qed
  let ?r = "seen (n_dec N) (\<lambda>_. None) q (uuid_text i)"
  have "fst (getOperation ?r w) = WriteJSON 200 (OperationBody op)"
    using r reached(1) [OF assms(2) GET path] by simp
  from get_own [OF this] have own: "op_TenantID op = t" "op_ID op = i"
    using reached(4) [OF assms(2), of "\<lambda>_. None :: unit option" q i]
      reached(5) [OF assms(2) t, of "\<lambda>_. None :: unit option" "uuid_text i"] by simp_all
  have "uuid_text t \<noteq> []" by simp
  then obtain key t' where "presented_key cl = Some key" "owns N key t' (store (g_world g'))"
    "uuid_text t = uuid_text t'"
    using sent_authentic [OF assms(1,3) sent] t by auto
  moreover have "t' = t" using \<open>uuid_text t = uuid_text t'\<close> assms(2) by (metis idtext.inject plain_surface_def)
  ultimately show ?thesis using own by auto
qed

section \<open>Another tenant's operation\<close>

lemma only_row:
  assumes "schema_ok p" and "row \<in> set (operations p)"
  shows "r \<in> set (operations p) \<Longrightarrow> op_ID r = op_ID row \<Longrightarrow> r = row"
    and "first_row (\<lambda>r. op_ID r = op_ID row) (operations p) = Inr row"
proof -
  have "inj_on op_ID (set (operations p))"
    using assms(1) by (simp add: schema_ok_def primary_keys_def distinct_map)
  then show u: "r \<in> set (operations p) \<Longrightarrow> op_ID r = op_ID row \<Longrightarrow> r = row" for r
    using assms(2) by (meson inj_onD)
  show "first_row (\<lambda>r. op_ID r = op_ID row) (operations p) = Inr row"
    by (rule first_row_unique [where k = op_ID])
      (use assms in \<open>auto simp: schema_ok_def primary_keys_def\<close>)
qed

text \<open>C39: The dot segments of an operation id escape the tenant's routes. Undisturbed, a client that asks
  for an operation of another tenant by its id is answered with 404; when it puts
  \<open>../../internal/operations/\<close> in front of the id it is shown that operation.\<close>

theorem path_escapes_tenant:
  assumes "alone g" and "plain_surface N" and "schema_ok (store (g_world g))" and "admitted cl g v"
    and "row \<in> set (operations (store (g_world g)))" and "op_TenantID row \<noteq> vk_TenantID v"
  defines "i \<equiv> uuid_text (op_ID row)"
  shows "(\<exists>r. fst (gateway N cl (GetOp i) g) = Relayed (OperationsReply r) \<and> r_status r = 404) \<and>
    fst (gateway N cl (GetOp (''../../internal/operations/'' @ i)) g) =
      Relayed (OperationsReply (WriteJSON 200 (OperationBody row)))"
proof
  let ?s = "OperationsService"
  let ?r = "GetOp (uuid_text (op_ID row))"
  obtain q w where g: "fst (gateway N cl ?r g) = Relayed (fst (upstream_server N ?s q w))"
    and w: "quiet w" "store w = store (g_world g)"
    and q: "hq_method q = GET" "hq_path q = [''v1'', ''operations'', uuid_text (op_ID row)]"
      "hq_tenant q = uuid_text (vk_TenantID v)"
    by (rule relayed [OF assms(1,4), of "GetOp (uuid_text (op_ID row))" ?s GET, OF _ _ _ _ targets(1) plain_path [OF assms(2)]])
      ((rule that; assumption) | simp)+
  have "first_row (\<lambda>r. op_ID r = op_ID row \<and> op_TenantID r = vk_TenantID v) (operations (store w)) =
      Inl NoRows"
    using only_row(1) [OF assms(3,5)] assms(6) w(2) by (auto simp: first_row_Inl)
  then have "r_status (fst (operations_server (n_ext N) (n_dec N) q w)) = 404"
    using w(1) q
    by (simp add: reached [OF assms(2)] getOperation_def GetOperation_def select_operation_def
        call_quiet reading_def not_found_def)
  then show "\<exists>r. fst (gateway N cl (GetOp i) g) = Relayed (OperationsReply r) \<and> r_status r = 404"
    using g by (auto simp: case_prod_beta i_def)
next
  let ?s = "OperationsService" and ?r = "GetOp (''../../internal/operations/'' @ uuid_text (op_ID row))"
  obtain q w where g: "fst (gateway N cl ?r g) = Relayed (fst (upstream_server N ?s q w))"
    and w: "quiet w" "store w = store (g_world g)"
    and q: "hq_method q = GET" "hq_path q = [''internal'', ''operations'', uuid_text (op_ID row)]"
    by (rule relayed [OF assms(1,4),
        of "GetOp (''../../internal/operations/'' @ uuid_text (op_ID row))" ?s GET,
        OF _ _ _ _ targets(2) plain_path [OF assms(2)]])
      ((rule that; assumption) | simp)+
  have "operations_server (n_ext N) (n_dec N) q w =
      (WriteJSON 200 (OperationBody row), w\<lparr>pos := Suc (pos w)\<rparr>)"
    using w q only_row(2) [OF assms(3,5)]
    by (simp add: reached [OF assms(2)] adminGetOperation_def GetOperationAnyTenant_def
        select_operation_any_def call_quiet reading_def not_found_def)
  then show "fst (gateway N cl (GetOp (''../../internal/operations/'' @ i)) g) =
      Relayed (OperationsReply (WriteJSON 200 (OperationBody row)))"
    using g by (simp add: i_def)
qed

text \<open>C40: An active key can be revoked with any other tenant's key: undisturbed, DELETE of its id is answered
  with 204 whoever asks, and the key is revoked.\<close>

theorem key_revoked_by_anyone:
  assumes "alone g" and "plain_surface N" and "admitted cl g v"
    and "k \<in> set (api_keys (store (g_world g)))" and "ak_Status k = key_active"
  defines "route \<equiv> RemoveApiKey (uuid_text (ak_ID k))"
  shows "fst (gateway N cl route g) = Relayed (AccessReply (WriteHeader 204)) \<and>
    (\<forall>k'\<in>set (api_keys (store (g_world (snd (gateway N cl route g))))).
       ak_ID k' = ak_ID k \<longrightarrow> ak_Status k' \<noteq> key_active)"
proof -
  let ?r = "RemoveApiKey (uuid_text (ak_ID k))"
  obtain q w where g: "fst (gateway N cl ?r g) = Relayed (fst (upstream_server N CustomerAccess q w))"
    and g': "store (g_world (snd (gateway N cl ?r g))) =
      store (snd (upstream_server N CustomerAccess q w))"
    and w: "quiet w" "store w = store (g_world g)"
    and q: "hq_method q = DELETE" "hq_path q = [''internal'', ''api-keys'', uuid_text (ak_ID k)]"
    by (rule relayed [OF assms(1,3), of "RemoveApiKey (uuid_text (ak_ID k))" CustomerAccess DELETE,
        OF _ _ _ _ targets(3) plain_path [OF assms(2)]])
      ((rule that; assumption) | simp)+
  define a where "a = (ak_ID k, pg_now (store w))"
  have k: "filter (revoke_cond a) (api_keys (store w)) \<noteq> []"
    using assms(4,5) w(2) by (auto simp: filter_empty_conv revoke_cond_def a_def)
  have "access_server (n_ext N) (n_dec N) q w = (WriteHeader 204, w\<lparr>pos := Suc (pos w),
      store := (store w)\<lparr>api_keys := upd_where (revoke_cond a) (revoke_row a) (api_keys (store w))\<rparr>\<rparr>)"
    using w(1) q k
    by (simp add: reached [OF assms(2)] revokeAPIKey_def RevokeAPIKey_def call_quiet revoke_stmt_def
        Let_def flip: a_def)
  then show ?thesis
    using g g' by (auto simp: route_def upd_where_def a_def revoke_cond_def revoke_row_def)
qed

end
