(* ===== verification/Edge_Sample.thy ===== *)
theory Edge_Sample
  imports Escapes Sample
begin

text \<open>
  Concrete surroundings of the gateway, and the theorems about it at work in them.
\<close>

section \<open>Reading back the text of a UUID\<close>

definition parse_uuid :: "string \<Rightarrow> uuid option" where
  "parse_uuid s =
     (let ds = map (\<lambda>c. index_of c hex_digits) (filter (\<lambda>c. c \<noteq> CHR ''-'') s) in
      if length ds = 32 \<and> None \<notin> set ds
      then Some (of_nat (foldl (\<lambda>a d. 16 * a + the d) 0 ds)) else None)"

definition nibble :: "uuid \<Rightarrow> nat \<Rightarrow> nat" where
  "nibble u i = unat (drop_bit (4 * (31 - i)) u) mod 16"

lemma uuid_digits:
  "filter (\<lambda>c. c \<noteq> CHR ''-'') (uuid_text u) = map (\<lambda>i. hex_digit (nibble u i)) [0..<32]"
proof -
  define h where "h = map (\<lambda>i. hex_digit (nibble u i)) [0..<32]"
  have "CHR ''-'' \<notin> set hex_digits" by (simp add: hex_digits_def)
  moreover have "hex_digit n \<in> set hex_digits" if "n < 16" for n
    unfolding hex_digit_def by (rule nth_mem) (use that in \<open>simp add: hex_digits_def\<close>)
  then have "set h \<subseteq> set hex_digits"
    by (auto simp: h_def nibble_def)
  ultimately have f: "filter (\<lambda>c. c \<noteq> CHR ''-'') (take m (drop n h)) = take m (drop n h)" for m n
    by (auto simp: filter_id_conv dest!: in_set_takeD in_set_dropD)
  have e: "take 12 (drop 20 h) = drop 20 h" by (simp add: h_def)
  have "take 8 (drop 0 h) @ take 4 (drop 8 h) @ take 4 (drop 12 h) @ take 4 (drop 16 h) @ drop 20 h = h"
    using append_take_drop_id [of 8 h] append_take_drop_id [of 4 "drop 8 h"]
      append_take_drop_id [of 4 "drop 12 h"] append_take_drop_id [of 4 "drop 16 h"]
    by simp
  moreover have "uuid_text u = (let part = (\<lambda>n k. take k (drop n h)) in
      part 0 8 @ ''-'' @ part 8 4 @ ''-'' @ part 12 4 @ ''-'' @ part 16 4 @ ''-'' @ part 20 12)"
    by (simp add: uuid_text_def h_def nibble_def Let_def)
  ultimately show ?thesis
    using f [of 12 20] f [of 8 0] unfolding Let_def by (simp add: f e flip: h_def)
qed

lemma nibbles_value:
  "k \<le> 32 \<Longrightarrow> foldl (\<lambda>a i. 16 * a + nibble u i) 0 [0..<k] = unat u div 16 ^ (32 - k) mod 16 ^ k"
proof (induction k)
  case 0
  then show ?case by simp
next
  case (Suc k)
  let ?V = "unat u div 16 ^ (31 - k)"
  have v: "nibble u k = ?V mod 16"
    unfolding nibble_def unat_drop_bit_eq by (simp add: drop_bit_eq_div power_mult)
  have k: "32 - k = Suc (31 - k)" using Suc.prems by simp
  have "foldl (\<lambda>a i. 16 * a + nibble u i) 0 [0..<Suc k] = 16 * (?V div 16 mod 16 ^ k) + ?V mod 16"
    using Suc by (simp add: v k power_Suc2 div_mult2_eq del: power_Suc)
  also have "\<dots> = ?V mod 16 ^ Suc k" by (simp add: mod_mult2_eq)
  finally show ?case by simp
qed

interpretation uuid: codec uuid_text parse_uuid
proof
  fix u
  let ?ds = "map (\<lambda>c. index_of c hex_digits) (filter (\<lambda>c. c \<noteq> CHR ''-'') (uuid_text u))"
  have ds: "?ds = map (\<lambda>i. Some (nibble u i)) [0..<32]"
    by (simp add: uuid_digits index_of_hex_digit nibble_def)
  have "foldl (\<lambda>a d. 16 * a + the d) 0 ?ds = foldl (\<lambda>a i. 16 * a + nibble u i) 0 [0..<32]"
    unfolding ds by (simp add: foldl_map)
  also have "\<dots> = unat u mod 16 ^ 32" by (subst nibbles_value) simp_all
  also have "\<dots> = unat u"
  proof -
    have "unat u < 2 ^ 128" using unsigned_less [of u] by simp
    then show ?thesis by simp
  qed
  finally show "parse_uuid (uuid_text u) = Some u"
    unfolding parse_uuid_def Let_def using ds by auto
qed


section \<open>Surroundings\<close>

text \<open>
  Bodies are decoded only where a key is validated, the body being the key itself; a path passes
  unchanged, and a query has no parameters.
\<close>

definition sample_ext :: ext where
  "sample_ext =
     \<lparr>x_jsonb = Some, x_month = (\<lambda>t. t), x_job = j_OpType, x_event = (\<lambda>e. Some ''{}''),
      x_url = (\<lambda>u. True), x_raw = (\<lambda>j. j), x_secret = ''s''\<rparr>"

definition sample_decoders :: decoders where
  "sample_decoders =
     \<lparr>ident = (\<lambda>s. if s = [] then EmptyText
                 else case parse_uuid s of None \<Rightarrow> BadText | Some u \<Rightarrow> UuidText u),
      dec_create = (\<lambda>j. None), dec_start = (\<lambda>j. None), dec_complete = (\<lambda>j. None),
      dec_webhook = (\<lambda>j. None), dec_usage = (\<lambda>j. None), dec_event = (\<lambda>j. None),
      dec_tenant = (\<lambda>j. None), dec_validate = (\<lambda>j. Some \<lparr>vr_APIKey = j\<rparr>)\<rparr>"

definition sample_surface :: surface where
  "sample_surface =
     \<lparr>n_ext = sample_ext, n_dec = sample_decoders, validate_body = (\<lambda>key. key),
      seen_path = (\<lambda>ps. ps), parse_query = (\<lambda>q name. [])\<rparr>"

lemma sample_surface_fields [simp]:
  "dec_validate (n_dec sample_surface) j = Some \<lparr>vr_APIKey = j\<rparr>"
  "validate_body sample_surface key = key" "x_secret (n_ext sample_surface) = ''s''"
  "ident (n_dec sample_surface) (uuid_text u) = UuidText u"
  by (simp_all add: sample_surface_def sample_decoders_def sample_ext_def uuid.decode_encode)

lemma plain_sample: "plain_surface sample_surface"
  by (simp add: plain_surface_def) (simp add: sample_surface_def)

text \<open>A client with the key \<open>x\<close>, and a gateway that has it cached until the time \<open>e\<close>.\<close>

definition sample_client :: client_request where
  "sample_client =
     \<lparr>cl_headers = (\<lambda>h. if h = ''x-api-key'' then Some ''x'' else None), cl_body = [],
      cl_query = [], cl_malformed = False, cl_head = False\<rparr>"

definition sample_gate :: "platform \<Rightarrow> gotime \<Rightarrow> ValidatedKey \<Rightarrow> gworld" where
  "sample_gate p e v =
     \<lparr>g_redis = \<lparr>authcache = [''x'' \<mapsto> (e, v)], windows = Map.empty\<rparr>,
      g_world = sample_world p, g_others = (\<lambda>n p r. r), g_sent = []\<rparr>"

definition other_key :: ValidatedKey where
  "other_key =
     \<lparr>vk_TenantID = 7, vk_Tier = ''standard'', vk_RateLimitRPM = 1, vk_MonthlyQuota = 1000,
      vk_MaxConcurrentOps = 1\<rparr>"

lemma sample_gate_fields [simp]:
  "alone (sample_gate p e v)" "store (g_world (sample_gate p e v)) = p"
  "authcache (g_redis (sample_gate p e v)) = [''x'' \<mapsto> (e, v)]"
  "windows (g_redis (sample_gate p e v)) = Map.empty" "g_sent (sample_gate p e v) = []"
  "g_world (sample_gate p e v) = sample_world p" "g_others (sample_gate p e v) = (\<lambda>n p r. r)"
  by (simp_all add: sample_gate_def alone_def)

lemma sample_presents [simp]:
  "presented_key sample_client = Some ''x''" "\<not> cl_malformed sample_client" "\<not> cl_head sample_client"
  by (simp_all add: presented_key_def sample_client_def)

lemma small_numbers: "js_number 0 = 0" "js_number 1 = 1" "js_number 100 = 100"
  by code_simp+

lemma sample_admitted:
  assumes "clock p < e"
  shows "admitted sample_client (sample_gate p e other_key) other_key"
  using assms by (simp add: admitted_def cached_def live_window_def other_key_def small_numbers)

section \<open>The theorems at work\<close>

theorem path_escapes_tenant_witness:
  "fst (gateway sample_surface sample_client
      (GetOp (''../../internal/operations/'' @ uuid_text 2)) (sample_gate op_running 6000 other_key)) =
   Relayed (OperationsReply (WriteJSON 200 (OperationBody (hd (operations op_running)))))"
proof -
  have c: "clock op_running = 5000" by code_simp
  have "schema_ok op_running" using schema.at_reachable sample_reachable(4) by blast
  then show ?thesis
    using path_escapes_tenant [of "sample_gate op_running 6000 other_key" sample_surface sample_client
        other_key "hd (operations op_running)"] plain_sample sample_admitted [of op_running 6000]
    by (simp add: c) (simp add: sample_op_def other_key_def)
qed

theorem key_revoked_by_anyone_witness:
  "fst (gateway sample_surface sample_client (RemoveApiKey (uuid_text 5))
     (sample_gate (keyed ''h'') 6000 other_key)) = Relayed (AccessReply (WriteHeader 204))"
proof -
  have c: "clock tenant_a = 5000" by code_simp
  show ?thesis
    using key_revoked_by_anyone [of "sample_gate (keyed ''h'') 6000 other_key" sample_surface
        sample_client other_key "sample_key ''h''"] plain_sample
      sample_admitted [of "keyed ''h''" 6000]
    by (simp add: keyed_eq c) (simp add: sample_key_def)
qed

text \<open>
  A key that is validated and stored at the time 5000 and then revoked: it opens the door a second
  later, and no more after 31 seconds.
\<close>

definition revoked_x :: platform where
  "revoked_x = snd (revoke_stmt (UuidText 5) 0 (keyed (HashKey ''s'' ''x'')))"

definition checked_gate :: gworld where
  "checked_gate = snd (authMiddleware sample_surface sample_client ''r''
     (sample_gate (keyed (HashKey ''s'' ''x'')) 0 other_key))"

definition revoked_gate :: "gotime \<Rightarrow> gworld" where
  "revoked_gate c = (sample_gate (revoked_x\<lparr>clock := c\<rparr>) 0 other_key)\<lparr>g_redis := g_redis checked_gate\<rparr>"

theorem revocation_delay_witness:
  "fst (authMiddleware sample_surface sample_client ''r'' (revoked_gate (second + 5000))) =
     Inr (applyTenantContext (limits_of the_tenant)) \<and>
   fst (authMiddleware sample_surface sample_client ''r'' (revoked_gate (31 * second))) =
     Inl (sendProblem 401 ''invalid_api_key'' ''r'')"
proof -
  let ?h = "HashKey ''s'' ''x''" and ?N = sample_surface and ?cl = sample_client
  let ?g0 = "sample_gate (keyed ?h) 0 other_key"
  let ?k = "(sample_key ?h)\<lparr>ak_Status := key_revoked, ak_RevokedAt := Some (pg_now tenant_a)\<rparr>"
  have c: "clock tenant_a = 5000" by code_simp
  have miss: "cached ''x'' (now_of ?g0) (g_redis ?g0) = None"
    by (simp add: cached_def keyed_eq c)
  have "validated_rows ?h (keyed ?h) = [limits_of the_tenant]"
    by (simp add: validated_rows_def keyed_eq sample_key_def tenant_a_fields limits_of_def)
  then have "fst (authMiddleware ?N ?cl ''r'' ?g0) = Inr (applyTenantContext (limits_of the_tenant))"
    by (intro auth_asks [where key = "''x''", OF sample_gate_fields(1) _ _ _ miss]) simp_all
  then have first: "authMiddleware ?N ?cl ''r'' ?g0 =
      (Inr (applyTenantContext (limits_of the_tenant)), checked_gate)"
    by (simp add: checked_gate_def prod_eq_iff)
  have p: "schema_ok revoked_x" "?k \<in> set (api_keys revoked_x)"
    using schema.at_reachable [OF revoked_reachable] unfolding revoked_x_def
    by (simp_all add: revoke_stmt_def keyed_eq Let_def revoke_cond_def revoke_row_def)
      (simp add: sample_key_def)
  have "fst (authMiddleware ?N ?cl ''r'' (revoked_gate t)) =
      (if t < 5000 + 30 * second then Inr (applyTenantContext (limits_of the_tenant))
       else Inl (sendProblem 401 ''invalid_api_key'' ''r''))" for t
    using revocation_delay [OF sample_gate_fields(1) miss _ first, of "revoked_gate t" ?cl ?k "''r''"] p
    by (simp add: revoked_gate_def sample_key_def schema_defs keyed_eq c)
  then show ?thesis by (simp add: second_def)
qed

definition sample_context :: tenant_context where
  "sample_context =
     \<lparr>tc_tenantId = 1, tc_tier = ''standard'', tc_rateLimitRpm = 2, tc_monthlyQuota = 1000,
      tc_maxConcurrentOps = 1\<rparr>"

theorem rate_limit_window_witness:
  "passes sample_context ''r'' [5000, 6000, 7000] (sample_gate op_running 0 other_key) =
     [True, True, False]"
proof -
  have "\<forall>c\<in>set [5000, 6000, 7000]. currentMinuteBucket c = 0"
    by (simp add: currentMinuteBucket_def second_def)
  then show ?thesis
    using rate_limit_window [of "sample_gate op_running 0 other_key" "[5000, 6000, 7000]" 0
        sample_context "''r''"]
    by (simp add: sample_context_def)
qed

theorem rate_limit_minutes_witness:
  "in_minute 1 [5000, 60 * second, 6000, 61 * second, 62 * second]
     (passes sample_context ''r'' [5000, 60 * second, 6000, 61 * second, 62 * second]
       (sample_gate op_running 0 other_key)) = [True, True, False]"
  using rate_limit_minutes [of "sample_gate op_running 0 other_key" sample_context 1
      "[5000, 60 * second, 6000, 61 * second, 62 * second]" "''r''"]
  by (simp add: sample_context_def currentMinuteBucket_def second_def)

text \<open>The bound is attained: four requests pass within two seconds, the limit being two a minute.\<close>

theorem rate_burst_witness:
  "length (filter id (passes sample_context ''r'' [59 * second, 59 * second, 60 * second, 60 * second]
       (sample_gate op_running 0 other_key))) = 2 * nat (tc_rateLimitRpm sample_context)"
proof -
  let ?cs = "[59 * second, 59 * second, 60 * second, 60 * second]" and ?g = "sample_gate op_running 0 other_key"
  have "in_minute b ?cs (passes sample_context ''r'' ?cs ?g) = [True, True]" if "b = 0 \<or> b = 1" for b
    using that passes_counted [of ?g sample_context b 0 ?cs "''r''"]
    by (auto simp: counted_def sample_context_def currentMinuteBucket_def second_def)
  from this [of 0] this [of 1] have "passes sample_context ''r'' ?cs ?g = [True, True, True, True]"
    using length_passes [of sample_context "''r''" ?cs ?g]
    by (auto simp: in_minute_def currentMinuteBucket_def second_def length_Suc_conv simp del: length_passes)
  then have "2 * nat (tc_rateLimitRpm sample_context) \<le>
      length (filter id (passes sample_context ''r'' ?cs ?g))"
    by (simp add: sample_context_def)
  moreover have "length (filter id (passes sample_context ''r'' ?cs ?g)) \<le>
      2 * nat (tc_rateLimitRpm sample_context)"
    using rate_burst [of ?g sample_context ?cs "59 * second" "''r''"] by (simp add: second_def)
  ultimately show ?thesis by simp
qed

text \<open>The operation that runs, counted.\<close>

definition op_counted :: platform where
  "op_counted = snd (incr_stmt 1 0 op_running)"

theorem admission_decision_witness:
  "fst (guards sample_surface CreateOp sample_context ''r'' (sample_gate op_counted 0 other_key)) =
     Inl (sendProblem 429 ''concurrency_limit_exceeded'' ''r'')"
proof -
  have "counter 1 (redis_state op_counted) = 1" by code_simp
  moreover have "units_of sample_surface 1 op_counted = 0"
    by (simp add: units_of_def month_events_def) code_simp
  ultimately show ?thesis
    using admission_decision [of "sample_gate op_counted 0 other_key" sample_surface sample_context "''r''"]
    by (simp add: live_window_def small_numbers) (simp add: sample_context_def small_numbers)
qed

text \<open>The key's own tenant.\<close>

definition own_key :: ValidatedKey where
  "own_key = other_key\<lparr>vk_TenantID := 1\<rparr>"

lemma own_admitted:
  assumes "clock p < e"
  shows "admitted sample_client (sample_gate p e own_key) own_key"
  using assms
  by (simp add: admitted_def cached_def live_window_def own_key_def other_key_def small_numbers)

lemma sound_sample:
  "sound sample_surface (sample_gate (keyed (HashKey ''s'' ''x'')) 6000 own_key)"
  by (auto simp: sound_def cache_fine_def owns_def keyed_eq sample_key_def own_key_def)

theorem gateway_authentic_witness:
  "\<exists>q t. (OperationsService, q) \<in> set (g_sent (snd (gateway sample_surface sample_client
       (GetOp (uuid_text 2)) (sample_gate (keyed (HashKey ''s'' ''x'')) 6000 own_key)))) \<and>
     owns sample_surface ''x'' t (store (g_world (snd (gateway sample_surface sample_client
       (GetOp (uuid_text 2)) (sample_gate (keyed (HashKey ''s'' ''x'')) 6000 own_key))))) \<and>
     hq_tenant q = uuid_text t"
proof -
  let ?g = "sample_gate (keyed (HashKey ''s'' ''x'')) 6000 own_key"
  let ?r = "GetOp (uuid_text 2)"
  have "clock tenant_a = 5000" by code_simp
  then have "admitted sample_client ?g own_key" by (simp add: own_admitted keyed_eq)
  then obtain q where s: "g_sent (snd (gateway sample_surface sample_client ?r ?g)) =
      g_sent ?g @ [(OperationsService, q)]"
    by (rule relayed [OF sample_gate_fields(1), of _ _ _ _ _ ?r OperationsService GET,
        OF _ _ _ _ _ targets(1) plain_path [OF plain_sample]]) auto
  then have i: "(OperationsService, q) \<in> set (drop (length (g_sent ?g))
      (g_sent (snd (gateway sample_surface sample_client ?r ?g))))" by simp
  have "admin_target ?r sample_client = None" "(OperationsService, q) \<notin> sent_by_guards sample_surface"
    by (auto simp: sent_by_guards_def)
  then show ?thesis
    using gateway_authentic [OF sound_sample surjective_pairing i] s by auto
qed

text \<open>The tenant with its key and its operation.\<close>

definition op_keyed :: platform where
  "op_keyed = op_running\<lparr>api_keys := [sample_key (HashKey ''s'' ''x'')]\<rparr>"

theorem gateway_shows_own_witness:
  "fst (gateway sample_surface sample_client (GetOp (uuid_text 2)) (sample_gate op_keyed 6000 own_key)) =
     Relayed (OperationsReply (WriteJSON 200 (OperationBody (hd (operations op_running))))) \<and>
   owns sample_surface ''x'' (op_TenantID (hd (operations op_running)))
     (store (g_world (snd (gateway sample_surface sample_client (GetOp (uuid_text 2))
       (sample_gate op_keyed 6000 own_key)))))"
proof -
  let ?g = "sample_gate op_keyed 6000 own_key" and ?N = sample_surface
  let ?r = "GetOp (uuid_text 2)" and ?row = "hd (operations op_running)"
  have "clock op_running = 5000" by code_simp
  then have "admitted sample_client ?g own_key" by (simp add: own_admitted op_keyed_def)
  then obtain q w where g: "fst (gateway ?N sample_client ?r ?g) =
      Relayed (fst (upstream_server ?N OperationsService q w))"
    and w: "quiet w" "store w = op_keyed"
    and q: "hq_method q = GET" "hq_path q = [''v1'', ''operations'', uuid_text 2]"
      "hq_tenant q = uuid_text 1"
    by (rule relayed [OF sample_gate_fields(1), of _ _ _ _ _ ?r OperationsService GET,
        OF _ _ _ _ _ targets(1) plain_path [OF plain_sample]]) (auto simp: own_key_def)
  have "getOperation (seen (n_dec ?N) (\<lambda>_. None) q (uuid_text 2)) w =
      (WriteJSON 200 (OperationBody ?row), w\<lparr>pos := Suc (pos w)\<rparr>)"
    using w q by (simp add: getOperation_def GetOperation_def select_operation_def call_quiet
        reading_def not_found_def reached(4,5) [OF plain_sample] op_keyed_def first_row_def)
      (simp add: sample_op_def)
  then have x: "fst (gateway ?N sample_client ?r ?g) =
      Relayed (OperationsReply (WriteJSON 200 (OperationBody ?row)))"
    using g by (simp add: reached(1) [OF plain_sample q(1,2)] case_prod_beta)
  then have eq: "gateway ?N sample_client ?r ?g =
      (Relayed (OperationsReply (WriteJSON 200 (OperationBody ?row))), snd (gateway ?N sample_client ?r ?g))"
    by (metis surjective_pairing)
  have "sound ?N ?g"
    by (auto simp: sound_def cache_fine_def owns_def op_keyed_def sample_key_def own_key_def)
  from gateway_shows_own [OF this plain_sample eq] show ?thesis using x by simp
qed

end
