(* ===== verification/Journey.thy ===== *)
theory Journey
  imports Progress Metering Edge_Sample
begin

text \<open>
  The way of a request through the whole system: a client asks the gateway for an operation, the
  operations service creates it, the worker brings it to an end, and the client reads the result
  through the gateway.
\<close>

section \<open>Creating through the gateway\<close>

definition idem_header :: "client_request \<Rightarrow> string" where
  "idem_header cl = (case cl_headers cl ''idempotency-key'' of None \<Rightarrow> [] | Some k \<Rightarrow> k)"

text \<open>
  The body asks for an operation of type \<open>ty\<close> with input \<open>i\<close>, which the database takes as \<open>j\<close>; the
  tenant is within its quota and runs fewer operations than it may; the idempotency key is new, and so
  are the ids that will be drawn.
\<close>

definition creatable ::
    "surface \<Rightarrow> client_request \<Rightarrow> gworld \<Rightarrow> ValidatedKey \<Rightarrow> string \<Rightarrow> json \<Rightarrow> json \<Rightarrow> bool" where
  "creatable N cl g v ty i j \<longleftrightarrow>
     (let p = store (g_world g); t = vk_TenantID v in
      dec_create (n_dec N) (cl_body cl) = Some \<lparr>cr_OpType = ty, cr_Input = Some i\<rparr> \<and> ty \<noteq> [] \<and>
      x_jsonb (n_ext N) i = Some j \<and> t \<in> tn_ID ` set (tenants p) \<and>
      js_number (units_of N t p) < js_number (vk_MonthlyQuota v) \<and>
      js_number (counter t (redis_state p)) < js_number (vk_MaxConcurrentOps v) \<and>
      \<not> idem_taken t (if idem_header cl = [] then None else Some (idem_header cl)) p \<and>
      (\<forall>n\<ge>pos (g_world g). fresh (tape (g_world g) n) \<notin> op_ID ` set (operations p)))"

lemma operations_target: "url_target ''/v1/operations'' = ([''v1'', ''operations''], [])"
proof -
  have "\<forall>c\<in>set ''/v1/operations''. clean_char c" by code_simp
  note t = url_target_clean [OF this]
  show ?thesis unfolding t by code_simp
qed

lemma create_reached:
  assumes "hq_method q = POST" and "hq_path q = [''v1'', ''operations'']"
  shows "operations_server x d q w = createOperation (x_jsonb x) (x_job x) (seen d (dec_create d) q []) w"
  using assms by (simp add: operations_server_def respond_def operations_routes_def Let_def)

text \<open>What the gateway keeps for itself: it has counted one more request of the tenant in this minute.\<close>

abbreviation window_of :: "ValidatedKey \<Rightarrow> gworld \<Rightarrow> gateway_redis \<Rightarrow> int" where
  "window_of v g r \<equiv> fst (live_window (vk_TenantID v, currentMinuteBucket (now_of g)) (now_of g) r)"

definition counted_on :: "ValidatedKey \<Rightarrow> gworld \<Rightarrow> gworld \<Rightarrow> bool" where
  "counted_on v g g' \<longleftrightarrow>
     authcache (g_redis g') = authcache (g_redis g) \<and>
     window_of v g (g_redis g') = window_of v g (g_redis g) + 1"

lemma create_relayed:
  assumes "alone g" and "plain_surface N" and "admitted cl g v" and "creatable N cl g v ty i j"
  obtains q w where "fst (gateway N cl CreateOp g) =
      Relayed (fst (upstream_server N OperationsService q w))"
    and "g_world (snd (gateway N cl CreateOp g)) = snd (upstream_server N OperationsService q w)"
    and "quiet w" and "store w = store (g_world g)" and "tape w = tape (g_world g)"
    and "hq_method q = POST" and "hq_path q = [''v1'', ''operations'']"
    and "hq_tenant q = uuid_text (vk_TenantID v)" and "hq_idem q = idem_header cl"
    and "hq_body q = cl_body cl" and "pos (g_world g) \<le> pos w"
    and "\<forall>n p r. g_others (snd (gateway N cl CreateOp g)) n p r = r"
    and "counted_on v g (snd (gateway N cl CreateOp g))"
proof -
  let ?tc = "applyTenantContext v" and ?s = "OperationsService"
  obtain rid n where rid: "requestId cl g = (rid, later n g)"
    and a: "authMiddleware N cl rid (later n g) = (Inr ?tc, later 1 (later n g))"
    by (rule admitted_auth [OF assms(1,3)])
  define g0 where "g0 = later 1 (later n g)"
  have g0: "alone g0" "store (g_world g0) = store (g_world g)" "g_redis g0 = g_redis g"
    "tape (g_world g0) = tape (g_world g)" "pos (g_world g) \<le> pos (g_world g0)"
    using assms(1) by (simp_all add: g0_def)
  have tc: "tc_tenantId ?tc = vk_TenantID v" "tc_rateLimitRpm ?tc = js_number (vk_RateLimitRPM v)"
    "tc_monthlyQuota ?tc = js_number (vk_MonthlyQuota v)"
    "tc_maxConcurrentOps ?tc = js_number (vk_MaxConcurrentOps v)"
    by (simp_all add: applyTenantContext_def)
  have t: "ident (n_dec N) (uuid_text (tc_tenantId ?tc)) = UuidText (tc_tenantId ?tc)"
    using assms(2) by (simp add: plain_surface_def)
  obtain g3 where gd: "guards N CreateOp ?tc rid g0 = (Inr (), g3)"
    and g3: "alone g3" "store (g_world g3) = store (g_world g)" "tape (g_world g3) = tape (g_world g)"
      "pos (g_world g) \<le> pos (g_world g3)" "counted_on v g g3"
  proof (rule guards_pass [OF g0(1) t, of rid])
    show "fst (live_window (tc_tenantId ?tc, currentMinuteBucket (now_of g0)) (now_of g0) (g_redis g0))
        < tc_rateLimitRpm ?tc"
      using assms(3) by (simp add: tc g0 admitted_def)
    show "js_number (units_of N (tc_tenantId ?tc) (store (g_world g0))) < tc_monthlyQuota ?tc"
      "js_number (counter (tc_tenantId ?tc) (redis_state (store (g_world g0)))) < tc_maxConcurrentOps ?tc"
      using assms(4) by (simp_all add: tc g0 creatable_def Let_def)
  qed (use that g0 in \<open>simp add: counted_on_def tc\<close>)
  define q where "q = proxy_request N POST ''/v1/operations'' cl rid ?tc"
  define w where "w = (g_world g3)\<lparr>pos := Suc (pos (g_world g3))\<rparr>"
  have "gateway N cl CreateOp g = proxyTo N ?s POST ''/v1/operations'' cl rid ?tc g3"
    using assms(3) by (simp add: gateway_def rid a [folded g0_def] gd admitted_def)
  also have "\<dots> = (Relayed (fst (upstream_server N ?s q w)),
      g3\<lparr>g_world := snd (upstream_server N ?s q w), g_sent := g_sent g3 @ [(?s, q)]\<rparr>)"
    using g3(1) by (simp add: proxyTo_def fetch_alone Let_def flip: q_def w_def)
  finally have g: "gateway N cl CreateOp g = \<dots>" .
  have w: "quiet w" "store w = store (g_world g)" "tape w = tape (g_world g)" "pos (g_world g) \<le> pos w"
    using g3 by (simp_all add: w_def alone_def)
  have "seen_path N [''v1'', ''operations''] = [''v1'', ''operations'']"
    using assms(2) by (simp add: plain_surface_def)
  then have q: "hq_method q = POST" "hq_path q = [''v1'', ''operations'']"
    "hq_tenant q = uuid_text (vk_TenantID v)" "hq_idem q = idem_header cl" "hq_body q = cl_body cl"
    unfolding q_def proxy_request_def operations_target by (simp_all add: tc idem_header_def)
  have "\<forall>n p r. g_others (snd (gateway N cl CreateOp g)) n p r = r"
    using g3(1) by (simp add: g alone_def)
  moreover have "counted_on v g (snd (gateway N cl CreateOp g))"
    using g3(5) by (simp add: g counted_on_def)
  ultimately show thesis by (intro that [OF _ _ w(1-3) q w(4)]) (simp_all add: g)
qed

text \<open>What the client is told about, and what the platform holds then.\<close>

definition accepted :: "surface \<Rightarrow> client_request \<Rightarrow> ValidatedKey \<Rightarrow> string \<Rightarrow> json \<Rightarrow> platform \<Rightarrow>
    operation \<Rightarrow> platform \<Rightarrow> bool" where
  "accepted N cl v ty j p op p' \<longleftrightarrow>
     op_TenantID op = vk_TenantID v \<and> op_OpType op = ty \<and> op_Input op = j \<and>
     op_IdempotencyKey op = (if idem_header cl = [] then None else Some (idem_header cl)) \<and>
     op_Status op = StatusQueued \<and> op_AttemptCount op = 0 \<and> op_MaxRetries op = 3 \<and>
     op_ID op \<notin> op_ID ` set (operations p) \<and>
     (\<exists>jb. j_OperationID jb = op_ID op \<and>
        p' = p\<lparr>operations := operations p @ [op],
               redis_state := redis_lpush (x_job (n_ext N) jb) (redis_state p)\<rparr>)"

lemma gateway_create_effect:
  assumes "alone g" and "plain_surface N" and "admitted cl g v" and "creatable N cl g v ty i j"
    and "reachable (store (g_world g))"
  obtains op g' where
    "gateway N cl CreateOp g = (Relayed (OperationsReply (WriteJSON 202 (OperationBody op))), g')"
    and "accepted N cl v ty j (store (g_world g)) op (store (g_world g'))"
    and "quiet (g_world g')" and "reachable (store (g_world g'))"
    and "tape (g_world g') = tape (g_world g)" and "alone g'" and "counted_on v g g'"
proof -
  obtain q w where g: "fst (gateway N cl CreateOp g) = Relayed (fst (upstream_server N OperationsService q w))"
    and g': "g_world (snd (gateway N cl CreateOp g)) = snd (upstream_server N OperationsService q w)"
    and w: "quiet w" "store w = store (g_world g)" "tape w = tape (g_world g)"
    and q: "hq_method q = POST" "hq_path q = [''v1'', ''operations'']"
      "hq_tenant q = uuid_text (vk_TenantID v)" "hq_idem q = idem_header cl" "hq_body q = cl_body cl"
    and ps: "pos (g_world g) \<le> pos w"
    and ot: "\<forall>n p r. g_others (snd (gateway N cl CreateOp g)) n p r = r"
    and co: "counted_on v g (snd (gateway N cl CreateOp g))"
    by (rule create_relayed [OF assms(1-4)])
  define r where "r = seen (n_dec N) (dec_create (n_dec N)) q []"
  let ?c = "createOperation (x_jsonb (n_ext N)) (x_job (n_ext N)) r w"
  have srv: "operations_server (n_ext N) (n_dec N) q w = ?c"
    using create_reached [OF q(1,2)] by (simp add: r_def)
  have r: "creates r (vk_TenantID v) ty (Some i)" "idem_of r =
      (if idem_header cl = [] then None else Some (idem_header cl))"
    using assms(2,4) q
    by (simp_all add: r_def seen_def creates_def creatable_def plain_surface_def idem_of_def Let_def)
  have ip: "pos (g_world g) \<le> insert_pos r w" using ps by (simp add: insert_pos_def)
  then have "insertable (x_jsonb (n_ext N)) r (vk_TenantID v) ty i j w"
    using assms(4) r w w(1) [unfolded quiet_iff] by (simp add: insertable_def creatable_def Let_def quiet_iff)
  note c = createOperation_new [OF w(1) this, of "x_job (n_ext N)"]
  define op where "op = (new_operation r (vk_TenantID v) ty j (fresh (tape w (insert_pos r w)))
      (pg_now (store w)))\<lparr>op_Status := StatusQueued\<rparr>"
  have fs: "fst ?c = WriteJSON 202 (OperationBody op)"
    and st: "store (snd ?c) = (store w)\<lparr>operations := operations (store w) @ [op],
      redis_state := redis_lpush (x_job (n_ext N) (first_job r op (clock (store w)))) (redis_state (store w))\<rparr>"
    using c by (simp_all add: op_def)
  have gw: "g_world (snd (gateway N cl CreateOp g)) = snd ?c" using g' srv by (simp add: case_prod_beta)
  have "fresh (tape w (insert_pos r w)) \<notin> op_ID ` set (operations (store w))"
    using assms(4) w ip by (simp add: creatable_def Let_def)
  then have "accepted N cl v ty j (store (g_world g)) op (store (snd ?c))"
    unfolding accepted_def st
    using r(2) w(2) by (simp add: op_def new_operation_def first_job_def exI [of _ "first_job r op (clock (store w))"])
  moreover have "fst (gateway N cl CreateOp g) = Relayed (OperationsReply (WriteJSON 202 (OperationBody op)))"
    using g srv fs by (simp add: case_prod_beta)
  moreover note m = full.createOperation_moves [OF quiet_tame [OF w(1)], of "x_jsonb (n_ext N)" "x_job (n_ext N)" r]
  moreover have "quiet (snd ?c)" "reachable (store (snd ?c))"
    using moves_quiet [OF m w(1)] reachable_moves [OF _ m] assms(5) w(2) by simp_all
  moreover have "tape (snd ?c) = tape (g_world g)" using m w(3) by (simp add: moves_def)
  moreover have "alone (snd (gateway N cl CreateOp g))"
    using ot gw \<open>quiet (snd ?c)\<close> by (simp add: alone_def)
  ultimately show thesis
    using that [of op "snd (gateway N cl CreateOp g)"] gw co by (simp add: prod_eq_iff)
qed

section \<open>Reading through the gateway\<close>

lemma gateway_shows_row:
  assumes "alone g" and "plain_surface N" and "schema_ok (store (g_world g))" and "admitted cl g v"
    and "row \<in> set (operations (store (g_world g)))" and "op_TenantID row = vk_TenantID v"
  shows "fst (gateway N cl (GetOp (uuid_text (op_ID row))) g) =
    Relayed (OperationsReply (WriteJSON 200 (OperationBody row)))"
proof -
  let ?s = "OperationsService" and ?r = "GetOp (uuid_text (op_ID row))"
  obtain q w where g: "fst (gateway N cl ?r g) = Relayed (fst (upstream_server N ?s q w))"
    and w: "quiet w" "store w = store (g_world g)"
    and q: "hq_method q = GET" "hq_path q = [''v1'', ''operations'', uuid_text (op_ID row)]"
      "hq_tenant q = uuid_text (vk_TenantID v)"
    by (rule relayed [OF assms(1,4), of "GetOp (uuid_text (op_ID row))" ?s GET, OF _ _ _ _ targets(1)
          plain_path [OF assms(2)]])
      ((rule that; assumption) | simp)+
  have "first_row (\<lambda>r. op_ID r = op_ID row \<and> op_TenantID r = vk_TenantID v) (operations (store w)) = Inr row"
    by (rule first_row_unique [where k = op_ID])
      (use assms(3,5,6) w(2) in \<open>auto simp: schema_ok_def primary_keys_def\<close>)
  then have "fst (operations_server (n_ext N) (n_dec N) q w) = WriteJSON 200 (OperationBody row)"
    using w(1) q
    by (simp add: reached [OF assms(2)] getOperation_def GetOperation_def select_operation_def
        call_quiet reading_def not_found_def)
  then show ?thesis using g by (simp add: case_prod_beta)
qed

section \<open>A round in which the model answers\<close>

text \<open>
  Whenever they are asked, the providers come up with \<open>out\<close>, in a time the database can hold; \<open>out\<close> can
  be encoded, and the database takes it as \<open>res\<close>.
\<close>

definition model_answers ::
    "surroundings \<Rightarrow> ext \<Rightarrow> string \<Rightarrow> json \<Rightarrow> json \<Rightarrow> bool" where
  "model_answers E x ty input res \<longleftrightarrow>
     (\<exists>out body. json_dumps E out = Some body \<and> x_jsonb x body = Some res \<and>
        (\<forall>w :: platform world. \<exists>prov lat.
           fst (process_with_fallback E ty input w) = Inr (out, prov, lat) \<and> int4_ok lat))"

lemma finish_attempt_succeeds:
  assumes "running_at i row w" and "model_answers E x ty input res"
  shows "\<exists>body w'. finish_attempt E x (UuidText i) aid ty input w =
      (Inr (), [GoNotifySuccess (op_TenantID row) i body], w') \<and> moves platform_step w w' \<and>
    (\<exists>f. (\<forall>b. at_ID (f b) = at_ID b) \<and> store w' = (store w)\<lparr>
       operations := map (succeeded_row i (Some res) (pg_now (store w))) (operations (store w)),
       operation_attempts := map f (operation_attempts (store w)),
       redis_state := freed (op_TenantID row) (redis_state (store w))\<rparr>)"
proof -
  obtain out body where b: "json_dumps E out = Some body" "x_jsonb x body = Some res"
    and "\<exists>prov lat. fst (process_with_fallback E ty input w) = Inr (out, prov, lat) \<and> int4_ok lat"
    using assms(2) by (auto simp: model_answers_def)
  then obtain prov lat w1 where p: "process_with_fallback E ty input w = (Inr (out, prov, lat), w1)"
    and lat: "int4_ok lat" by (metis prod.collapse)
  have q: "quiet w" using assms(1) by (simp add: running_at_def)
  have w1: "store w1 = store w" "moves platform_step w w1" "quiet w1"
    using try_providers_quiet [OF q p [unfolded process_with_fallback_def]] by (simp_all add: moves_def)
  have run: "running_at i row w1" using running_moves [OF assms(1) w1(2)] w1(1) by simp
  let ?req = "\<lparr>ca_AttemptID = UuidText aid, ca_Success = True, ca_Output = Some body,
             ca_Provider = prov, ca_LatencyMs = lat, ca_ErrorCategory = [], ca_ErrorDetail = []\<rparr>"
  have c: "completes (worker_request (UuidText i) (Some ?req)) i aid ?req row (w1\<lparr>pos := Suc (pos w1)\<rparr>)"
    using running_completes [OF run, of ?req] by simp
  have o: "output_ok (x_jsonb x) ?req" using b(2) lat by (simp add: output_ok_def)
  obtain resp ts w2 where h: "completeAttempt (x_jsonb x) (x_job x)
      (worker_request (UuidText i) (Some ?req)) (w1\<lparr>pos := Suc (pos w1)\<rparr>) = ((resp, ts), w2)"
    by (metis prod_cases3 prod.collapse)
  have st: "resp = WriteJSON 200 (StatusBody StatusSucceeded)"
    "ts = [GoNotifySuccess (op_TenantID row) i (Some body)]"
    "store w2 = (store w)\<lparr>
       operations := map (succeeded_row i (Some res) (pg_now (store w))) (operations (store w)),
       operation_attempts := map (finished_ok aid ?req (pg_now (store w))) (operation_attempts (store w)),
       redis_state := freed (op_TenantID row) (redis_state (store w))\<rparr>"
    using completeAttempt_succeeds [OF c _ o, of "x_job x"] h b(2) w1(1) by simp_all
  have r: "complete_attempt_success E x (UuidText i) aid out prov lat w1 = (Inr (), ts, w2)"
    using report_quiet [OF w1(3) h, of E] st(1) b(1) by (simp add: complete_attempt_success_def)
  have m: "moves platform_step w1 w2"
    using full.complete_attempt_success_moves [OF quiet_tame [OF w1(3)], of E x "UuidText i" aid out prov lat]
    by (simp add: r)
  have "finish_attempt E x (UuidText i) aid ty input w = (Inr (), ts, w2)"
    by (simp add: finish_attempt_def p r)
  then show ?thesis
    using moves_trans [OF w1(2) m] st(2,3)
    by (intro exI [of _ "Some body"] exI [of _ w2] conjI exI [of _ "finished_ok aid ?req (pg_now (store w))"])
      simp_all
qed

text \<open>The round in which that happens, with what it leaves to be billed.\<close>

lemma round_succeeds:
  assumes w: "waiting E i row w" and inp: "load_input E (op_Input row) = Inr input"
    and f: "fresh (tape w (pos w + 4)) \<notin> at_ID ` set (operation_attempts (store w))"
    and ans: "model_answers E x (op_OpType row) input res"
  defines "t \<equiv> op_TenantID row" and "p \<equiv> store w" and "n \<equiv> op_AttemptCount row + 1"
  obtains body w' row' where "worker_round E x w = (Inr (), [GoNotifySuccess t i body], w')"
    and "moves platform_step w w'"
    and "row' \<in> set (operations (store w'))" and "op_ID row' = i" and "op_Status row' = StatusSucceeded"
    and "op_Output row' = Some res" and "op_AttemptCount row' = n"
    and "tenants (store w') = tenants p" and "usage_events (store w') = usage_events p"
    and "redis_state (store w') =
      freed t (set_counter t (counter t (redis_state p) + 1) ((redis_state p)\<lparr>main_queue := []\<rparr>))"
proof -
  let ?row1 = "started_row i n (pg_now p) row"
  have row: "row \<in> set (operations p)" "op_ID row = i" and nt: "\<not> IsTerminal (op_Status row)"
    using w by (simp_all add: waiting_def p_def)
  from worker_round_starts [OF w inp f, of x]
  obtain w1 where r: "worker_round E x w =
      finish_attempt E x (UuidText i) (fresh (tape w (pos w + 4))) (op_OpType row) input w1"
    and m1: "moves platform_step w w1" and run: "running_at i ?row1 w1"
    and s1: "store w1 = p\<lparr>operations := map (started_row i n (pg_now p)) (operations p),
        operation_attempts := operation_attempts p @
          [new_attempt (fresh (tape w (pos w + 4))) i
             \<lparr>sa_WorkerID = WORKER_ID E, sa_AttemptNumber = n\<rparr> (pg_now p)],
        redis_state := set_counter t (counter t (redis_state p) + 1) ((redis_state p)\<lparr>main_queue := []\<rparr>)\<rparr>"
    unfolding p_def t_def n_def by metis
  have row1: "op_TenantID ?row1 = t" "op_Status ?row1 = StatusRunning" "op_AttemptCount ?row1 = n"
    using row nt by (auto simp: started_row_def t_def)
  from finish_attempt_succeeds [OF run ans, of "fresh (tape w (pos w + 4))", unfolded row1(1)]
  obtain body w2 g where r2: "worker_round E x w = (Inr (), [GoNotifySuccess t i body], w2)"
    and m2: "moves platform_step w1 w2"
    and s2: "store w2 = (store w1)\<lparr>
       operations := map (succeeded_row i (Some res) (pg_now (store w1))) (operations (store w1)),
       operation_attempts := map g (operation_attempts (store w1)),
       redis_state := freed t (redis_state (store w1))\<rparr>"
    unfolding r by blast
  define row' where "row' = succeeded_row i (Some res) (pg_now (store w1)) ?row1"
  have row': "row' \<in> set (operations (store w2))" "op_ID row' = i" "op_Status row' = StatusSucceeded"
    "op_Output row' = Some res" "op_AttemptCount row' = n"
    using row row1 by (auto simp: row'_def s2 s1 succeeded_row_def)
  show thesis by (rule that [OF r2 moves_trans [OF m1 m2] row']) (simp_all add: s2 s1)
qed

text \<open>The shift around it.\<close>

lemma shift_succeeds:
  assumes w: "waiting E i row w" and inp: "load_input E (op_Input row) = Inr input"
    and f: "fresh (tape w (pos w + 4)) \<notin> at_ID ` set (operation_attempts (store w))"
    and ans: "model_answers E x (op_OpType row) input res"
    and us: "\<And>n. fresh (tape w n) \<notin> us_ID ` set (usage_events (store w))" and d: "0 \<le> d"
  obtains w' row' where "shift E x d w = (Inr (), w')"
    and "finished i (op_AttemptCount row + 1) w'" and "moves platform_step w w'"
    and "row' \<in> set (operations (store w'))" and "op_ID row' = i" and "op_Status row' = StatusSucceeded"
    and "op_Output row' = Some res" and "length (billed i (store w')) = 1"
    and "counter (op_TenantID row) (redis_state (store w')) =
      max 0 (counter (op_TenantID row) (redis_state (store w)))"
proof -
  let ?t = "op_TenantID row" and ?p = "store w"
  have q: "quiet w" "reachable ?p" and del: "delayed (redis_state ?p) = []"
    and row: "row \<in> set (operations ?p)"
    using w by (simp_all add: waiting_def)
  obtain body w2 row' where r2: "worker_round E x w = (Inr (), [GoNotifySuccess ?t i body], w2)"
    and m: "moves platform_step w w2"
    and row': "row' \<in> set (operations (store w2))" "op_ID row' = i" "op_Status row' = StatusSucceeded"
      "op_Output row' = Some res" "op_AttemptCount row' = op_AttemptCount row + 1"
    and s2: "tenants (store w2) = tenants ?p" "usage_events (store w2) = usage_events ?p"
    and rd: "redis_state (store w2) = freed ?t (set_counter ?t (counter ?t (redis_state ?p) + 1)
      ((redis_state ?p)\<lparr>main_queue := []\<rparr>))"
    by (rule round_succeeds [OF w inp f ans])
  have q2: "quiet w2" "tape w2 = tape w" using moves_quiet [OF m q(1)] m by (simp_all add: moves_def)
  from shift_rest [OF r2 q2(1), of d]
  obtain w' where s: "shift E x d w = (Inr (), w')" and q': "quiet w'"
    and ops: "operations (store w') = operations (store w2)"
    and ue: "usage_events (store w') = usage_events (store (run_task (x_raw x) (post_to_usage x)
        (GoNotifySuccess ?t i body) w2))"
    and red: "redis_state (store w') =
      promote (redis_zrangebyscore 0 (unix (clock (store w2) + d)) (redis_state (store w2)))
        (redis_state (store w2))"
    by auto
  have m': "moves platform_step w w'" using shift_moves [OF quiet_tame [OF q(1)] d, of E x] s by simp
  have "?t \<in> tn_ID ` set (tenants (store w2))"
    using schema.at_reachable [OF q(2)] row by (auto simp: schema_ok_def foreign_keys_def s2)
  moreover have "i \<in> op_ID ` set (operations (store w2))" using imageI [OF row'(1), of op_ID] row'(2) by simp
  moreover have "fresh (tape w2 (Suc (pos w2))) \<notin> us_ID ` set (usage_events (store w2))"
    using us by (simp add: q2(2) s2)
  ultimately have "usage_events (store w') =
      usage_events (bill ?t i (fresh (tape w2 (Suc (pos w2)))) (store w2))"
    unfolding ue by (rule success_bills [OF q2(1)])
  then have "i \<in> us_OperationID ` set (usage_events (store w'))" by (auto simp: bill_def)
  then have b: "length (billed i (store w')) = 1" using billed_once reachable_moves [OF q(2) m'] by blast
  have "delayed (redis_state (store w2)) = []" by (simp add: rd del)
  then have e: "redis_state (store w') = redis_state (store w2)" using red promote_nothing by simp
  have "IsTerminal (op_Status row')" using row'(3) by (simp add: IsTerminal_iff)
  then have fin: "finished i (op_AttemptCount row + 1) w'"
    using row' q' del by (auto simp: finished_def e rd ops)
  show thesis
    by (rule that [OF s fin m' _ row'(2-4) b]) (simp_all add: e rd freed_def ops row'(1))
qed

section \<open>From the request to the result\<close>

lemma created_waiting:
  assumes "accepted N cl v ty j p op (store w)" and "quiet w" and "reachable (store w)" and "0 \<le> clock p"
    and "main_queue (redis_state p) = []" and "delayed (redis_state p) = []"
    and "load_input E j = Inr a"
    and "\<And>jb. envelope_of E (x_job (n_ext N) jb) = JobFor (UuidText (j_OperationID jb))"
  shows "waiting E (op_ID op) op w"
  using assms by (auto simp: accepted_def waiting_def redis_lpush_def IsTerminal_iff status_defs)

lemma tenant_kept:
  assumes "moves platform_step w w'" and "op \<in> set (operations (store w))"
    and "row \<in> set (operations (store w'))" and "op_ID row = op_ID op" and "schema_ok (store w')"
  shows "op_TenantID row = op_TenantID op"
proof -
  obtain r' where "r' \<in> set (operations (store w'))" "op_identity r' = op_identity op"
    using row_persists [of "store w" "store w'"] assms(1,2) by (auto simp: moves_def)
  then show ?thesis using only_row(1) [OF assms(5,3)] identity_fields assms(4) by metis
qed

text \<open>What the worker makes of an operation that was accepted when there was nothing else to do.\<close>

lemma worker_finishes:
  assumes "accepted N cl v ty j p op (store w)" and "quiet w" and "reachable (store w)"
    and "plain_surface N"
  shows "\<forall>E ds. 0 \<le> clock p \<and> main_queue (redis_state p) = [] \<and> delayed (redis_state p) = [] \<and>
        (\<exists>a. load_input E j = Inr a) \<and>
        (\<forall>jb. envelope_of E (x_job (n_ext N) jb) = JobFor (UuidText (j_OperationID jb))) \<and>
        (\<forall>d\<in>set ds. 72 * second \<le> d) \<and> 3 \<le> length ds \<and> unused_ids E (n_ext N) ds w \<longrightarrow>
        (\<exists>row. row \<in> set (operations (store (snd (shifts E (n_ext N) ds w)))) \<and>
           op_ID row = op_ID op \<and> IsTerminal (op_Status row) \<and> op_AttemptCount row \<le> 3 \<and>
           (\<forall>g2 cl2. alone g2 \<and> store (g_world g2) = store (snd (shifts E (n_ext N) ds w)) \<and>
              admitted cl2 g2 v \<longrightarrow>
              fst (gateway N cl2 (GetOp (uuid_text (op_ID op))) g2) =
                Relayed (OperationsReply (WriteJSON 200 (OperationBody row)))))"
proof (intro allI impI, elim conjE exE)
  fix E :: surroundings and ds a
  assume h: "0 \<le> clock p" "main_queue (redis_state p) = []" "delayed (redis_state p) = []"
      "load_input E j = Inr a" and ds: "\<forall>d\<in>set ds. 72 * second \<le> d" "3 \<le> length ds"
    and env: "\<forall>jb. envelope_of E (x_job (n_ext N) jb) = JobFor (UuidText (j_OperationID jb))"
    and un: "unused_ids E (n_ext N) ds w"
  define w' where "w' = snd (shifts E (n_ext N) ds w)"
  have op: "op_AttemptCount op = 0" "op_MaxRetries op = 3" "op_TenantID op = vk_TenantID v"
    "op \<in> set (operations (store w))"
    using assms(1) by (auto simp: accepted_def)
  have "waiting E (op_ID op) op w"
    by (rule created_waiting [OF assms(1-3) h spec [OF env]])
  then obtain w2 where s: "shifts E (n_ext N) ds w = (Inr (), w2)" and f: "finished (op_ID op) 3 w2"
    using shifts_finish [OF _ ds(1) spec [OF env], of "op_ID op" op w] ds(2) un op by auto
  have w2: "w' = w2" by (simp add: w'_def s)
  obtain row where row: "row \<in> set (operations (store w'))" "op_ID row = op_ID op"
    "IsTerminal (op_Status row)" "op_AttemptCount row \<le> 3"
    using f by (auto simp: finished_def w2)
  have "\<forall>d\<in>set ds. 0 \<le> d" using ds(1) by (auto simp: second_def)
  then have m: "moves platform_step w w'"
    using shifts_moves [OF quiet_tame [OF assms(2)], of ds E "n_ext N"] s w2 by simp
  have sc: "schema_ok (store w')" using reachable_moves [OF assms(3) m] by (rule schema.at_reachable)
  have "op_TenantID row = vk_TenantID v"
    using tenant_kept [OF m op(4) row(1,2) sc] op(3) by simp
  then have "fst (gateway N cl2 (GetOp (uuid_text (op_ID op))) g2) =
      Relayed (OperationsReply (WriteJSON 200 (OperationBody row)))"
    if "alone g2" "store (g_world g2) = store w'" "admitted cl2 g2 v" for g2 cl2
    using gateway_shows_row [OF that(1) assms(4) _ that(3), of row] that(2) sc row by simp
  then show "\<exists>row. row \<in> set (operations (store (snd (shifts E (n_ext N) ds w)))) \<and>
      op_ID row = op_ID op \<and> IsTerminal (op_Status row) \<and> op_AttemptCount row \<le> 3 \<and>
      (\<forall>g2 cl2. alone g2 \<and> store (g_world g2) = store (snd (shifts E (n_ext N) ds w)) \<and>
         admitted cl2 g2 v \<longrightarrow>
         fst (gateway N cl2 (GetOp (uuid_text (op_ID op))) g2) =
           Relayed (OperationsReply (WriteJSON 200 (OperationBody row))))"
    using row by (auto simp flip: w'_def)
qed

text \<open>C2: The system end to end. Undisturbed, an admitted client that is within its limits and POSTs a new
  operation is answered with 202 and the QUEUED operation of its own tenant. If moreover neither the
  queue nor the delayed set held a job before, the input is one the worker can load (see
  \<open>string_input_ends_worker\<close> for one it cannot) and the worker reads its jobs as the service wrote them,
  then three undisturbed shifts of the worker, 72 seconds or more each, in which the ids of new
  attempts are new, bring that operation to a terminal status within its three attempts, whatever the
  model providers answer; and any admitted client of the tenant that then asks for it by its id is
  shown exactly that result.\<close>

theorem request_to_result:
  fixes N :: surface and g :: gworld
  assumes "alone g" and "plain_surface N" and "admitted cl g v" and "creatable N cl g v ty i j"
    and "reachable (store (g_world g))"
  defines "p \<equiv> store (g_world g)" and "w1 \<equiv> g_world (snd (gateway N cl CreateOp g))"
  shows "\<exists>op. fst (gateway N cl CreateOp g) =
       Relayed (OperationsReply (WriteJSON 202 (OperationBody op))) \<and>
     accepted N cl v ty j p op (store w1) \<and>
     (\<forall>E ds. 0 \<le> clock p \<and> main_queue (redis_state p) = [] \<and> delayed (redis_state p) = [] \<and>
        (\<exists>a. load_input E j = Inr a) \<and>
        (\<forall>jb. envelope_of E (x_job (n_ext N) jb) = JobFor (UuidText (j_OperationID jb))) \<and>
        (\<forall>d\<in>set ds. 72 * second \<le> d) \<and> 3 \<le> length ds \<and> unused_ids E (n_ext N) ds w1 \<longrightarrow>
        (\<exists>row. row \<in> set (operations (store (snd (shifts E (n_ext N) ds w1)))) \<and>
           op_ID row = op_ID op \<and> IsTerminal (op_Status row) \<and> op_AttemptCount row \<le> 3 \<and>
           (\<forall>g2 cl2. alone g2 \<and> store (g_world g2) = store (snd (shifts E (n_ext N) ds w1)) \<and>
              admitted cl2 g2 v \<longrightarrow>
              fst (gateway N cl2 (GetOp (uuid_text (op_ID op))) g2) =
                Relayed (OperationsReply (WriteJSON 200 (OperationBody row))))))"
proof -
  obtain op g' where c: "gateway N cl CreateOp g = (Relayed (OperationsReply (WriteJSON 202 (OperationBody op))), g')"
    and acc: "accepted N cl v ty j p op (store (g_world g'))"
    and q: "quiet (g_world g')" and re: "reachable (store (g_world g'))"
    unfolding p_def by (rule gateway_create_effect [OF assms(1-5)])
  have "w1 = g_world g'" by (simp add: w1_def c)
  note acc = acc [folded this] and q = q [folded this] and re = re [folded this]
  show ?thesis
    using c acc worker_finishes [OF acc q re assms(2)] by (intro exI [of _ op]) simp
qed

text \<open>C4: The way of an answer. Let the situation be that of \<open>request_to_result\<close>: nothing interferes, an
  admitted client within its limits POSTs a new operation, neither the queue nor the delayed set
  holds a job before, the input is one the worker can load and the worker reads its jobs as the
  service wrote them. Let the new ids be new, and the tenant's counter of running operations not
  negative. If the model providers come up with an answer whenever they are asked, then one
  undisturbed shift is enough: the operation the client was told about has SUCCEEDED with that answer
  as its output, it is billed exactly once, the counter is what it was and the queue is empty; and any
  admitted client of the tenant that then asks for it is shown the answer.\<close>

theorem answer_reaches_client:
  fixes N :: surface and g :: gworld
  assumes "alone g" and "plain_surface N" and "admitted cl g v" and "creatable N cl g v ty i j"
    and "reachable (store (g_world g))" and "0 \<le> now_of g"
    and "main_queue (redis_state (store (g_world g))) = []"
    and "delayed (redis_state (store (g_world g))) = []" and "load_input E j = Inr input"
    and "\<And>jb. envelope_of E (x_job (n_ext N) jb) = JobFor (UuidText (j_OperationID jb))"
    and "model_answers E (n_ext N) ty input res" and "0 \<le> d"
    and "\<And>n. fresh (tape (g_world g) n) \<notin> at_ID ` set (operation_attempts (store (g_world g)))"
    and "\<And>n. fresh (tape (g_world g) n) \<notin> us_ID ` set (usage_events (store (g_world g)))"
    and "0 \<le> counter (vk_TenantID v) (redis_state (store (g_world g)))"
  defines "w' \<equiv> snd (shift E (n_ext N) d (g_world (snd (gateway N cl CreateOp g))))"
  shows "\<exists>op row. fst (gateway N cl CreateOp g) =
       Relayed (OperationsReply (WriteJSON 202 (OperationBody op))) \<and>
     row \<in> set (operations (store w')) \<and> op_ID row = op_ID op \<and>
     op_Status row = StatusSucceeded \<and> op_Output row = Some res \<and>
     length (billed (op_ID op) (store w')) = 1 \<and> main_queue (redis_state (store w')) = [] \<and>
     counter (vk_TenantID v) (redis_state (store w')) =
       counter (vk_TenantID v) (redis_state (store (g_world g))) \<and>
     (\<forall>g2 cl2. alone g2 \<and> store (g_world g2) = store w' \<and> admitted cl2 g2 v \<longrightarrow>
        fst (gateway N cl2 (GetOp (uuid_text (op_ID op))) g2) =
          Relayed (OperationsReply (WriteJSON 200 (OperationBody row))))"
proof -
  obtain op g' where c: "gateway N cl CreateOp g = (Relayed (OperationsReply (WriteJSON 202 (OperationBody op))), g')"
    and acc: "accepted N cl v ty j (store (g_world g)) op (store (g_world g'))"
    and q: "quiet (g_world g')" and re: "reachable (store (g_world g'))"
    and tp: "tape (g_world g') = tape (g_world g)"
    by (rule gateway_create_effect [OF assms(1-5)])
  have op: "op_TenantID op = vk_TenantID v" "op_OpType op = ty" "op_Input op = j"
    and same: "operation_attempts (store (g_world g')) = operation_attempts (store (g_world g))"
      "usage_events (store (g_world g')) = usage_events (store (g_world g))"
      "counter t (redis_state (store (g_world g'))) = counter t (redis_state (store (g_world g)))"
      "op \<in> set (operations (store (g_world g')))" for t
    using acc by (auto simp: accepted_def redis_lpush_def counter_def)
  have wt: "waiting E (op_ID op) op (g_world g')"
    by (rule created_waiting [OF acc q re assms(6-10)])
  obtain row where s: "shift E (n_ext N) d (g_world g') = (Inr (), w')"
    and f: "finished (op_ID op) (op_AttemptCount op + 1) w'" and m: "moves platform_step (g_world g') w'"
    and row: "row \<in> set (operations (store w'))" "op_ID row = op_ID op"
      "op_Status row = StatusSucceeded" "op_Output row = Some res"
    and b: "length (billed (op_ID op) (store w')) = 1"
    and cn: "counter (op_TenantID op) (redis_state (store w')) =
      max 0 (counter (op_TenantID op) (redis_state (store (g_world g'))))"
    by (rule shift_succeeds [OF wt, of input "n_ext N" res d])
      (use assms(9,11-14) op same tp c in \<open>simp_all add: w'_def\<close>)
  have sc: "schema_ok (store w')" using reachable_moves [OF re m] by (rule schema.at_reachable)
  have "op_TenantID row = vk_TenantID v"
    using tenant_kept [OF m same(4) row(1,2) sc] op(1) by simp
  then have "fst (gateway N cl2 (GetOp (uuid_text (op_ID op))) g2) =
      Relayed (OperationsReply (WriteJSON 200 (OperationBody row)))"
    if "alone g2" "store (g_world g2) = store w'" "admitted cl2 g2 v" for g2 cl2
    using gateway_shows_row [OF that(1) assms(2) _ that(3), of row] that(2) sc row by simp
  moreover have "main_queue (redis_state (store w')) = []" using f by (simp add: finished_def)
  ultimately show ?thesis using c row b cn assms(15) op(1) same(3) by (intro exI [of _ op] exI [of _ row]) simp
qed

section \<open>An example\<close>

text \<open>The body of a request is the input of a summary; the model answers \<open>x\<close>.\<close>

definition journey_surface :: surface where
  "journey_surface = sample_surface\<lparr>n_ext := job_ext, n_dec := sample_decoders\<lparr>dec_create :=
     (\<lambda>b. Some \<lparr>cr_OpType = ''summarize'', cr_Input = Some b\<rparr>)\<rparr>\<rparr>"

definition journey_gate :: gworld where
  "journey_gate = (sample_gate tenant_a 6000 own_key)\<lparr>g_world :=
     (sample_world tenant_a)\<lparr>tape := (\<lambda>n. (sample_turn n)\<lparr>fresh := 500\<rparr>)\<rparr>\<rparr>"

definition model_says_x :: surroundings where
  "model_says_x = sample_surroundings (Answered 200 [] (ModelText ''x''))"

lemma journey_gate_fields [simp]:
  "alone journey_gate" "store (g_world journey_gate) = tenant_a"
  "fresh (tape (g_world journey_gate) n) = 500"
  by (simp_all add: journey_gate_def alone_def quiet_def)

lemma tenant_a_empty:
  "clock tenant_a = 5000" "operations tenant_a = []" "usage_events tenant_a = []"
    "operation_attempts tenant_a = []" "1 \<in> tn_ID ` set (tenants tenant_a)"
    "main_queue (redis_state tenant_a) = []" "delayed (redis_state tenant_a) = []"
    "counter 1 (redis_state tenant_a) = 0"
    by code_simp+

lemma journey_start:
  "plain_surface journey_surface" "admitted sample_client journey_gate own_key"
  "creatable journey_surface sample_client journey_gate own_key ''summarize'' [] []"
  "reachable (store (g_world journey_gate))" "0 \<le> now_of journey_gate"
  "main_queue (redis_state (store (g_world journey_gate))) = []"
  "delayed (redis_state (store (g_world journey_gate))) = []" "load_input model_says_x [] = Inr []"
  "envelope_of model_says_x (x_job (n_ext journey_surface) jb) = JobFor (UuidText (j_OperationID jb))"
  "model_answers model_says_x (n_ext journey_surface) ''summarize'' [] ''x''"
  "operation_attempts tenant_a = []" "usage_events tenant_a = []"
  "counter 1 (redis_state tenant_a) = 0"
proof -
  note p = tenant_a_empty
  have "js_number 1000 = 1000" by code_simp
  note p = p this
  show "plain_surface journey_surface"
    by (simp add: plain_surface_def journey_surface_def sample_surface_def sample_decoders_def
        uuid.decode_encode)
  show "admitted sample_client journey_gate own_key"
    using own_admitted [of tenant_a 6000] p(1)
    by (simp add: journey_gate_def admitted_def)
  show "creatable journey_surface sample_client journey_gate own_key ''summarize'' [] []"
    using p
    by (simp add: creatable_def Let_def journey_surface_def sample_client_def job_ext_def own_key_def
        other_key_def units_of_def month_events_def small_numbers idem_header_def idem_taken_def)
  have "classify_reply model_says_x name (ask model_says_x name ty input n) = Inr ''x''"
    for name ty input n
  proof -
    have "extract_json model_says_x ''x'' = Inr ''x''" by code_simp
    then show ?thesis by (simp add: classify_reply_def) (simp add: model_says_x_def sample_surroundings_def)
  qed
  then have "fst (process_with_fallback model_says_x ty input w) = Inr (''x'', ''gemini'', 12)"
    for ty input and w :: "platform world"
    by (simp add: process_with_fallback_def GeminiProvider_def pv_available_def pv_process_def)
      (simp add: model_says_x_def sample_surroundings_def)
  then show "model_answers model_says_x (n_ext journey_surface) ''summarize'' [] ''x''"
    by (simp add: model_answers_def int4_ok_def)
      (simp add: model_says_x_def sample_surroundings_def journey_surface_def job_ext_def)
  show "envelope_of model_says_x (x_job (n_ext journey_surface) jb) = JobFor (UuidText (j_OperationID jb))"
    using sample_envelope by (simp add: model_says_x_def journey_surface_def)
  show "load_input model_says_x [] = Inr []" by code_simp
qed (use sample_reachable(1) in \<open>simp_all add: tenant_a_empty\<close>)

lemma journey_vk [simp]: "vk_TenantID own_key = 1"
  by (simp add: own_key_def)

theorem answer_reaches_client_witness:
  fixes p' :: platform
  defines "p' \<equiv> store (snd (shift model_says_x (n_ext journey_surface) second
      (g_world (snd (gateway journey_surface sample_client CreateOp journey_gate)))))"
  shows "\<exists>op row. op_Status row = StatusSucceeded \<and> op_Output row = Some ''x'' \<and>
    length (billed (op_ID op) p') = 1 \<and>
    fst (gateway journey_surface sample_client CreateOp journey_gate) =
      Relayed (OperationsReply (WriteJSON 202 (OperationBody op))) \<and>
    fst (gateway journey_surface sample_client (GetOp (uuid_text (op_ID op)))
        (sample_gate p' (clock p' + 1) own_key)) =
      Relayed (OperationsReply (WriteJSON 200 (OperationBody row)))"
  using answer_reaches_client [OF journey_gate_fields(1) journey_start(1-10), of second]
    own_admitted [of p' "clock p' + 1"]
  by (fastforce simp: journey_start p'_def second_def)

lemma journey_shift:
  assumes "waiting model_says_x i row w" and "op_Input row = []" and "op_OpType row = ''summarize''"
    and "op_AttemptCount row = 0" and "operation_attempts (store w) = []" and "usage_events (store w) = []"
    and "0 \<le> d"
  shows "\<exists>w'. shift model_says_x (n_ext journey_surface) d w = (Inr (), w') \<and> finished i 1 w'"
  by (rule shift_succeeds [OF assms(1), of "[]" "n_ext journey_surface" "''x''" d])
    (use assms journey_start(8,10) in \<open>simp_all add: second_def\<close>)

theorem request_to_result_witness:
  fixes p' :: platform
  defines "p' \<equiv> store (snd (shifts model_says_x (n_ext journey_surface)
      [72 * second, 72 * second, 72 * second]
      (g_world (snd (gateway journey_surface sample_client CreateOp journey_gate)))))"
  shows "\<exists>op row. IsTerminal (op_Status row) \<and> op_AttemptCount row \<le> 3 \<and>
    fst (gateway journey_surface sample_client CreateOp journey_gate) =
      Relayed (OperationsReply (WriteJSON 202 (OperationBody op))) \<and>
    fst (gateway journey_surface sample_client (GetOp (uuid_text (op_ID op)))
        (sample_gate p' (clock p' + 1) own_key)) =
      Relayed (OperationsReply (WriteJSON 200 (OperationBody row)))"
proof -
  let ?x = "n_ext journey_surface" and ?d = "72 * second"
  obtain op g' where c: "gateway journey_surface sample_client CreateOp journey_gate =
      (Relayed (OperationsReply (WriteJSON 202 (OperationBody op))), g')"
    and acc: "accepted journey_surface sample_client own_key ''summarize'' [] tenant_a op (store (g_world g'))"
    and q: "quiet (g_world g')" and re: "reachable (store (g_world g'))"
    by (rule gateway_create_effect [OF journey_gate_fields(1) journey_start(1-4)]) simp
  have "waiting model_says_x (op_ID op) op (g_world g')"
    by (rule created_waiting [OF acc q re]) (use journey_start in simp_all)
  then obtain w1 where w1: "shift model_says_x ?x ?d (g_world g') = (Inr (), w1)" "finished (op_ID op) 1 w1"
    using journey_shift [of "op_ID op" op "g_world g'" ?d] acc journey_start(11,12)
    by (auto simp: accepted_def second_def)
  obtain w2 where w2: "shift model_says_x ?x ?d w1 = (Inr (), w2)" "finished (op_ID op) 1 w2"
    using shift_finished [OF w1(2), of model_says_x ?x ?d] by blast
  have "operation_attempts (store (g_world g')) = []"
    using acc journey_start(11) by (auto simp: accepted_def)
  then have "unused_ids model_says_x ?x [?d, ?d, ?d] (g_world g')"
    using w1 w2 by (simp add: finished_def)
  note un = this
  have "0 \<le> clock tenant_a \<and> main_queue (redis_state tenant_a) = [] \<and> delayed (redis_state tenant_a) = [] \<and>
      (\<exists>a. load_input model_says_x [] = Inr a) \<and>
      (\<forall>jb. envelope_of model_says_x (x_job ?x jb) = JobFor (UuidText (j_OperationID jb))) \<and>
      (\<forall>d\<in>set [?d, ?d, ?d]. 72 * second \<le> d) \<and> 3 \<le> length [?d, ?d, ?d] \<and>
      unused_ids model_says_x ?x [?d, ?d, ?d]
        (g_world (snd (gateway journey_surface sample_client CreateOp journey_gate)))"
    using un journey_start(5-9) c by simp
  then show ?thesis
    using request_to_result [OF journey_gate_fields(1) journey_start(1-4)]
      own_admitted [of p' "clock p' + 1"]
    unfolding journey_gate_fields p'_def
    by (smt (verit) sample_gate_fields(1,2))
qed

end
