(* ===== verification/Outages.thy ===== *)
theory Outages
  imports Journey
begin

text \<open>
  The way of a request that the model providers do not answer: which attempts are made, what they
  leave behind, and what the client is shown in the end.
\<close>

section \<open>A round in which the model fails\<close>

text \<open>What the worker reports for an exception: the category and the text.\<close>

fun blame :: "py_exn \<Rightarrow> string \<times> string" where
  "blame (ProviderError msg cat) = (cat, msg)"
| "blame (OtherError msg) = (''transient'', ''worker exception: '' @ msg)"

text \<open>Whenever they are asked, the providers fail, with the category \<open>cat\<close> and a text from \<open>M\<close>.\<close>

definition model_fails :: "surroundings \<Rightarrow> string \<Rightarrow> json \<Rightarrow> string \<Rightarrow> string set \<Rightarrow> bool" where
  "model_fails E ty input cat M \<longleftrightarrow>
     (\<forall>w :: platform world. \<exists>e msg.
        fst (process_with_fallback E ty input w) = Inl e \<and> blame e = (cat, msg) \<and> msg \<in> M)"

text \<open>The status an operation takes, and whether it is tried again.\<close>

definition again :: "string \<Rightarrow> operation \<Rightarrow> bool" where
  "again cat row \<longleftrightarrow> cat = ''transient'' \<and> op_AttemptCount row < op_MaxRetries row"

definition given_up :: "string \<Rightarrow> string" where
  "given_up cat = (if cat = ''permanent'' then StatusFailed else StatusDeadLettered)"

lemma given_up_simps [simp]: "IsTerminal (given_up cat)" "given_up cat \<noteq> StatusRetrying"
  by (simp_all add: given_up_def)

lemma decided_bad_report:
  "decided (bad_report aid cat det) row = (if again cat row then StatusRetrying else given_up cat)"
  by (simp add: decided_cases again_def given_up_def)

lemma retried_bad_report:
  "retried enc (bad_report aid cat det) row now r =
     (if again cat row then redis_zadd (retry_ready row now) (enc (retry_job row now)) r else r)"
  by (simp add: retried_def will_retry_def again_def)

lemma finish_attempt_fails:
  assumes "running_at i row w" and "model_fails E ty input cat M"
  defines "s \<equiv> if again cat row then StatusRetrying else given_up cat"
  obtains msg w' where "msg \<in> M" and "finish_attempt E x (UuidText i) aid ty input w =
      (Inr (), if again cat row then [] else [GoNotifyTerminalFailure (op_TenantID row) i s], w')"
    and "moves platform_step w w'"
    and "store w' = (store w)\<lparr>
        operations := map (failed_row i s (take 2000 msg) (pg_now (store w))) (operations (store w)),
        operation_attempts := map (finished_bad aid (bad_report aid cat msg) (pg_now (store w)))
          (operation_attempts (store w)),
        redis_state := (let r = freed (op_TenantID row) (redis_state (store w)) in
          if again cat row
          then redis_zadd (retry_ready row (clock (store w))) (x_job x (retry_job row (clock (store w)))) r
          else r)\<rparr>"
proof -
  obtain e msg where "fst (process_with_fallback E ty input w) = Inl e" and b: "blame e = (cat, msg)" "msg \<in> M"
    using assms(2) unfolding model_fails_def by blast
  then obtain w1 where p: "process_with_fallback E ty input w = (Inl e, w1)" by (metis prod.collapse)
  have q: "quiet w" using assms(1) by (simp add: running_at_def)
  have w1: "store w1 = store w" "moves platform_step w w1"
    using try_providers_quiet [OF q p [unfolded process_with_fallback_def]] by (simp_all add: moves_def)
  have run: "running_at i row w1" using running_moves [OF assms(1) w1(2)] w1(1) by simp
  have s: "decided (bad_report aid cat msg) row = s" by (simp add: decided_bad_report s_def)
  have f: "finish_attempt E x (UuidText i) aid ty input w =
      (case complete_attempt_failure E x (UuidText i) aid cat msg w1 of (r, ts, w2) \<Rightarrow> (r, [] @ ts, w2))"
    using b(1) by (cases e) (simp_all add: finish_attempt_def p)
  show thesis
  proof (rule complete_attempt_failure_effect [OF run, of E x aid cat msg, unfolded s])
    fix w'
    assume c: "complete_attempt_failure E x (UuidText i) aid cat msg w1 =
        (Inr (), if s = StatusRetrying then [] else [GoNotifyTerminalFailure (op_TenantID row) i s], w')"
      and m: "moves platform_step w1 w'"
      and st: "store w' = (store w1)\<lparr>
        operations := map (failed_row i s (take 2000 msg) (pg_now (store w1))) (operations (store w1)),
        operation_attempts := map (finished_bad aid (bad_report aid cat msg) (pg_now (store w1)))
          (operation_attempts (store w1)),
        redis_state := retried (x_job x) (bad_report aid cat msg) row (clock (store w1))
          (freed (op_TenantID row) (redis_state (store w1)))\<rparr>"
    show thesis
      by (rule that [OF b(2) _ moves_trans [OF w1(2) m]])
        (simp_all add: f c st w1(1) retried_bad_report Let_def, simp add: s_def)
  qed
qed

text \<open>The attempts at an operation that failed with a category.\<close>

definition failures :: "uuid \<Rightarrow> string \<Rightarrow> platform \<Rightarrow> attempt list" where
  "failures i cat p = filter (\<lambda>a. at_OperationID a = i \<and> at_Success a = Some False \<and>
     at_ErrorCategory a = Some cat) (operation_attempts p)"

lemma failures_finished:
  assumes "u \<notin> at_ID ` set (operation_attempts p)"
    and "operation_attempts p' = map (finished_bad u (bad_report u cat det) now)
      (operation_attempts p @ [new_attempt u i req now'])"
  shows "length (failures i cat p') = Suc (length (failures i cat p))"
proof -
  have "map (finished_bad u (bad_report u cat det) now) (operation_attempts p) = operation_attempts p"
    using assms(1) by (intro map_idI) (auto simp: finished_bad_def)
  then show ?thesis unfolding failures_def assms(2) by (simp add: finished_bad_def new_attempt_def)
qed

text \<open>The round around it: a waiting operation is started, and its attempt fails.\<close>

lemma round_fails:
  assumes w: "waiting E i row w" and inp: "load_input E (op_Input row) = Inr input"
    and f: "fresh (tape w (pos w + 4)) \<notin> at_ID ` set (operation_attempts (store w))"
    and fails: "model_fails E (op_OpType row) input cat M"
  defines "t \<equiv> op_TenantID row" and "p \<equiv> store w" and "n \<equiv> op_AttemptCount row + 1"
  defines "row1 \<equiv> started_row i n (pg_now p) row"
  defines "s \<equiv> if again cat row1 then StatusRetrying else given_up cat"
    and "r1 \<equiv> freed t (set_counter t (counter t (redis_state p) + 1) ((redis_state p)\<lparr>main_queue := []\<rparr>))"
  obtains w' row' msg where "msg \<in> M"
    and "worker_round E x w =
      (Inr (), if again cat row1 then [] else [GoNotifyTerminalFailure t i s], w')"
    and "moves platform_step w w'"
    and "row' \<in> set (operations (store w'))"
    and "row' = row1\<lparr>op_Status := s, op_ErrorMessage := Some (take 2000 msg),
        op_CompletedAt := (if again cat row1 then op_CompletedAt row else Some (pg_now p))\<rparr>"
    and "length (failures i cat (store w')) = Suc (length (failures i cat p))"
    and "usage_events (store w') = usage_events p" and "clock (store w') = clock p"
    and "redis_state (store w') =
      (if again cat row1 then redis_zadd (retry_ready row1 (clock p)) (x_job x (retry_job row1 (clock p))) r1
       else r1)"
proof -
  let ?u = "fresh (tape w (pos w + 4))"
  have row: "row \<in> set (operations p)" "op_ID row = i" using w by (simp_all add: waiting_def p_def)
  have row1: "op_TenantID row1 = t" "op_Status row1 = StatusRunning" "op_ID row1 = i"
    "op_CompletedAt row1 = op_CompletedAt row"
    using row by (simp_all add: row1_def started_row_def t_def)
  from worker_round_starts [OF w inp f, of x]
  obtain w1 where r: "worker_round E x w = finish_attempt E x (UuidText i) ?u (op_OpType row) input w1"
    and m1: "moves platform_step w w1" and run: "running_at i row1 w1"
    and s1: "store w1 = p\<lparr>operations := map (started_row i n (pg_now p)) (operations p),
        operation_attempts := operation_attempts p @
          [new_attempt ?u i \<lparr>sa_WorkerID = WORKER_ID E, sa_AttemptNumber = n\<rparr> (pg_now p)],
        redis_state := set_counter t (counter t (redis_state p) + 1) ((redis_state p)\<lparr>main_queue := []\<rparr>)\<rparr>"
    unfolding p_def t_def n_def row1_def by metis
  obtain msg w2 where msg: "msg \<in> M" and r2: "worker_round E x w =
      (Inr (), if again cat row1 then [] else [GoNotifyTerminalFailure t i s], w2)"
    and m2: "moves platform_step w1 w2"
    and s2: "store w2 = (store w1)\<lparr>
        operations := map (failed_row i s (take 2000 msg) (pg_now (store w1))) (operations (store w1)),
        operation_attempts := map (finished_bad ?u (bad_report ?u cat msg) (pg_now (store w1)))
          (operation_attempts (store w1)),
        redis_state := (let r = freed t (redis_state (store w1)) in
          if again cat row1
          then redis_zadd (retry_ready row1 (clock (store w1))) (x_job x (retry_job row1 (clock (store w1)))) r
          else r)\<rparr>"
    by (rule finish_attempt_fails [OF run fails, of x ?u, folded r, unfolded row1(1), folded s_def])
  have c: "clock (store w1) = clock p" "pg_now (store w1) = pg_now p" by (simp_all add: s1)
  let ?row' = "failed_row i s (take 2000 msg) (pg_now p) row1"
  have "?row' \<in> set (operations (store w2))"
    using row(1) by (auto simp: s2 s1 row1_def)
  moreover have "?row' = row1\<lparr>op_Status := s, op_ErrorMessage := Some (take 2000 msg),
        op_CompletedAt := (if again cat row1 then op_CompletedAt row else Some (pg_now p))\<rparr>"
    using row1 by (simp add: failed_row_def s_def)
  moreover have "length (failures i cat (store w2)) = Suc (length (failures i cat p))"
    by (rule failures_finished [OF f [folded p_def], of _ cat msg "pg_now p" i
          "\<lparr>sa_WorkerID = WORKER_ID E, sa_AttemptNumber = n\<rparr>" "pg_now p"]) (simp add: s2 s1)
  ultimately show thesis
    by (rule that [OF msg r2 moves_trans [OF m1 m2]])
      (simp_all add: s2 Let_def c, simp_all add: s1 r1_def)
qed

section \<open>Shifts\<close>

lemma counter_promote [simp]: "counter t (promote ms r) = counter t r"
  by (simp add: counter_def)

lemma counter_redis_zadd [simp]: "counter t (redis_zadd k m r) = counter t r"
  by (simp add: counter_def redis_zadd_def)

lemma notify_failure_usage:
  assumes "quiet w"
  shows "usage_events (store (run_task cj (post_to_usage x) (GoNotifyTerminalFailure t i s) w)) =
    usage_events (store w)"
  using assms
  by (simp add: NotifyTerminalFailure_def dispatchWebhook_def Let_def post_to_usage_def http_call_quiet
      dispatchEvent_usage)

text \<open>
  What one failure leads to: a retry is under way, or the operation has been given up; either way
  the attempt is on record, nothing is billed, and the slot is free again.
\<close>

definition tried :: "uuid \<Rightarrow> operation \<Rightarrow> int \<Rightarrow> string set \<Rightarrow> platform \<Rightarrow> operation \<Rightarrow> platform \<Rightarrow> bool" where
  "tried i row k M p row' p' \<longleftrightarrow>
     row' \<in> set (operations p') \<and> op_ID row' = i \<and> op_AttemptCount row' = op_AttemptCount row + k \<and>
     op_MaxRetries row' = op_MaxRetries row \<and> op_OpType row' = op_OpType row \<and>
     op_Input row' = op_Input row \<and> op_Output row' = op_Output row \<and>
     op_TenantID row' = op_TenantID row \<and> op_ErrorMessage row' \<in> Some ` take 2000 ` M \<and>
     usage_events p' = usage_events p \<and>
     max 0 (counter (op_TenantID row) (redis_state p')) = max 0 (counter (op_TenantID row) (redis_state p))"

lemma shift_fails:
  assumes w: "waiting E i row w" and inp: "load_input E (op_Input row) = Inr input"
    and f: "fresh (tape w (pos w + 4)) \<notin> at_ID ` set (operation_attempts (store w))"
    and fails: "model_fails E (op_OpType row) input cat M"
    and enc: "\<And>j. envelope_of E (x_job x j) = JobFor (UuidText (j_OperationID j))"
    and d: "72 * second \<le> d"
  defines "more_left \<equiv> cat = ''transient'' \<and> op_AttemptCount row + 1 < op_MaxRetries row"
  obtains w' row' where "shift E x d w = (Inr (), w')" and "moves platform_step w w'"
    and "tried i row 1 M (store w) row' (store w')"
    and "length (failures i cat (store w')) = Suc (length (failures i cat (store w)))"
    and "if more_left then op_Status row' = StatusRetrying \<and> waiting E i row' w'
      else op_Status row' = given_up cat \<and> finished i (op_AttemptCount row + 1) w'"
proof -
  define row1 where "row1 = started_row i (op_AttemptCount row + 1) (pg_now (store w)) row"
  let ?p = "store w" and ?t = "op_TenantID row" and ?s = "if more_left then StatusRetrying else given_up cat"
  let ?r1 = "freed ?t (set_counter ?t (counter ?t (redis_state ?p) + 1) ((redis_state ?p)\<lparr>main_queue := []\<rparr>))"
  have row1: "op_ID row1 = i" "op_AttemptCount row1 = op_AttemptCount row + 1" "op_MaxRetries row1 = op_MaxRetries row"
    "op_OpType row1 = op_OpType row" "op_Input row1 = op_Input row" "op_Output row1 = op_Output row"
    "op_TenantID row1 = ?t"
    using w by (auto simp: row1_def started_row_def waiting_def)
  have ag: "again cat row1 = more_left" by (simp add: again_def more_left_def row1)
  have q: "quiet w" "reachable ?p" "0 \<le> clock ?p" and n: "0 \<le> op_AttemptCount row" "op_AttemptCount row < 32"
    "op_MaxRetries row \<le> 32" and del: "delayed (redis_state ?p) = []"
    using w by (simp_all add: waiting_def)
  have r1: "main_queue ?r1 = []" "delayed ?r1 = []" "counter ?t ?r1 = max 0 (counter ?t (redis_state ?p))"
    using del by (simp_all add: freed_def)
  obtain w1 row' msg where msg: "msg \<in> M" and r: "worker_round E x w =
      (Inr (), if more_left then [] else [GoNotifyTerminalFailure ?t i ?s], w1)"
    and m: "moves platform_step w w1" and row': "row' \<in> set (operations (store w1))"
    and eq: "row' = row1\<lparr>op_Status := ?s, op_ErrorMessage := Some (take 2000 msg),
        op_CompletedAt := (if more_left then op_CompletedAt row else Some (pg_now ?p))\<rparr>"
    and fl: "length (failures i cat (store w1)) = Suc (length (failures i cat ?p))"
    and us: "usage_events (store w1) = usage_events ?p" and cl: "clock (store w1) = clock ?p"
    and rd: "redis_state (store w1) =
      (if more_left then redis_zadd (retry_ready row1 (clock ?p)) (x_job x (retry_job row1 (clock ?p))) ?r1
       else ?r1)"
    by (rule round_fails [OF w inp f fails, of x, folded row1_def, unfolded ag])
  have e: "op_Status row' = ?s" "op_ID row' = i" "op_AttemptCount row' = op_AttemptCount row + 1"
    by (simp_all add: eq row1)
  have q1: "quiet w1" by (rule moves_quiet [OF m q(1)])
  from shift_rest [OF r q1, of d] obtain w' where s: "shift E x d w = (Inr (), w')" and q': "quiet w'"
    and ops: "operations (store w') = operations (store w1)"
    and att: "operation_attempts (store w') = operation_attempts (store w1)"
    and cl': "clock (store w') = clock (store w1) + d"
    and ue: "usage_events (store w') = usage_events (store (fold (run_task (x_raw x) (post_to_usage x))
        (if more_left then [] else [GoNotifyTerminalFailure ?t i ?s]) w1))"
    and red: "redis_state (store w') =
      promote (redis_zrangebyscore 0 (unix (clock (store w1) + d)) (redis_state (store w1)))
        (redis_state (store w1))"
    by blast
  have d0: "0 \<le> d" using d by (simp add: second_def)
  have m': "moves platform_step w w'" using shift_moves [OF quiet_tame [OF q(1)] d0, of E x] s by simp
  have "usage_events (store w') = usage_events ?p" unfolding ue using notify_failure_usage [OF q1] us by simp
  moreover have "counter ?t (redis_state (store w')) = max 0 (counter ?t (redis_state ?p))"
    by (simp add: red rd r1(3))
  ultimately have t: "tried i row 1 M ?p row' (store w')"
    using row' row1 msg by (simp add: tried_def ops eq)
  have "length (failures i cat (store w')) = Suc (length (failures i cat ?p))"
    using fl by (simp add: failures_def att)
  moreover have "if more_left then op_Status row' = StatusRetrying \<and> waiting E i row' w'
      else op_Status row' = given_up cat \<and> finished i (op_AttemptCount row + 1) w'"
  proof (cases more_left)
    case False
    then have "redis_state (store w') = ?r1" unfolding red using rd r1(2) promote_nothing by simp
    then show ?thesis
      using False row' q' r1 e by (auto simp: finished_def ops intro!: bexI [of _ row'])
  next
    case True
    have "main_queue (redis_state (store w')) = [x_job x (retry_job row1 (clock ?p))]"
      "delayed (redis_state (store w')) = []"
      using retry_comes_back [OF _ _ r1(2), of "redis_state (store w1)" row1 "clock ?p"
          "x_job x (retry_job row1 (clock ?p))" d] True r1(1) rd n row1(2) q(3) d
      by (simp_all add: red cl redis_zadd_def)
    moreover have "envelope_of E (x_job x (retry_job row1 (clock ?p))) = JobFor (UuidText i)"
      by (simp add: enc retry_job_def row1)
    moreover have "op_AttemptCount row + 1 < 32" using True n(3) by (simp add: more_left_def)
    ultimately show ?thesis
      using True row' q' n row1 reachable_moves [OF q(2) m'] q(3) d0 inp
      by (simp add: waiting_def ops ag eq cl' cl)
  qed
  ultimately show thesis by (rule that [OF s m' t])
qed

lemma tried_trans:
  assumes "tried i row k M p row' p'" and "tried i row' k' M p' row'' p''"
  shows "tried i row (k + k') M p row'' p''"
  using assms by (simp add: tried_def)

lemma tried_as_before:
  "tried i row k M p row' (store w) \<Longrightarrow> as_before w w' \<Longrightarrow> tried i row k M p row' (store w')"
  by (simp add: tried_def as_before_def)

text \<open>How often the worker tries.\<close>

definition tries :: "string \<Rightarrow> operation \<Rightarrow> int" where
  "tries cat row = (if cat = ''transient'' then max 1 (op_MaxRetries row - op_AttemptCount row) else 1)"

definition settled_bad :: "uuid \<Rightarrow> operation \<Rightarrow> string \<Rightarrow> string set \<Rightarrow> platform \<Rightarrow> operation \<Rightarrow> platform \<Rightarrow> bool"
  where
  "settled_bad i row cat M p row' p' \<longleftrightarrow>
     tried i row (tries cat row) M p row' p' \<and> op_Status row' = given_up cat \<and>
     int (length (failures i cat p')) = int (length (failures i cat p)) + tries cat row \<and>
     main_queue (redis_state p') = [] \<and> delayed (redis_state p') = []"

lemma shifts_fail:
  assumes "waiting E i row w" and "load_input E (op_Input row) = Inr input"
    and "model_fails E (op_OpType row) input cat M"
    and enc: "\<And>j. envelope_of E (x_job x j) = JobFor (UuidText (j_OperationID j))"
    and "\<forall>d\<in>set ds. 72 * second \<le> d" and "tries cat row \<le> int (length ds)" and "unused_ids E x ds w"
  shows "\<exists>w' row'. shifts E x ds w = (Inr (), w') \<and> settled_bad i row cat M (store w) row' (store w')"
  using assms(1-3,5-7)
proof (induction ds arbitrary: w row)
  case Nil
  then show ?case by (auto simp: tries_def split: if_splits)
next
  case (Cons d ds)
  let ?left = "cat = ''transient'' \<and> op_AttemptCount row + 1 < op_MaxRetries row"
  have "fresh (tape w (pos w + 4)) \<notin> at_ID ` set (operation_attempts (store w))"
    using Cons.prems(1,6) by (auto simp: waiting_def)
  moreover have "72 * second \<le> d" using Cons.prems(4) by simp
  ultimately obtain w1 row1 where s: "shift E x d w = (Inr (), w1)"
    and t: "tried i row 1 M (store w) row1 (store w1)"
    and fl: "length (failures i cat (store w1)) = Suc (length (failures i cat (store w)))"
    and alt: "if ?left then op_Status row1 = StatusRetrying \<and> waiting E i row1 w1
      else op_Status row1 = given_up cat \<and> finished i (op_AttemptCount row + 1) w1"
    by (rule shift_fails [OF Cons.prems(1,2) _ Cons.prems(3) enc])
  have r1: "op_Input row1 = op_Input row" "op_OpType row1 = op_OpType row"
    "op_AttemptCount row1 = op_AttemptCount row + 1" "op_MaxRetries row1 = op_MaxRetries row"
    using t by (simp_all add: tried_def)
  show ?case
  proof (cases ?left)
    case True
    then have k: "tries cat row = 1 + tries cat row1" by (simp add: tries_def r1)
    have "waiting E i row1 w1" using alt True by simp
    then obtain w' row' where "shifts E x ds w1 = (Inr (), w')"
      and "settled_bad i row1 cat M (store w1) row' (store w')"
      using Cons.IH [of row1 w1] Cons.prems(2-6) k r1 s by auto
    then show ?thesis
      using s fl tried_trans [OF t] k by (intro exI [of _ w'] exI [of _ row']) (simp add: settled_bad_def)
  next
    case False
    then have k: "tries cat row = 1" by (auto simp: tries_def)
    have f: "quiet w1" "main_queue (redis_state (store w1)) = []" "delayed (redis_state (store w1)) = []"
      "op_Status row1 = given_up cat"
      using alt False by (simp_all only: if_False) (simp_all add: finished_def)
    obtain w' where w': "shifts E x ds w1 = (Inr (), w')" "as_before w1 w'"
      using shifts_idle [OF f(1-3), of E x ds] by blast
    then have "settled_bad i row cat M (store w) row1 (store w')"
      using tried_as_before [OF t w'(2)] f fl
      by (simp add: settled_bad_def k as_before_def failures_def)
    then show ?thesis using s w'(1) by (intro exI [of _ w'] exI [of _ row1]) simp
  qed
qed

section \<open>From the request to the failure\<close>

text \<open>A new operation has no output, no attempts and no bill.\<close>

lemma accepted_blank:
  assumes "accepted N cl v ty j p op p'" and "reachable p" and "reachable p'"
  shows "op_Output op = None" and "failures (op_ID op) cat p' = []" and "billed (op_ID op) p' = []"
proof -
  have p': "op \<in> set (operations p')" "op_Status op = StatusQueued" "op_ID op \<notin> op_ID ` set (operations p)"
    "operation_attempts p' = operation_attempts p" "usage_events p' = usage_events p"
    using assms(1) by (auto simp: accepted_def)
  have "op_wf op" using ops.at_reachable [OF assms(3)] p'(1) by (simp add: operations_ok_def)
  then show "op_Output op = None" using p'(2) by (simp add: op_wf_def)
  have "at_OperationID ` set (operation_attempts p) \<subseteq> op_ID ` set (operations p)"
    "us_OperationID ` set (usage_events p) \<subseteq> op_ID ` set (operations p)"
    using schema.at_reachable [OF assms(2)] by (simp_all add: schema_ok_def foreign_keys_def)
  then have "op_ID op \<notin> at_OperationID ` set (operation_attempts p')"
    "op_ID op \<notin> us_OperationID ` set (usage_events p')"
    using p'(3-5) by auto
  then show "failures (op_ID op) cat p' = []" "billed (op_ID op) p' = []"
    by (force simp: failures_def billed_def filter_empty_conv)+
qed

text \<open>C5: The way of a failure. Let the situation be that of \<open>answer_reaches_client\<close>: nothing interferes, an
  admitted client within its limits POSTs a new operation, neither the queue nor the delayed set
  holds a job before, the input is one the worker can load, the worker reads its jobs as the service
  wrote them, the ids of new attempts are new and the tenant's counter of running operations is not
  negative. If the model providers fail whenever they are asked, transiently (they cannot be reached,
  are overloaded or answer something odd) or for good, then after three or more undisturbed shifts, 72
  seconds or more each, the operation the client was told about is DEAD_LETTERED after exactly three
  attempts, or FAILED after exactly one; each attempt is recorded with that category, nothing is
  billed, the counter is what it was and no job is left; and any admitted client of the tenant that
  then asks for it is shown the status and the text of the failure.\<close>

theorem failure_reaches_client:
  fixes N :: surface and g :: gworld
  assumes "alone g" and "plain_surface N" and "admitted cl g v" and "creatable N cl g v ty i j"
    and "reachable (store (g_world g))" and "0 \<le> now_of g"
    and "main_queue (redis_state (store (g_world g))) = []"
    and "delayed (redis_state (store (g_world g))) = []" and "load_input E j = Inr input"
    and "\<And>jb. envelope_of E (x_job (n_ext N) jb) = JobFor (UuidText (j_OperationID jb))"
    and "model_fails E ty input cat M"
    and "\<forall>d\<in>set ds. 72 * second \<le> d" and "3 \<le> length ds"
    and "unused_ids E (n_ext N) ds (g_world (snd (gateway N cl CreateOp g)))"
    and "0 \<le> counter (vk_TenantID v) (redis_state (store (g_world g)))"
  defines "w' \<equiv> snd (shifts E (n_ext N) ds (g_world (snd (gateway N cl CreateOp g))))"
  shows "\<exists>op row. fst (gateway N cl CreateOp g) =
       Relayed (OperationsReply (WriteJSON 202 (OperationBody op))) \<and>
     row \<in> set (operations (store w')) \<and> op_ID row = op_ID op \<and>
     op_Status row = (if cat = ''permanent'' then StatusFailed else StatusDeadLettered) \<and>
     op_AttemptCount row = (if cat = ''transient'' then 3 else 1) \<and>
     int (length (failures (op_ID op) cat (store w'))) = op_AttemptCount row \<and>
     op_Output row = None \<and> op_ErrorMessage row \<in> Some ` take 2000 ` M \<and>
     billed (op_ID op) (store w') = [] \<and>
     main_queue (redis_state (store w')) = [] \<and> delayed (redis_state (store w')) = [] \<and>
     max 0 (counter (vk_TenantID v) (redis_state (store w'))) =
       counter (vk_TenantID v) (redis_state (store (g_world g))) \<and>
     (\<forall>g2 cl2. alone g2 \<and> store (g_world g2) = store w' \<and> admitted cl2 g2 v \<longrightarrow>
        fst (gateway N cl2 (GetOp (uuid_text (op_ID op))) g2) =
          Relayed (OperationsReply (WriteJSON 200 (OperationBody row))))"
proof -
  obtain op g' where c: "gateway N cl CreateOp g = (Relayed (OperationsReply (WriteJSON 202 (OperationBody op))), g')"
    and acc: "accepted N cl v ty j (store (g_world g)) op (store (g_world g'))"
    and q: "quiet (g_world g')" and re: "reachable (store (g_world g'))"
    and "tape (g_world g') = tape (g_world g)"
    by (rule gateway_create_effect [OF assms(1-5)])
  have op: "op_AttemptCount op = 0" "op_MaxRetries op = 3" "op_TenantID op = vk_TenantID v"
    "op_OpType op = ty" "op_Input op = j" "op \<in> set (operations (store (g_world g')))"
    "counter t (redis_state (store (g_world g'))) = counter t (redis_state (store (g_world g)))" for t
    using acc by (auto simp: accepted_def redis_lpush_def counter_def)
  note blank = accepted_blank [OF acc assms(5) re]
  have k: "tries cat op = (if cat = ''transient'' then 3 else 1)" by (simp add: tries_def op)
  have le: "tries cat op \<le> int (length ds)" using assms(13) k by simp
  have wt: "waiting E (op_ID op) op (g_world g')" by (rule created_waiting [OF acc q re assms(6-10)])
  obtain row where s: "shifts E (n_ext N) ds (g_world g') = (Inr (), w')"
    and sb: "settled_bad (op_ID op) op cat M (store (g_world g')) row (store w')"
    using shifts_fail [OF wt _ _ assms(10,12) le, of input M] assms(9,11,14) op(4,5) c
    by (auto simp: w'_def)
  have row: "row \<in> set (operations (store w'))" "op_ID row = op_ID op" "op_AttemptCount row = tries cat op"
    "op_Output row = None" "op_ErrorMessage row \<in> Some ` take 2000 ` M"
    "usage_events (store w') = usage_events (store (g_world g'))"
    and tn: "op_TenantID row = vk_TenantID v"
    using sb op blank(1) by (simp_all add: settled_bad_def tried_def)
  have "\<forall>d\<in>set ds. 0 \<le> d" using assms(12) by (auto simp: second_def)
  then have "moves platform_step (g_world g') w'"
    using shifts_moves [OF quiet_tame [OF q], of ds E "n_ext N"] s by simp
  then have "schema_ok (store w')" using reachable_moves [OF re] schema.at_reachable by blast
  then have "fst (gateway N cl2 (GetOp (uuid_text (op_ID op))) g2) =
      Relayed (OperationsReply (WriteJSON 200 (OperationBody row)))"
    if "alone g2" "store (g_world g2) = store w'" "admitted cl2 g2 v" for g2 cl2
    using gateway_shows_row [OF that(1) assms(2) _ that(3), of row] that(2) row tn by simp
  moreover have "billed (op_ID op) (store w') = []" using blank(3) row(6) by (simp add: billed_def)
  moreover have "max 0 (counter (vk_TenantID v) (redis_state (store w'))) =
      counter (vk_TenantID v) (redis_state (store (g_world g)))"
    using sb op assms(15) by (simp add: settled_bad_def tried_def)
  ultimately show ?thesis
    using c sb row k blank(2) by (intro exI [of _ op] exI [of _ row]) (simp add: settled_bad_def given_up_def)
qed

section \<open>Examples\<close>

text \<open>The provider refuses every request.\<close>

definition model_refuses :: surroundings where
  "model_refuses = sample_surroundings (Answered 400 ''no'' (ModelText []))"

lemma refusing_start:
  "load_input model_refuses [] = Inr []"
  "envelope_of model_refuses (x_job (n_ext journey_surface) jb) = JobFor (UuidText (j_OperationID jb))"
  "model_fails model_refuses ''summarize'' [] ''permanent'' {''gemini request error: HTTP 400 no''}"
proof -
  show "load_input model_refuses [] = Inr []" by code_simp
  show "envelope_of model_refuses (x_job (n_ext journey_surface) jb) = JobFor (UuidText (j_OperationID jb))"
    using sample_envelope by (simp add: model_refuses_def journey_surface_def)
  have "classify_reply model_refuses ''gemini'' (Answered 400 ''no'' c) =
      Inl (ProviderError ''gemini request error: HTTP 400 no'' ''permanent'')" for c
    by code_simp
  then have "fst (process_with_fallback model_refuses ty input w) =
      Inl (ProviderError ''gemini request error: HTTP 400 no'' ''permanent'')" for ty input and w :: "platform world"
    by (simp add: process_with_fallback_def GeminiProvider_def pv_available_def pv_process_def)
      (simp add: model_refuses_def sample_surroundings_def)
  then show "model_fails model_refuses ''summarize'' [] ''permanent'' {''gemini request error: HTTP 400 no''}"
    by (simp add: model_fails_def)
qed

theorem failure_reaches_client_witness:
  fixes p' :: platform
  defines "p' \<equiv> store (snd (shifts model_refuses (n_ext journey_surface)
      [72 * second, 72 * second, 72 * second]
      (g_world (snd (gateway journey_surface sample_client CreateOp journey_gate)))))"
  shows "\<exists>op row. op_Status row = StatusFailed \<and> op_AttemptCount row = 1 \<and>
    op_ErrorMessage row = Some ''gemini request error: HTTP 400 no'' \<and> billed (op_ID op) p' = [] \<and>
    fst (gateway journey_surface sample_client CreateOp journey_gate) =
      Relayed (OperationsReply (WriteJSON 202 (OperationBody op))) \<and>
    fst (gateway journey_surface sample_client (GetOp (uuid_text (op_ID op)))
        (sample_gate p' (clock p' + 1) own_key)) =
      Relayed (OperationsReply (WriteJSON 200 (OperationBody row)))"
proof -
  let ?x = "n_ext journey_surface" and ?d = "72 * second"
  obtain op g' where c: "gateway journey_surface sample_client CreateOp journey_gate =
      (Relayed (OperationsReply (WriteJSON 202 (OperationBody op))), g')"
    and acc: "accepted journey_surface sample_client own_key ''summarize'' [] tenant_a op (store (g_world g'))"
    and q: "quiet (g_world g')" and re: "reachable (store (g_world g'))"
    by (rule gateway_create_effect [OF journey_gate_fields(1) journey_start(1-4)]) simp
  have w: "waiting model_refuses (op_ID op) op (g_world g')"
    by (rule created_waiting [OF acc q re]) (use journey_start refusing_start in simp_all)
  have op: "op_Input op = []" "op_OpType op = ''summarize''"
    and new: "operation_attempts (store (g_world g')) = []"
    using acc journey_start(11) by (auto simp: accepted_def)
  obtain w1 where w1: "shift model_refuses ?x ?d (g_world g') = (Inr (), w1)"
    "finished (op_ID op) (op_AttemptCount op + 1) w1"
    by (rule shift_fails [OF w _ _ _ refusing_start(2), of "[]" "''permanent''"
          "{''gemini request error: HTTP 400 no''}" ?d])
      (use op new refusing_start in simp_all)
  obtain w2 where w2: "shift model_refuses ?x ?d w1 = (Inr (), w2)"
    "finished (op_ID op) (op_AttemptCount op + 1) w2"
    using shift_finished [OF w1(2), of model_refuses ?x ?d] by blast
  have "unused_ids model_refuses ?x [?d, ?d, ?d] (g_world g')"
    using w1 w2 new by (simp add: finished_def)
  then show ?thesis
    using failure_reaches_client [OF journey_gate_fields(1) journey_start(1-7) refusing_start, of "[?d, ?d, ?d]"]
      own_admitted [of p' "clock p' + 1"] c journey_start(13)
    by (fastforce simp: p'_def)
qed

text \<open>The provider cannot be reached: an operation with two retries is tried twice.\<close>

definition model_down :: surroundings where
  "model_down = sample_surroundings (NetworkError ''down'')"

definition op_twice :: platform where
  "op_twice = snd (lpush_stmt ''2'' 0 (snd (insert_operation Some (UuidText 1) (Some ''k1'')
     ''summarize'' (Some ''{}'') 2 2 tenant_a)))"

definition twice_world :: "platform world" where
  "twice_world = (sample_world op_twice)\<lparr>tape := (\<lambda>n. (sample_turn n)\<lparr>fresh := if n \<le> 4 then 104 else 105\<rparr>)\<rparr>"

lemma twice_waiting: "waiting model_down 2 (sample_op\<lparr>op_MaxRetries := 2\<rparr>) twice_world"
proof -
  note gs = reachable_step [OF _ platform_step.guarded]
  have "reachable op_twice"
    unfolding op_twice_def
    by (rule gs [OF gs [OF sample_reachable(1) guarded_step.insert_op] guarded_step.lpush])
  moreover have "operations op_twice = [sample_op\<lparr>op_MaxRetries := 2\<rparr>]" "clock op_twice = 5000"
    "main_queue (redis_state op_twice) = [''2'']" "delayed (redis_state op_twice) = []"
    by code_simp+
  moreover have "envelope_of model_down ''2'' = JobFor (UuidText 2)" "load_input model_down ''{}'' = Inr ''{}''"
    by code_simp+
  ultimately show ?thesis
    by (simp add: waiting_def twice_world_def sample_op_def IsTerminal_iff status_defs quiet_def)
qed

lemma down_fails: "model_fails model_down ty input ''transient'' {''gemini network error: down''}"
proof -
  have "classify_reply model_down ''gemini'' (NetworkError ''down'') =
      Inl (ProviderError ''gemini network error: down'' ''transient'')"
    by code_simp
  moreover have "ask model_down name t j n = NetworkError ''down''" "pv_available (GeminiProvider model_down)"
    "\<not> pv_available (OpenRouterProvider model_down)" for name t j n
    by (simp_all add: model_down_def sample_surroundings_def pv_available_def GeminiProvider_def
        OpenRouterProvider_def)
  moreover have "pv_name (GeminiProvider model_down) = ''gemini''" by (simp add: GeminiProvider_def)
  ultimately show ?thesis
    by (simp add: model_fails_def process_with_fallback_def pv_process_def)
qed

theorem outage_example:
  "\<exists>row\<in>set (operations (store (snd (shifts model_down job_ext [72 * second, 72 * second] twice_world)))).
     op_ID row = 2 \<and> op_Status row = StatusDeadLettered \<and> op_AttemptCount row = 2 \<and>
     op_ErrorMessage row = Some ''gemini network error: down''"
proof -
  have e: "envelope_of model_down (x_job job_ext j) = JobFor (UuidText (j_OperationID j))" for j
    using sample_envelope by (simp add: model_down_def)
  have a: "operation_attempts (store twice_world) = []" "load_input model_down ''{}'' = Inr ''{}''"
    by code_simp+
  have f: "fresh (tape twice_world n) = (if n \<le> 4 then 104 else 105)" "pos twice_world = 0" for n
    by (simp_all add: twice_world_def)
  obtain w1 where w1: "shift model_down job_ext (72 * second) twice_world = (Inr (), w1)"
    "tape w1 = tape twice_world" "4 < pos w1" "at_ID ` set (operation_attempts (store w1)) = {104}"
    using shift_waiting [OF twice_waiting _ e, of "72 * second"] a(1) f by auto
  have "unused_ids model_down job_ext [72 * second, 72 * second] twice_world"
    using w1 a(1) f by simp
  then obtain w' row where "shifts model_down job_ext [72 * second, 72 * second] twice_world = (Inr (), w')"
    and "settled_bad 2 (sample_op\<lparr>op_MaxRetries := 2\<rparr>) ''transient'' {''gemini network error: down''}
      (store twice_world) row (store w')"
    using shifts_fail [OF twice_waiting _ down_fails e, of "''{}''" "[72 * second, 72 * second]"] a(2)
    by (auto simp: tries_def sample_op_def)
  then show ?thesis
    by (intro bexI [of _ row]) (auto simp: settled_bad_def tried_def tries_def given_up_def sample_op_def)
qed

end
