(* ===== verification/Notices.thy ===== *)
theory Notices
  imports Settling Metering
begin

text \<open>
  How customers learn that an operation has ended: from the goroutine the operations service starts
  to the deliveries the usage service records, and what becomes of the event when the caller hangs up.
\<close>

section \<open>From a goroutine to the deliveries\<close>

text \<open>The tenant, the operation, the type and the data of the event a goroutine announces.\<close>

fun announced :: "(json \<Rightarrow> json) \<Rightarrow> task \<Rightarrow> uuid \<times> uuid \<times> string \<times> json" where
  "announced cj (GoNotifySuccess t i out) =
     (t, i, ''operation.succeeded'', case out of None \<Rightarrow> ''null'' | Some j \<Rightarrow> cj j)"
| "announced cj (GoNotifyTerminalFailure t i s) =
     (t, i, if s = StatusDeadLettered then ''operation.dead_lettered'' else ''operation.failed'', ''null'')"

text \<open>The calls a goroutine makes before the first delivery.\<close>

fun lead :: "task \<Rightarrow> nat" where
  "lead (GoNotifySuccess t i out) = 4"
| "lead (GoNotifyTerminalFailure t i s) = 2"

lemma usage_stmt_snd: "\<exists>us. snd (usage_stmt t i n u p) = p\<lparr>usage_events := us\<rparr>"
proof (cases "snd (usage_stmt t i n u p) = p")
  case True
  then show ?thesis by (intro exI [of _ "usage_events p"]) simp
next
  case False
  then show ?thesis by (auto simp: usage_stmt_def with_uuid_def split: idtext.splits if_splits)
qed

lemma post_usage_quiet:
  assumes "quiet w"
  obtains us where "post_to_usage x (PostUsage t i n) w =
    w\<lparr>pos := pos w + 2, store := (store w)\<lparr>usage_events := us\<rparr>\<rparr>"
proof -
  let ?s = "usage_stmt t i n (fresh (tape w (Suc (pos w)))) (store w)"
  obtain us where us: "snd ?s = (store w)\<lparr>usage_events := us\<rparr>" using usage_stmt_snd by blast
  have "post_to_usage x (PostUsage t i n) w = w\<lparr>pos := pos w + 2, store := snd ?s\<rparr>"
    using assms
    by (simp add: post_to_usage_def http_call_quiet recordUsage_def internal_request_def RecordUsage_def
        call_quiet case_prod_beta split: sum.splits)
  then show thesis using that us by simp
qed

lemma ids_unused_cong:
  "tape v = tape w \<Longrightarrow> pos v = pos w \<Longrightarrow>
   webhook_deliveries (store v) = webhook_deliveries (store w) \<Longrightarrow> ids_unused k v = ids_unused k w"
  by (simp only: ids_unused_def)

lemma post_dispatch_told:
  assumes "quiet v" and "\<not> no_operation i (store v)"
    and "x_event x (event_for (UuidText t) (UuidText i) ev (Some data) (clock (store v))) = Some body"
    and "x_jsonb x body = Some j"
    and "ids_unused (3 * length (active_endpoints t (store v))) (v\<lparr>pos := pos v + 2\<rparr>)"
  obtains ns where "store (post_to_usage x (PostDispatch (UuidText t) (UuidText i) ev data) v) =
      (store v)\<lparr>webhook_deliveries := webhook_deliveries (store v) @ ns\<rparr>"
    and "list_all2 (first_try (x_url x) i ev j (clock (store v))) (active_endpoints t (store v)) ns"
proof -
  let ?v = "v\<lparr>pos := Suc (pos v)\<rparr>"
  obtain ns where "store (snd (Dispatch (x_jsonb x) (x_event x) (x_url x) (UuidText t) (UuidText i) ev
        (Some data) ?v)) = (store v)\<lparr>webhook_deliveries := webhook_deliveries (store v) @ ns\<rparr>"
    and "list_all2 (first_try (x_url x) i ev j (clock (store v))) (active_endpoints t (store v)) ns"
    using Dispatch_recorded [of ?v i "x_event x" t ev "Some data" body "x_jsonb x" j "x_url x"] assms by auto
  moreover have "store (post_to_usage x (PostDispatch (UuidText t) (UuidText i) ev data) v) =
      store (snd (Dispatch (x_jsonb x) (x_event x) (x_url x) (UuidText t) (UuidText i) ev (Some data) ?v))"
    using assms(1)
    by (auto simp: post_to_usage_def http_call_quiet dispatchEvent_def internal_request_def
        case_prod_beta split: sum.splits)
  ultimately show thesis using that by simp
qed

text \<open>C18: What the customers are told: the goroutine a report starts, undisturbed, records one delivery for
  each active endpoint of the operation's tenant, with the operation, its event
  (operation.succeeded with the output, operation.dead_lettered or operation.failed without one) and
  the JSON made of it, and tries each once: to an address that parses it is DELIVERED or due again
  five seconds later, to another it has FAILED. Nothing else but the usage ledger changes.\<close>

theorem goroutine_tells_customers:
  fixes g :: task and w :: "platform world"
  assumes "quiet w" and "announced (x_raw x) g = (t, i, ev, data)" and "\<not> no_operation i (store w)"
    and "x_event x (event_for (UuidText t) (UuidText i) ev (Some data) (clock (store w))) = Some body"
    and "x_jsonb x body = Some j"
    and "ids_unused (3 * length (active_endpoints t (store w))) (w\<lparr>pos := pos w + lead g\<rparr>)"
  defines "p' \<equiv> store (run_task (x_raw x) (post_to_usage x) g w)"
  shows "\<exists>ns us. p' = (store w)\<lparr>webhook_deliveries := webhook_deliveries (store w) @ ns, usage_events := us\<rparr> \<and>
    list_all2 (first_try (x_url x) i ev j (clock (store w))) (active_endpoints t (store w)) ns"
proof -
  show ?thesis
  proof (cases g)
    case (GoNotifySuccess t' i' out)
    then have e: "t' = t" "i' = i" "ev = ''operation.succeeded''"
      "data = (case out of None \<Rightarrow> ''null'' | Some j \<Rightarrow> x_raw x j)"
      using assms(2) by simp_all
    obtain us where u: "post_to_usage x (PostUsage (UuidText t) (UuidText i) 1) w =
        w\<lparr>pos := pos w + 2, store := (store w)\<lparr>usage_events := us\<rparr>\<rparr>"
      by (rule post_usage_quiet [OF assms(1)])
    define v where "v = w\<lparr>pos := pos w + 2, store := (store w)\<lparr>usage_events := us\<rparr>\<rparr>"
    have v: "quiet v" "webhook_deliveries (store v) = webhook_deliveries (store w)"
      "active_endpoints t (store v) = active_endpoints t (store w)" "clock (store v) = clock (store w)"
      "no_operation i (store v) = no_operation i (store w)"
      using assms(1) by (simp_all add: v_def active_endpoints_def no_operation_def)
    have ids: "ids_unused k (v\<lparr>pos := pos v + 2\<rparr>) = ids_unused k (w\<lparr>pos := pos w + 4\<rparr>)" for k
      by (rule ids_unused_cong) (simp_all add: v_def)
    obtain ns where "store (post_to_usage x (PostDispatch (UuidText t) (UuidText i) ev data) v) =
        (store v)\<lparr>webhook_deliveries := webhook_deliveries (store v) @ ns\<rparr>"
      and "list_all2 (first_try (x_url x) i ev j (clock (store w))) (active_endpoints t (store w)) ns"
      using post_dispatch_told [of v i x t ev data body j] v ids assms(3-6) GoNotifySuccess by auto
    then show ?thesis
      using GoNotifySuccess
      by (intro exI [of _ ns] exI [of _ us])
        (simp add: p'_def NotifySuccess_def recordUsage_post_def dispatchWebhook_def Let_def
          u [folded v_def] e, simp add: v_def)
  next
    case (GoNotifyTerminalFailure t' i' s)
    then have e: "t' = t" "i' = i" "data = ''null''"
      "ev = (if s = ''DEAD_LETTERED'' then ''operation.dead_lettered'' else ''operation.failed'')"
      using assms(2) by (simp_all add: StatusDeadLettered_def)
    obtain ns where
      "store (post_to_usage x (PostDispatch (UuidText t) (UuidText i) ev data) w) =
        (store w)\<lparr>webhook_deliveries := webhook_deliveries (store w) @ ns\<rparr>"
      and "list_all2 (first_try (x_url x) i ev j (clock (store w))) (active_endpoints t (store w)) ns"
      using post_dispatch_told [of w i x t ev data body j] assms(1,3-6) GoNotifyTerminalFailure by auto
    then show ?thesis
      using GoNotifyTerminalFailure
      by (intro exI [of _ ns] exI [of _ "usage_events (store w)"])
        (simp add: p'_def NotifyTerminalFailure_def dispatchWebhook_def Let_def e)
  qed
qed

section \<open>When the caller hangs up\<close>

text \<open>From a call on, all calls fail without effect, as they do for a request whose context is cancelled.\<close>

definition hung_up :: "nat \<Rightarrow> 's world \<Rightarrow> bool" where
  "hung_up k w \<longleftrightarrow> (\<forall>n\<ge>k. refused w n)"

lemma dispatch_loop_hung_up:
  assumes "hung_up (pos w) w"
  shows "fst (dispatch_loop jb enc uok t i ev data es w) = [] \<and>
    store (snd (dispatch_loop jb enc uok t i ev data es w)) = store w"
  using assms
proof (induction es arbitrary: w)
  case Nil
  then show ?case by simp
next
  case (Cons e es)
  have h: "hung_up (Suc (pos w)) (w\<lparr>pos := Suc (pos w)\<rparr>)" using Cons.prems by (simp add: hung_up_def)
  have "refused w (pos w)" using Cons.prems by (simp add: hung_up_def)
  then show ?case
    using Cons.IH [of w] Cons.IH [of "w\<lparr>pos := Suc (pos w)\<rparr>"] Cons.prems h
    by (auto simp: CreateDelivery_def call_refused Let_def split: option.splits)
qed

text \<open>C37: A slow endpoint costs the others the event: the dispatcher works under the context of the notifier's
  request and waits longer for a customer (5 s) than the notifier waits for it (3 s). If the notifier
  hangs up during the first endpoint's attempt, that attempt is not recorded, so its delivery stays due
  and the event is sent to it again; for every other endpoint nothing is sent and no delivery is
  recorded, so no sweep will ever send it.\<close>

theorem slow_endpoint_loses_event:
  fixes w :: "platform world"
  assumes "calm w (pos w)" and "calm w (pos w + 1)" and "others (tape w (pos w + 2)) = id"
    and "reply (tape w (pos w + 2)) = None" and "hung_up (pos w + 3) w"
    and "active_endpoints t (store w) = e # es" and "uok (we_URL e)"
    and "\<not> no_operation i (store w)"
    and "enc (event_for (UuidText t) (UuidText i) ev data (clock (store w))) = Some body" and "jb body = Some j"
    and "fresh (tape w (pos w + 1)) \<notin> wd_ID ` set (webhook_deliveries (store w))"
  defines "d \<equiv> Dispatch jb enc uok (UuidText t) (UuidText i) ev data w"
  shows "notifier_timeout < dispatcher_timeout \<and>
    fst d = Inr [request_to (we_URL e) (we_Secret e) body (clock (store w))] \<and>
    (\<exists>r. store (snd d) = (store w)\<lparr>webhook_deliveries := webhook_deliveries (store w) @ [r]\<rparr> \<and>
       wd_WebhookID r = we_ID e \<and> wd_Status r = DeliveryPending \<and> wd_AttemptCount r = 0 \<and>
       wd_NextAttemptAt r = Some (pg_now (store w)) \<and> wd_Payload r = j)"
proof -
  let ?p = "store w"
  define u where "u = fresh (tape w (pos w + 1))"
  define r where "r = \<lparr>wd_ID = u, wd_WebhookID = we_ID e, wd_OperationID = i, wd_EventType = ev,
    wd_Status = DeliveryPending, wd_AttemptCount = 0, wd_LastAttemptAt = None, wd_CreatedAt = pg_now ?p,
    wd_Payload = j, wd_NextAttemptAt = Some (pg_now ?p)\<rparr>"
  define w1 where "w1 = w\<lparr>pos := pos w + 1\<rparr>"
  define w2 where "w2 = w\<lparr>pos := pos w + 2, store := ?p\<lparr>webhook_deliveries := webhook_deliveries ?p @ [r]\<rparr>\<rparr>"
  define w4 where "w4 = w2\<lparr>pos := pos w + 4\<rparr>"
  have a: "ActiveWebhooksForTenant (UuidText t) w = (Inr (e # es), w1)"
    using assms(6) by (simp add: ActiveWebhooksForTenant_def call_calm [OF assms(1)] reading_def w1_def)
  have "we_ID e \<in> we_ID ` set (webhook_endpoints ?p)"
    using assms(6) by (auto simp: active_endpoints_def filter_eq_Cons_iff)
  moreover have "calm w1 (pos w1)" using assms(2) by (simp add: w1_def)
  ultimately have c: "CreateDelivery jb (we_ID e) (UuidText i) ev body w1 = (Inr u, w2)"
    using assms(8,10) assms(11) [folded u_def]
    by (simp add: CreateDelivery_def call_calm delivery_stmt_def) (simp add: w1_def w2_def r_def u_def)
  have "refused w2 (pos w + 3)" using assms(5) by (simp add: hung_up_def w2_def)
  then have at: "attemptDelivery uok u (we_URL e) (we_Secret e) body 1 w2 =
      ([request_to (we_URL e) (we_Secret e) body (clock ?p)], w4)"
    using assms(3,4,7)
    by (simp add: attemptDelivery_def Let_def http_do_def maxAttempts_def request_to_def
        MarkDeliveryFailedAndReschedule_def call_refused w2_def w4_def numeral_eq_Suc)
  have cl: "clock (store w1) = clock ?p" by (simp add: w1_def)
  have "hung_up (pos w4) w4" using assms(5) by (simp add: hung_up_def w4_def w2_def)
  note l = dispatch_loop_hung_up [OF this, of jb enc uok "UuidText t" "UuidText i" ev data es]
  have "fst d = Inr [request_to (we_URL e) (we_Secret e) body (clock ?p)]" "store (snd d) = store w4"
    using l assms(9) cl by (simp_all add: d_def Dispatch_def a c at event_for_def Let_def case_prod_beta)
  then show ?thesis by (intro conjI exI [of _ r])
      (simp_all add: notifier_timeout_def dispatcher_timeout_def w4_def w2_def r_def)
qed

section \<open>Examples\<close>

definition notice_ext :: ext where
  "notice_ext = \<lparr>x_jsonb = Some, x_month = id, x_job = j_OpType, x_event = (\<lambda>e. Some ''{}''),
     x_url = (\<lambda>u. True), x_raw = id, x_secret = []\<rparr>"

lemma notice_ext_fields [simp]:
  "x_jsonb notice_ext = Some" "x_event notice_ext e = Some ''{}''" "x_url notice_ext u" "x_raw notice_ext = id"
  by (simp_all add: notice_ext_def)

theorem goroutine_tells_customers_witness:
  "map (\<lambda>r. (wd_EventType r, wd_OperationID r, wd_AttemptCount r)) (webhook_deliveries (store (run_task id
     (post_to_usage notice_ext) (GoNotifySuccess 1 2 None) (sample_world hook_added)))) =
   [(''operation.succeeded'', 2, 1)]"
proof -
  have p: "webhook_deliveries hook_added = []" "\<not> no_operation 2 hook_added"
    "length (active_endpoints 1 hook_added) = 1"
    by code_simp+
  then have "ids_unused (3 * length (active_endpoints 1 hook_added))
      ((sample_world hook_added)\<lparr>pos := 4\<rparr>)"
    by (simp add: ids_unused_def upt_rec)
  then show ?thesis
    using goroutine_tells_customers [of "sample_world hook_added" notice_ext "GoNotifySuccess 1 2 None"
        1 2 "''operation.succeeded''" "''null''" "''{}''" "''{}''"] p
    by (fastforce simp: length_Suc_conv list_all2_Cons1 first_try_def)
qed

text \<open>Two endpoints; the notifier hangs up before the first has answered.\<close>

definition two_hooks :: platform where
  "two_hooks = snd (endpoint_stmt (UuidText 1) ''http://b'' ''s2'' 9 hook_added)"

definition cut_world :: "platform world" where
  "cut_world = (sample_world two_hooks)\<lparr>tape :=
     (\<lambda>n. (sample_turn n)\<lparr>outcome := if 3 \<le> n then Refused else Done, reply := None\<rparr>)\<rparr>"

theorem slow_endpoint_loses_event_witness:
  fixes d :: "(goerr + webhook_request list) \<times> platform world"
  defines "d \<equiv> Dispatch Some (\<lambda>e. Some ''{}'') (\<lambda>u. True) (UuidText 1) (UuidText 2) ''e'' None cut_world"
  shows "map we_URL (active_endpoints 1 two_hooks) = [''http://a'', ''http://b''] \<and>
    fst d = Inr [request_to ''http://a'' ''s'' ''{}'' 5000] \<and>
    map wd_WebhookID (webhook_deliveries (store (snd d))) = [4]"
proof -
  have p: "webhook_deliveries two_hooks = []" "\<not> no_operation 2 two_hooks" "clock two_hooks = 5000"
    "map (\<lambda>e. (we_ID e, we_URL e, we_Secret e)) (active_endpoints 1 two_hooks) =
      [(4, ''http://a'', ''s''), (9, ''http://b'', ''s2'')]"
    by code_simp+
  then obtain e e' where e: "active_endpoints 1 two_hooks = [e, e']" "we_ID e = 4" "we_URL e = ''http://a''"
    "we_Secret e = ''s''" "we_URL e' = ''http://b''"
    by (auto simp: map_eq_Cons_conv)
  have w: "store cut_world = two_hooks" "fresh (tape cut_world n) = of_nat (100 + n)" for n
    by (simp_all add: cut_world_def)
  have h: "calm cut_world (pos cut_world)" "calm cut_world (pos cut_world + 1)"
    "others (tape cut_world (pos cut_world + 2)) = id" "reply (tape cut_world (pos cut_world + 2)) = None"
    "hung_up (pos cut_world + 3) cut_world"
    by (simp_all add: cut_world_def calm_def hung_up_def refused_def)
  show ?thesis
    using slow_endpoint_loses_event [OF h, of 1 e "[e']" "\<lambda>u. True" 2 "\<lambda>e. Some ''{}''" "''e''" None "''{}''"
        Some "''{}''", unfolded w(1)] p e
    by (auto simp: d_def)
qed

end
