(* ===== verification/Overlaps.thy ===== *)
theory Overlaps
  imports Settling
begin

text \<open>
  What happens when a retry sweep runs while the first attempt of a delivery still waits for the
  customer's answer: the statements that settle a delivery have no guard on its status.
\<close>

text \<open>An undisturbed sweep whose requests are all answered 2xx: whom it sends to, and the rows it leaves.\<close>

lemma good_sweep:
  assumes "quiet v" and "schema_ok (store v)" and "bounded (store v)" and "helpful uok v"
    and "i \<in> set (due_joined 50 (store v))"
    and "r \<in> set (webhook_deliveries (store v))" and "wd_ID r = dd_ID i"
  defines "p1 \<equiv> store (retryLoop_tick uok v)"
  obtains n reqs r1 where "fst (RetryDue uok v) = Inr (n, reqs)"
    and "request_for (clock (store v)) i \<in> set reqs"
    and "r1 \<in> set (webhook_deliveries p1)" and "tried True (clock (store v)) r r1"
    and "clock p1 = clock (store v)" and "schema_ok p1"
proof -
  let ?p = "store v"
  define items where "items = due_joined 50 ?p"
  have read: "DueDeliveriesWithEndpoint 50 v = (Inr items, v\<lparr>pos := Suc (pos v)\<rparr>)"
    using assms(1) by (simp add: DueDeliveriesWithEndpoint_def call_quiet reading_def items_def)
  have p1: "p1 = store (snd (retry_loop uok items (v\<lparr>pos := Suc (pos v)\<rparr>)))"
    by (simp add: p1_def retryLoop_tick_def RetryDue_def read case_prod_beta)
  have "\<forall>i\<in>set items. current ?p i" "distinct (map dd_ID items)"
    using assms(2,3) by (auto simp: items_def due_joined_current due_joined_distinct)
  moreover have "True \<longrightarrow> helpful uok (v\<lparr>pos := Suc (pos v)\<rparr>)" using assms(4) by (simp add: helpful_def)
  ultimately have l: "list_all2 (swept (set (map dd_ID items)) True (clock ?p)) (webhook_deliveries ?p)
      (webhook_deliveries p1)" and c: "clock p1 = clock ?p"
    using retry_loop_rows [of "v\<lparr>pos := Suc (pos v)\<rparr>" items True uok] assms(1,3)
    by (simp_all add: p1)
  obtain k where k: "k < length (webhook_deliveries ?p)" "webhook_deliveries ?p ! k = r"
    using assms(6) by (auto simp: in_set_conv_nth)
  then have "swept (set (map dd_ID items)) True (clock ?p) r (webhook_deliveries p1 ! k)"
    and "webhook_deliveries p1 ! k \<in> set (webhook_deliveries p1)"
    using l by (auto simp: list_all2_conv_all_nth)
  then obtain r1 where r1: "r1 \<in> set (webhook_deliveries p1)" "tried True (clock ?p) r r1"
    using assms(5,7) by (auto simp: swept_def items_def)
  have "uok (dd_URL i)" using assms(4) by (simp add: helpful_def)
  then have "request_for (clock ?p) i \<in> set (map (request_for (clock ?p)) (filter (\<lambda>i. uok (dd_URL i)) items))"
    using assms(5) by (simp add: items_def)
  moreover have "schema_ok p1"
    using schema.of_moves [OF full.RetryDue_moves [OF quiet_tame [OF assms(1)], of uok]] assms(2)
    by (simp add: p1_def retryLoop_tick_def)
  ultimately show thesis
    using that RetryDue_quiet(1) [OF assms(1-3), of uok] r1 c by (simp add: items_def)
qed

text \<open>C35: A sweep that runs while the first attempt of a due delivery waits for the customer's answer sends the
  same event a second time, to the same address. If the sweep's request is accepted the delivery is
  DELIVERED; if the first attempt is then not answered 2xx, settling it makes the delivery PENDING
  again, with two attempts counted, and due five seconds later.\<close>

theorem delivered_undone:
  fixes body :: json
  assumes "quiet v" and "schema_ok (store v)" and "bounded (store v)" and "helpful uok v"
    and "i \<in> set (due_joined 50 (store v))"
    and "r \<in> set (webhook_deliveries (store v))" and "wd_ID r = dd_ID i" and "wd_AttemptCount r = 0"
    and "store w = store v"
    and "others (tape w (pos w)) (store v) = store (retryLoop_tick uok v)"
    and "\<not> is_2xx (reply (tape w (pos w)))" and "calm w (Suc (pos w))"
  defines "c \<equiv> clock (store v)"
    and "first \<equiv> attemptDelivery uok (dd_ID i) (dd_URL i) (dd_Secret i) body 1 w"
  shows "fst first = [request_to (dd_URL i) (dd_Secret i) body c] \<and>
    (\<exists>n reqs. fst (RetryDue uok v) = Inr (n, reqs) \<and>
       request_to (dd_URL i) (dd_Secret i) (dd_Payload i) c \<in> set reqs) \<and>
    (\<exists>r1\<in>set (webhook_deliveries (store (retryLoop_tick uok v))).
       same_event r r1 \<and> wd_Status r1 = DeliveryDelivered \<and> wd_AttemptCount r1 = 1) \<and>
    (\<exists>r2\<in>set (webhook_deliveries (store (snd first))).
       same_event r r2 \<and> wd_Status r2 = DeliveryPending \<and> wd_AttemptCount r2 = 2 \<and>
       wd_NextAttemptAt r2 = Some (pg_time (c + 5 * second)))"
proof -
  let ?p1 = "store (retryLoop_tick uok v)"
  obtain n reqs r1 where s: "fst (RetryDue uok v) = Inr (n, reqs)" "request_for c i \<in> set reqs"
    and r1: "r1 \<in> set (webhook_deliveries ?p1)" "tried True c r r1"
    and p1: "clock ?p1 = c" "schema_ok ?p1"
    unfolding c_def by (rule good_sweep [OF assms(1-7)])
  have id: "wd_ID r1 = dd_ID i" "wd_AttemptCount r1 = 1"
    using r1(2) assms(7,8) by (simp_all add: tried_def same_event_def)
  have cn: "countable (dd_ID i) ?p1"
    using same_id_row [OF p1(2) r1(1)] id by (auto simp: countable_def int4_ok_def)
  have nok: "\<not> (case reply (tape w (pos w)) of None \<Rightarrow> False | Some code \<Rightarrow> 200 \<le> code \<and> code < 300)"
    using assms(11) by (simp add: is_2xx_def split: option.splits)
  define w1 where "w1 = w\<lparr>pos := Suc (pos w), store := ?p1\<rparr>"
  have h: "http_do w = (reply (tape w (pos w)), w1)"
    using assms(9,10) by (simp add: http_do_def w1_def Let_def)
  have "uok (dd_URL i)" using assms(4) by (simp add: helpful_def)
  then have f: "first = ([request_to (dd_URL i) (dd_Secret i) body c],
      snd (MarkDeliveryFailedAndReschedule (dd_ID i) (c + webhook_backoff 1) w1))"
    using nok assms(9)
    by (simp add: first_def attemptDelivery_def h maxAttempts_def request_to_def c_def w1_def p1(1) [unfolded c_def])
  have "store (snd first) = marked (dd_ID i) (MarkReschedule (c + webhook_backoff 1)) ?p1"
    using assms(12) cn
    by (simp add: f MarkDeliveryFailedAndReschedule_def call_calm w1_def mark_stmt_marked)
  moreover define r2 where "r2 = mark_row (MarkReschedule (c + 5 * second)) (pg_now ?p1) r1"
  ultimately have "r2 \<in> set (webhook_deliveries (store (snd first)))"
    using r1(1) id(1) by (auto simp: marked_def webhook_backoff_small)
  moreover have "same_event r r1" "wd_Status r1 = DeliveryDelivered" using r1(2) by (simp_all add: tried_def)
  moreover from this(1) have "same_event r r2" unfolding r2_def by (rule same_event_trans [OF _ same_event_mark])
  moreover have "wd_Status r2 = DeliveryPending" "wd_AttemptCount r2 = 2"
    "wd_NextAttemptAt r2 = Some (pg_time (c + 5 * second))"
    using id(2) by (simp_all add: r2_def)
  moreover have "fst first = [request_to (dd_URL i) (dd_Secret i) body c]" by (simp add: f)
  ultimately show ?thesis
    using s [unfolded request_for_def] r1(1) id(2) by blast
qed

text \<open>The row a dispatch has just made, and the sweep that finds it due before the first attempt is answered.\<close>

definition overlapped_turn :: "nat \<Rightarrow> platform turn" where
  "overlapped_turn n =
     (if n = 0
      then \<lparr>others = (\<lambda>p. store (retryLoop_tick (\<lambda>u. True) (sample_world p))), outcome = Done,
            fresh = 0, entropy = (\<lambda>i. 0), reply = None\<rparr>
      else sample_turn n)"

definition overlapped_world :: "platform world" where
  "overlapped_world = \<lparr>store = first_delivery, tape = overlapped_turn, pos = 0\<rparr>"

theorem delivered_undone_witness:
  "(\<exists>r1\<in>set (webhook_deliveries (others (overlapped_turn 0) first_delivery)).
      wd_Status r1 = DeliveryDelivered) \<and>
   (\<exists>r2\<in>set (webhook_deliveries (store (snd (attemptDelivery (\<lambda>u. True) 50 ''http://a'' ''s'' ''{}'' 1
       overlapped_world)))). wd_Status r2 = DeliveryPending \<and> wd_AttemptCount r2 = 2)"
proof (rule first_delivery_row)
  let ?i = "\<lparr>dd_ID = 50, dd_URL = ''http://a'', dd_Secret = ''s'', dd_Payload = ''{}'', dd_AttemptCount = 0\<rparr>"
  fix r
  assume r: "webhook_deliveries first_delivery = [r]" "wd_ID r = 50" "wd_AttemptCount r = 0"
  have "helpful (\<lambda>u. True) (sample_world first_delivery)" "calm overlapped_world (Suc (pos overlapped_world))"
    using quiet_sample by (simp_all add: helpful_def is_2xx_def overlapped_world_def calm_def overlapped_turn_def)
  then show ?thesis
    using delivered_undone [of "sample_world first_delivery" "\<lambda>u. True" ?i r overlapped_world "''{}''"]
      first_delivery_ok first_delivery_due(1) r
    by (auto simp: overlapped_world_def overlapped_turn_def is_2xx_def)
qed

end
