(* ===== verification/Overruns.thy ===== *)
theory Overruns
  imports Journey
begin

text \<open>
  What the limits of a tenant are worth: the gateway compares the monthly quota with the units already
  billed and the limit of concurrent operations with those already running, so operations that wait
  in the queue count for neither. Only the rate limit of the minute holds a burst of requests back.
\<close>

text \<open>What \<open>creatable\<close> asks of the request, and what it asks of the limits.\<close>

definition asks ::
    "surface \<Rightarrow> client_request \<Rightarrow> gworld \<Rightarrow> ValidatedKey \<Rightarrow> string \<Rightarrow> json \<Rightarrow> json \<Rightarrow> bool" where
  "asks N cl g v ty i j \<longleftrightarrow>
     (let p = store (g_world g); t = vk_TenantID v in
      dec_create (n_dec N) (cl_body cl) = Some \<lparr>cr_OpType = ty, cr_Input = Some i\<rparr> \<and> ty \<noteq> [] \<and>
      x_jsonb (n_ext N) i = Some j \<and> t \<in> tn_ID ` set (tenants p) \<and>
      \<not> idem_taken t (if idem_header cl = [] then None else Some (idem_header cl)) p \<and>
      (\<forall>n\<ge>pos (g_world g). fresh (tape (g_world g) n) \<notin> op_ID ` set (operations p)))"

definition below_limits :: "surface \<Rightarrow> ValidatedKey \<Rightarrow> platform \<Rightarrow> bool" where
  "below_limits N v p \<longleftrightarrow>
     js_number (units_of N (vk_TenantID v) p) < js_number (vk_MonthlyQuota v) \<and>
     js_number (counter (vk_TenantID v) (redis_state p)) < js_number (vk_MaxConcurrentOps v)"

lemma creatable_limits:
  "creatable N cl g v ty i j \<longleftrightarrow> asks N cl g v ty i j \<and> below_limits N v (store (g_world g))"
  by (auto simp: creatable_def asks_def below_limits_def Let_def)

text \<open>
  Clients send their requests for new operations through the gateway, one after the other, each
  finding the platform and the gateway's own keys as the one before left them: the replies, and the
  state in the end.
\<close>

fun burst :: "surface \<Rightarrow> client_request list \<Rightarrow> gworld \<Rightarrow> gateway_reply list \<times> gworld" where
  "burst N [] g = ([], g)"
| "burst N (cl # cls) g =
     (case gateway N cl CreateOp g of
        (a, g1) \<Rightarrow> (case burst N cls g1 of (as, g2) \<Rightarrow> (a # as, g2)))"

text \<open>
  Each client presents a key whose validation \<open>v\<close> is cached and, when its turn comes, asks for
  something that can be created: the limits aside.
\<close>

fun asked :: "surface \<Rightarrow> ValidatedKey \<Rightarrow> client_request list \<Rightarrow> gworld \<Rightarrow> bool" where
  "asked N v [] g = True"
| "asked N v (cl # cls) g =
     (\<not> cl_malformed cl \<and> \<not> cl_head cl \<and>
      (\<exists>key. presented_key cl = Some key \<and> key \<noteq> [] \<and> cached key (now_of g) (g_redis g) = Some v) \<and>
      (\<exists>ty i j. asks N cl g v ty i j) \<and> asked N v cls (snd (gateway N cl CreateOp g)))"

text \<open>Everything in the burst is taken in; what is billed and what is running stays as it is.\<close>

definition taken_in :: "ValidatedKey \<Rightarrow> gateway_reply list \<Rightarrow> platform \<Rightarrow> platform \<Rightarrow> bool" where
  "taken_in v as p p' \<longleftrightarrow>
     (\<exists>ops. operations p' = operations p @ ops \<and>
        list_all2 (\<lambda>a op. op_TenantID op = vk_TenantID v \<and> op_Status op = StatusQueued \<and>
          a = Relayed (OperationsReply (WriteJSON 202 (OperationBody op)))) as ops) \<and>
     length (main_queue (redis_state p')) = length (main_queue (redis_state p)) + length as \<and>
     usage_events p' = usage_events p \<and>
     (\<forall>t. counter t (redis_state p') = counter t (redis_state p))"

lemma accepted_below:
  assumes "accepted N cl v ty j p op p'"
  shows "below_limits N v p' = below_limits N v p"
    and "usage_events p' = usage_events p" and "counter t (redis_state p') = counter t (redis_state p)"
    and "length (main_queue (redis_state p')) = Suc (length (main_queue (redis_state p)))"
    and "clock p' = clock p"
  using assms
  by (auto simp: accepted_def below_limits_def units_of_def month_events_def pg_now_def redis_lpush_def
      counter_def)

lemma length_burst [simp]: "length (fst (burst N cls g)) = length cls"
  by (induction cls arbitrary: g) (simp_all add: case_prod_beta)

text \<open>C36: The limits are compared with what has been billed and what is running. So a tenant that has one
  unit of its quota and one concurrent operation left gets as many operations accepted as the rate
  limit of the minute lets through: undisturbed, and while the clock stands still, each request of
  such a burst is answered with 202 and its QUEUED operation, they all wait in the queue, and the
  tenant is as far below its quota and its concurrency limit as before.\<close>

theorem limits_overrun:
  assumes "alone g" and "plain_surface N" and "reachable (store (g_world g))"
    and "below_limits N v (store (g_world g))" and "asked N v cls g"
    and "window_of v g (g_redis g) + int (length cls) \<le> js_number (vk_RateLimitRPM v)"
  defines "p' \<equiv> store (g_world (snd (burst N cls g)))"
  shows "length (fst (burst N cls g)) = length cls \<and>
    taken_in v (fst (burst N cls g)) (store (g_world g)) p' \<and> below_limits N v p'"
  using assms(1,3-6) unfolding p'_def
proof (induction cls arbitrary: g)
  case Nil
  then show ?case by (simp add: taken_in_def)
next
  case (Cons cl cls)
  let ?p = "store (g_world g)"
  from Cons.prems(4) obtain ty i j where "asks N cl g v ty i j" and
    rest: "asked N v cls (snd (gateway N cl CreateOp g))" by auto
  then have cr: "creatable N cl g v ty i j" using Cons.prems(3) by (simp add: creatable_limits)
  have ad: "admitted cl g v" using Cons.prems(4,5) by (auto simp: admitted_def)
  obtain op g' where c: "gateway N cl CreateOp g = (Relayed (OperationsReply (WriteJSON 202 (OperationBody op))), g')"
    and acc: "accepted N cl v ty j ?p op (store (g_world g'))"
    and re: "reachable (store (g_world g'))" and al: "alone g'" and co: "counted_on v g g'"
    by (rule gateway_create_effect [OF Cons.prems(1) assms(2) ad cr Cons.prems(2)])
  note below = accepted_below [OF acc]
  have "window_of v g' (g_redis g') + int (length cls) \<le> js_number (vk_RateLimitRPM v)"
    using co Cons.prems(5) below(5) by (simp add: counted_on_def)
  with Cons.IH [OF al re] below(1) Cons.prems(3) rest c
  have "taken_in v (fst (burst N cls g')) (store (g_world g')) (store (g_world (snd (burst N cls g')))) \<and>
      below_limits N v (store (g_world (snd (burst N cls g'))))" by simp
  moreover have "operations (store (g_world g')) = operations ?p @ [op]" "op_TenantID op = vk_TenantID v"
    "op_Status op = StatusQueued"
    using acc by (auto simp: accepted_def)
  ultimately show ?case
    using below(2-4) c by (auto simp: taken_in_def case_prod_beta)
qed

section \<open>An example\<close>

text \<open>
  A tenant that may send two requests a minute, with one unit of its quota and one concurrent operation
  left, asks for two operations at once.
\<close>

definition tight_key :: ValidatedKey where
  "tight_key = own_key\<lparr>vk_RateLimitRPM := 2, vk_MonthlyQuota := 1\<rparr>"

definition tight_gate :: gworld where
  "tight_gate = (sample_gate tenant_a 6000 tight_key)\<lparr>g_world :=
     (sample_world tenant_a)\<lparr>tape := (\<lambda>n. (sample_turn n)\<lparr>fresh := (if n < 9 then 500 else 501)\<rparr>)\<rparr>\<rparr>"

abbreviation tight_gate1 :: gworld where
  "tight_gate1 \<equiv> snd (gateway journey_surface sample_client CreateOp tight_gate)"

lemma tight_gate_fields [simp]:
  "alone tight_gate" "store (g_world tight_gate) = tenant_a" "g_others tight_gate n p r = r"
  by (simp_all add: tight_gate_def alone_def quiet_def)

lemma tight_below: "below_limits journey_surface tight_key tenant_a"
  using tenant_a_empty
  by (simp add: below_limits_def tight_key_def own_key_def other_key_def units_of_def month_events_def
      small_numbers)

lemma tight_asks:
  assumes "1 \<in> tn_ID ` set (tenants (store (g_world g)))"
    and "\<forall>n\<ge>pos (g_world g). fresh (tape (g_world g) n) \<notin> op_ID ` set (operations (store (g_world g)))"
  shows "asks journey_surface sample_client g tight_key ''summarize'' [] []"
  using assms
  by (simp add: asks_def Let_def journey_surface_def sample_client_def job_ext_def tight_key_def own_key_def
      other_key_def idem_header_def idem_taken_def)

text \<open>The first request draws the id 500, and all later ones are to get 501.\<close>

lemma tight_first:
  "(pos (g_world tight_gate1), map op_ID (operations (store (g_world tight_gate1)))) = (11, [500])"
  by code_simp

lemma tight_start:
  "window_of tight_key tight_gate (g_redis tight_gate) = 0" "js_number (vk_RateLimitRPM tight_key) = 2"
  "vk_TenantID tight_key = 1"
  "cached ''x'' (now_of tight_gate) (g_redis tight_gate) = Some tight_key"
  "asks journey_surface sample_client tight_gate tight_key ''summarize'' [] []"
proof -
  show "js_number (vk_RateLimitRPM tight_key) = 2" by code_simp
  show "asks journey_surface sample_client tight_gate tight_key ''summarize'' [] []"
    by (rule tight_asks) (simp_all add: tenant_a_empty)
qed (simp_all add: tight_gate_def tight_key_def own_key_def other_key_def live_window_def cached_def
    tenant_a_empty)

lemma tight_asked: "asked journey_surface tight_key [sample_client, sample_client] tight_gate"
proof -
  have cr: "creatable journey_surface sample_client tight_gate tight_key ''summarize'' [] []"
    using tight_start(5) tight_below by (simp add: creatable_limits)
  have ad: "admitted sample_client tight_gate tight_key"
    using tight_start(1,2,4) by (auto simp: admitted_def)
  have re: "reachable (store (g_world tight_gate))" using sample_reachable(1) by simp
  obtain op g' where "gateway journey_surface sample_client CreateOp tight_gate =
      (Relayed (OperationsReply (WriteJSON 202 (OperationBody op))), g')"
    and acc: "accepted journey_surface sample_client tight_key ''summarize'' [] tenant_a op (store (g_world g'))"
    and tp: "tape (g_world g') = tape (g_world tight_gate)" and co: "counted_on tight_key tight_gate g'"
    by (rule gateway_create_effect [OF tight_gate_fields(1) journey_start(1) ad cr re]) simp
  then have g': "tight_gate1 = g'" by simp
  have "fresh (tape (g_world g') n) \<notin> op_ID ` set (operations (store (g_world g')))"
    if "pos (g_world g') \<le> n" for n
  proof -
    have "fresh (tape (g_world g') n) = 501"
      using that tight_first unfolding tp g' by (simp add: tight_gate_def)
    moreover have "op_ID ` set (operations (store (g_world g'))) = {500}"
      using tight_first unfolding g' by (metis list.set(1,2) list.set_map prod.inject)
    ultimately show ?thesis by simp
  qed
  then have "asks journey_surface sample_client g' tight_key ''summarize'' [] []"
    using acc tenant_a_empty by (intro tight_asks) (auto simp: accepted_def)
  moreover have "cached ''x'' (now_of g') (g_redis g') = Some tight_key"
    using co tight_start(4) accepted_below(5) [OF acc] by (simp add: counted_on_def cached_def)
  ultimately show ?thesis using tight_start(4,5) g' by auto
qed

theorem limits_overrun_witness:
  "\<exists>a b. operations (store (g_world (snd (burst journey_surface [sample_client, sample_client] tight_gate)))) = [a, b] \<and>
     op_Status a = StatusQueued \<and> op_Status b = StatusQueued \<and>
     fst (burst journey_surface [sample_client, sample_client] tight_gate) =
       [Relayed (OperationsReply (WriteJSON 202 (OperationBody a))),
        Relayed (OperationsReply (WriteJSON 202 (OperationBody b)))] \<and>
     vk_MonthlyQuota tight_key = 1 \<and> vk_MaxConcurrentOps tight_key = 1"
proof -
  have "reachable (store (g_world tight_gate))" "below_limits journey_surface tight_key (store (g_world tight_gate))"
    using sample_reachable(1) tight_below by simp_all
  from limits_overrun [OF tight_gate_fields(1) journey_start(1) this tight_asked]
  have t: "taken_in tight_key (fst (burst journey_surface [sample_client, sample_client] tight_gate)) tenant_a
      (store (g_world (snd (burst journey_surface [sample_client, sample_client] tight_gate))))"
    and "length (fst (burst journey_surface [sample_client, sample_client] tight_gate)) = Suc (Suc 0)"
    using tight_start(1,2) by (simp_all del: burst.simps)
  then obtain x y where "fst (burst journey_surface [sample_client, sample_client] tight_gate) = [x, y]"
    unfolding length_Suc_conv length_0_conv by blast
  with t show ?thesis
    by (auto simp: taken_in_def tenant_a_empty list_all2_Cons1 simp del: burst.simps)
      (simp_all add: tight_key_def own_key_def other_key_def)
qed

end
