(* ===== verification/Spec2Isabelle.thy ===== *)
theory Spec2Isabelle
  imports Admission Ownership Processing Scheduling Settling Metering Credentials Key_Store Startup
    Routes Losses Outages Notices Overlaps Overruns
begin

text \<open>
  \<^bold>\<open>The platform.\<close> Nexora runs customers' operations asynchronously. Three Go services share one
  PostgreSQL database, and one of them a Redis server:

  \<^item> \<open>services/operations\<close> admits operations, hands them to workers through a Redis list, records the
    attempts, decides on retries and keeps the state of each operation;
  \<^item> \<open>services/usage-webhooks\<close> meters usage and delivers signed events to customers' servers;
  \<^item> \<open>services/customer-access\<close> keeps tenants and API keys and validates a presented key.

  A gateway (\<open>gateway/src\<close>, TypeScript) authenticates customers and forwards their requests with
  \<open>X-Tenant-ID\<close>; a worker (\<open>worker/app\<close>, Python) takes jobs from the list, asks a model provider and
  reports to the operations service, which tells the usage service when an operation ends.

  \<^bold>\<open>How the code is modelled.\<close> Every Go struct is a record, every method and handler a function with
  the name it has in the code, with all its guards, early returns and error paths in order. A handler
  reaches the shared state by \<^emph>\<open>calls\<close> (\<open>Go_Base.call\<close>), one per SQL statement, transaction, Redis
  command or pipeline, or HTTP request. A world carries for each call to come a \<^emph>\<open>turn\<close>: what the rest
  of the deployment does to the state before the call, whether the call completes, is refused without
  effect, or takes effect and loses its reply, and what randomness and a customer's server answer. So
  a theorem over all worlds speaks of every interleaving at the grain of calls and of every failure;
  \<open>tame S w\<close> says that the others take steps of \<open>S\<close> only, and \<open>quiet w\<close> that nothing interferes and
  nothing fails. There is no fuel: every loop of the code is bounded by a list or a count and is
  structural recursion; the worker's endless loop is given by the number of its rounds, and
  \<open>Progress.operation_finishes\<close> says how many are enough, as \<open>Settling.deliveries_settle\<close> does for the
  sweeps of the deliveries. A JavaScript promise that is rejected and a
  Python exception are values.

  \<^bold>\<open>Theories.\<close>

  \<^item> \<open>Go_Base\<close>: Go values, errors, responses, requests, calls, SQL tables as lists of rows, and the
    locale \<open>keyed_update\<close>, the contract of an UPDATE.
  \<^item> \<open>Schema\<close>: \<open>db/migrations/001_init.sql\<close>, the structs of the \<open>model\<close> packages and the Redis keys;
    \<open>schema_ok\<close> collects primary keys, unique indexes and foreign keys.
  \<^item> \<open>Float64\<close>: rounding of \<open>float64\<close>, for the jitter of the backoff. \<open>Crypto\<close>: hexadecimal, SHA-256,
    HMAC.
  \<^item> \<open>Operations_Repo\<close>, \<open>Queue_Service\<close>, \<open>Operations_Handler\<close>: \<open>internal/model\<close>, \<open>internal/repository\<close>,
    \<open>internal/queue\<close>, \<open>internal/sideeffects\<close> and \<open>internal/handler\<close> of the operations service; locales
    \<open>guarded_update\<close> (an UPDATE that never selects a terminal row) and \<open>fifo\<close>.
  \<^item> \<open>Usage_Service\<close>: repository, dispatcher and handlers of the usage service. \<open>Access_Service\<close>: keys,
    repository and handlers of the access service. \<open>Boot\<close>: the \<open>main\<close> packages.
  \<^item> \<open>Steps\<close>: the specification of the whole, an inductive relation with one rule per atomic statement.
    \<open>guarded_step\<close> leaves out the transaction of \<open>StartAttempt\<close>, whose UPDATE has no guard;
    \<open>platform_step\<close> adds it. The locales \<open>statements\<close> and \<open>all_statements\<close> prove that every handler
    is a run of any relation with these rules. \<open>Deployment\<close>: all routes, goroutines and loops as one
    function \<open>serve\<close>, the usage service standing behind the notifier's client.
  \<^item> \<open>Invariants\<close> reduces the statements to sixteen kinds of change of the tables and proves the schema's
    constraints; \<open>Lifecycle\<close> states invariants of all reachable states and relations between a state
    and any later one through the locales \<open>invariant\<close> and \<open>history\<close>, interpreted once for each.
  \<^item> \<open>Worker\<close>: \<open>worker/app\<close>: the loop of \<open>main.py\<close>, \<open>process_job\<close>, the client of the operations
    service and the providers, as one more client of the handlers. \<open>Startup\<close>: the three \<open>main\<close>
    functions, what ends a start and what it starts. \<open>Routes\<close>: the route tables of \<open>Routes\<close>, and a type
    for the answers of each route.
  \<^item> \<open>Gateway\<close>: the pipeline of \<open>index.ts\<close>, its middleware and its proxy, with its own Redis keys as
    a state beside the platform's. Its requests are parsed from a URL and reach the route tables.
  \<^item> \<open>Sample\<close>: concrete reachable states and worlds, for the examples that apply the theorems.
  \<^item> \<open>Admission\<close>, \<open>Ownership\<close>, \<open>Processing\<close>, \<open>Scheduling\<close>, \<open>Delivery\<close>, \<open>Metering\<close>, \<open>Credentials\<close>: what
    the services promise, by subject, from idempotent creation to the finality of a revocation.
    \<open>Key_Store\<close>: the access service refines an abstract ring of keys, each request at one moment.
    \<open>Progress\<close>: worker and operations service together bring an operation to an end, and the ways in
    which a job is lost. \<open>Losses\<close>: what happens when the reply to a report is lost.
  \<^item> \<open>Settling\<close>: webhook delivery comes to an end. Its locale \<open>countdown\<close> states what makes a loop
    reach its goal (an invariant kept, a rank that falls) and is interpreted on the retry sweep with
    the attempts left as the rank; so every delivery a dispatch records is settled.
  \<^item> \<open>Ingress\<close>: the tenant of a forwarded request is the owner of the presented key, under any
    interleaving. \<open>Throttle\<close>: the delay of a revocation, the rate limit of a minute and of a burst, and
    the decision on a new operation. \<open>Escapes\<close>: with a plain id only the tenant's own
    operation is shown; what other texts reach. \<open>Edge_Sample\<close>: the theorems about the
    gateway in concrete surroundings. \<open>Journey\<close> composes gateway, operations service, worker and
    usage service: from a client's POST to the result it reads, and to the bill; \<open>Outages\<close> does so for
    providers that fail: how often the worker tries, what is recorded and what the client is shown.
  \<^item> \<open>Notices\<close>: from the goroutine that announces the end of an operation to the deliveries to its
    tenant's endpoints, and what is lost when the notifier hangs up on a slow endpoint.
    \<open>Overlaps\<close>: what a sweep during a first attempt does to the delivery. \<open>Overruns\<close>: what the limits of
    a tenant do not count, however many requests one minute of its rate limit lets through.

  This theory adds the properties of the deployment as a whole.

  \<^bold>\<open>Parameters.\<close> Code that is not in the repository is an argument (\<open>Deployment.ext\<close>): what a \<open>jsonb\<close>
  column gives back for a text, \<open>date_trunc\<close>, \<open>json.Marshal\<close> on a job, an event and a raw message,
  \<open>url.Parse\<close> accepting a URL, and the HMAC secret. The body of a request is given as the result of
  decoding it. The worker's \<open>surroundings\<close> give what a provider answers, \<open>json.loads\<close> and \<open>json.dumps\<close>,
  elapsed times and the texts of exceptions; the \<open>decoders\<close> of a service how a text becomes an id and a
  body a request; the gateway's \<open>surface\<close> how a path looks after encoding and decoding and a query
  after parsing. The \<open>main\<close> functions take the outcome of each try to reach a dependency.

  \<^bold>\<open>Assumptions.\<close> A transaction is atomic and serializable with the other statements; the services
  and the database read one clock, which does not move during a call (it moves between calls, as a
  step of the others); \<open>gen_random_uuid()\<close> may return anything, and a repeated value violates the
  primary key; rows that an ORDER BY leaves tied keep the order of insertion (PostgreSQL leaves it
  open; \<open>Delivery.ordered_limit\<close> says what it promises, and \<open>Delivery.due_queries_agree\<close> rests on
  that alone); an id is known up to the UUID its text denotes; strings hold no NUL and are valid
  UTF-8, as \<open>TEXT\<close> demands; the status a customer's server answers is the one after redirects;
  \<open>return id, row.Scan(&id)\<close> in \<open>CreateDelivery\<close> returns the scanned id, as the Go compiler has it
  though the language leaves the order open; a goroutine runs after the handler that starts it,
  interleaved with other handlers by their turns. The worker's texts are those of Python as long as
  they are ASCII.

  \<^bold>\<open>Bounds.\<close> \<open>int\<close> and \<open>int64\<close> wrap around at 64 bits where the code computes with them
  (\<open>wrap64\<close>, \<open>duration\<close>), an \<open>INT\<close> argument that does not fit in 32 bits is refused (\<open>int4_ok\<close>). The
  bounds of the backoff hold for attempts 0 to 32, and \<open>Scheduling.backoff_wraps\<close> shows what happens
  after that; the handlers create operations with three retries.

  \<^bold>\<open>Not modelled.\<close> The dashboards and the sample customer: their requests are any requests. Of the
  gateway the headers of CORS and the texts of Express's own errors. Log lines, the bytes of a JSON
  response, HTTP timeouts (a refused call or a lost reply; a cancelled request is one whose calls
  are refused from then on), connection pools after the start, the length of the pauses during a
  start, the end of the gateway's process after a rejection nobody catches, \<open>ON DELETE CASCADE\<close>
  (nothing deletes rows) and the constructors that only store their arguments are left out.
\<close>

section \<open>The deployment as a whole\<close>

text \<open>C1: Refinement and safety of the whole: whatever a service does, a request of any route, a
  goroutine or a round of a loop, under any interleaving with the rest of the deployment and with
  any failures of its calls, is a run of the platform's atomic steps, and leads from a reachable
  state to a reachable state that satisfies every constraint of the schema.\<close>

theorem serve_refines:
  assumes "reachable (store w)" and "tame platform_step w"
  shows "platform_step\<^sup>*\<^sup>* (store w) (store (serve x a w)) \<and>
    reachable (store (serve x a w)) \<and> schema_ok (store (serve x a w))"
proof -
  note m = full.serve_all_moves [OF assms(2), of x a]
  have "platform_step\<^sup>*\<^sup>* (store w) (store (serve x a w))" using m by (simp add: moves_def)
  then show ?thesis
    using reachable_moves [OF assms(1) m] schema.at_reachable by blast
qed

theorem serve_refines_witness:
  "schema_ok (store (serve sample_ext (Goroutine (GoNotifySuccess 1 2 None))
     (sample_world hook_added)))"
proof -
  have "reachable (store (sample_world hook_added))" using sample_reachable(7) by simp
  from serve_refines [OF this tame_sample, of sample_ext "Goroutine (GoNotifySuccess 1 2 None)"]
  show ?thesis by blast
qed

text \<open>C3: Terminal immutability: while no attempt is started, neither by the request at hand nor by
  the rest of the deployment, nothing a service does changes an operation that is SUCCEEDED, FAILED,
  DEAD_LETTERED or CANCELLED.\<close>

theorem terminal_immutable:
  assumes "tame guarded_step w" and "\<not> starts_attempt a"
    and "row \<in> set (operations (store w))" and "IsTerminal (op_Status row)"
  shows "row \<in> set (operations (store (serve x a w)))"
proof -
  obtain n where "n < length (operations (store w))" "operations (store w) ! n = row"
    using assms(3) by (auto simp: in_set_conv_nth)
  then show ?thesis
    using frozen.serving [OF assms(1,2), of x] assms(4)
    by (auto simp: terminal_frozen_def intro: nth_mem elim!: allE [of _ n])
      (metis nth_mem order_less_le_trans)
qed

theorem terminal_immutable_witness:
  "hd (operations op_succeeded) \<in> set (operations (store (serve sample_ext
     (Operations (PostCancel (sample_get (UuidText 1) (UuidText 2)))) (sample_world op_succeeded))))"
  using terminal_immutable [of "sample_world op_succeeded"
      "Operations (PostCancel (sample_get (UuidText 1) (UuidText 2)))" "hd (operations op_succeeded)"]
  by simp

text \<open>C6: The lifecycle of an operation: in every reachable state an operation has one of the eight
  statuses; one that waits has no start, end, output, error or attempt; one that has been picked up
  has a start; one that failed has an error and one that succeeded has none; a terminal one has an
  end; and its times are in order and not in the future.\<close>

theorem operation_lifecycle:
  assumes "reachable p" and "row \<in> set (operations p)"
  shows "op_wf row \<and> op_times (pg_now p) row"
  using ops.at_reachable [OF assms(1)] assms(2) by (simp add: operations_ok_def)

theorem operation_lifecycle_witness:
  "op_wf (hd (operations op_succeeded)) \<and>
   op_times (pg_now op_succeeded) (hd (operations op_succeeded))"
  using operation_lifecycle [OF sample_reachable(5), of "hd (operations op_succeeded)"] by simp

text \<open>C7: In one step the status of an operation stays or moves along an edge of the state machine:
  PENDING to QUEUED, RUNNING to SUCCEEDED, RETRYING, FAILED or DEAD_LETTERED, any non-terminal one to
  CANCELLED, and, only in the transaction that starts an attempt, any status to RUNNING.\<close>

theorem status_edges:
  assumes "platform_step p p'" and "n < length (operations p)"
  shows "n < length (operations p') \<and>
    op_edge (\<not> guarded_step p p') (op_Status (operations p ! n)) (op_Status (operations p' ! n))"
proof (cases "guarded_step p p'")
  case True
  show ?thesis
    using change_op_edge [OF guarded_step_change [OF True, of False]] assms(2) True by auto
next
  case False
  show ?thesis
    using change_op_edge [OF platform_step_change [OF assms(1)]] assms(2) False by auto
qed

theorem status_edges_witness:
  "op_edge (\<not> guarded_step op_queued op_running) (op_Status (operations op_queued ! 0))
     (op_Status (operations op_running ! 0))"
proof -
  have "platform_step op_queued op_running"
    unfolding op_running_def by (rule platform_step.start_attempt)
  from status_edges [OF this, of 0] show ?thesis by simp
qed

text \<open>Nothing is forgotten: whatever a service does in any interleaving, tenants, endpoints and
  usage events are only ever added, and every operation, attempt, delivery and key stays in its
  table with what identifies it unchanged.\<close>

theorem records_persist:
  assumes "tame platform_step w"
  shows "records_kept (store w) (store (serve x a w))"
  using assms by (rule kept.serving)

theorem records_persist_witness:
  "records_kept key_added (store (serve sample_ext
     (Access (DeleteApiKey (sample_get EmptyText (UuidText 5)))) (sample_world key_added)))"
  using records_persist [OF tame_sample, of key_added sample_ext
      "Access (DeleteApiKey (sample_get EmptyText (UuidText 5)))"]
  by (simp only: sample_world_fields)

text \<open>C32: The books are in order in every reachable state: an attempt is open, or closed with a result
  and what the result needs, and belongs to an operation that has started; a delivery has counted
  attempts exactly if it has a last one, and is PENDING before; a key has a time of revocation
  exactly if it is revoked; no event is from the future; and no job is delayed twice.\<close>

theorem books_in_order:
  assumes "reachable p"
  shows "attempts_ok p \<and> records_ok p"
  using attempts.at_reachable [OF assms] records.at_reachable [OF assms] by simp

theorem books_in_order_witness: "attempts_ok key_gone \<and> records_ok key_gone"
  using books_in_order [OF sample_reachable(9)] .

end
